theory Spec2Isabelle
  imports Main "HOL-Library.Word"
begin

unbundle bit_operations_syntax

section \<open>Data model\<close>

type_synonym u8 = "8 word"
type_synonym u16 = "16 word"
type_synonym u32 = "32 word"

text \<open>
  The registers of the controller. The header \<^verbatim>\<open>sunxi_can.h\<close>, which gives their
  addresses, is not among the sources.
  Modelled from the spec: section 6 names the registers (mode select, command, status,
  interrupt, interrupt enable, bit timing, error counter, acceptance mask, the buffer
  registers), and sections 4.3 and 4.4 place the data bytes in the buffer slots that
  follow the identifier chunks, so \<^verbatim>\<open>CAN_BUFk_ADDR + i * 4\<close> is the buffer slot \<open>k + i\<close>.
\<close>

datatype reg =
    CAN_MSEL_ADDR
  | CAN_CMD_ADDR
  | CAN_STA_ADDR
  | CAN_INT_ADDR
  | CAN_INTEN_ADDR
  | CAN_BTIME_ADDR
  | CAN_ERRC_ADDR
  | CAN_ACPM_ADDR
  | CAN_RBUF_RBACK_START_ADDR
  | CAN_BUF_ADDR nat

abbreviation "CAN_BUF0_ADDR \<equiv> CAN_BUF_ADDR 0"
abbreviation "CAN_BUF1_ADDR \<equiv> CAN_BUF_ADDR 1"
abbreviation "CAN_BUF2_ADDR \<equiv> CAN_BUF_ADDR 2"
abbreviation "CAN_BUF3_ADDR \<equiv> CAN_BUF_ADDR 3"
abbreviation "CAN_BUF4_ADDR \<equiv> CAN_BUF_ADDR 4"

text \<open>
  The bit masks of \<^verbatim>\<open>sunxi_can.h\<close> that the functions below use. Their values are not in
  the sources, so every function takes them as the parameter \<open>h\<close>.
\<close>

record sunxi_can_h =
  RESET_MODE :: u32
  LOOPBACK_MODE :: u32
  LISTEN_ONLY_MODE :: u32
  BERR_IRQ_EN :: u32
  TRANS_REQ :: u32
  RELEASE_RBUF :: u32
  CLEAR_DOVERRUN :: u32
  TBUF_RDY :: u32
  RBUF_RDY :: u32
  BUS_OFF :: u32
  ERR_STA :: u32
  BIT_ERR :: u32
  FORM_ERR :: u32
  STUFF_ERR :: u32
  ERR_DIR :: u32
  ERR_SEG_CODE :: u32
  BUS_ERR :: u32
  ARB_LOST :: u32
  ERR_PASSIVE :: u32
  WAKEUP :: u32
  DATA_ORUNI :: u32
  ERR_WRN :: u32
  TBUF_VLD :: u32
  RBUF_VLD :: u32

text \<open>
  Modelled from the spec: \<^verbatim>\<open>SUNXI_CAN_MAX_IRQ\<close> is defined in the missing header; section
  4.5 gives the bound of the dispatch loop as 20.
\<close>

definition SUNXI_CAN_MAX_IRQ :: nat where
  "SUNXI_CAN_MAX_IRQ = 20"

subsection \<open>Constants of the Linux CAN interface\<close>

text \<open>The values of \<^verbatim>\<open>linux/can.h\<close>, \<^verbatim>\<open>linux/can/error.h\<close> and \<^verbatim>\<open>linux/can/netlink.h\<close>.\<close>

definition CAN_EFF_FLAG :: u32 where "CAN_EFF_FLAG = 0x80000000"
definition CAN_RTR_FLAG :: u32 where "CAN_RTR_FLAG = 0x40000000"
definition CAN_ERR_FLAG :: u32 where "CAN_ERR_FLAG = 0x20000000"
definition CAN_ERR_DLC :: u8 where "CAN_ERR_DLC = 8"

definition CAN_ERR_LOSTARB :: u32 where "CAN_ERR_LOSTARB = 0x00000002"
definition CAN_ERR_CRTL :: u32 where "CAN_ERR_CRTL = 0x00000004"
definition CAN_ERR_PROT :: u32 where "CAN_ERR_PROT = 0x00000008"
definition CAN_ERR_BUSOFF :: u32 where "CAN_ERR_BUSOFF = 0x00000040"
definition CAN_ERR_BUSERROR :: u32 where "CAN_ERR_BUSERROR = 0x00000080"

definition CAN_ERR_CRTL_RX_OVERFLOW :: u8 where "CAN_ERR_CRTL_RX_OVERFLOW = 0x01"
definition CAN_ERR_CRTL_RX_WARNING :: u8 where "CAN_ERR_CRTL_RX_WARNING = 0x04"
definition CAN_ERR_CRTL_TX_WARNING :: u8 where "CAN_ERR_CRTL_TX_WARNING = 0x08"
definition CAN_ERR_CRTL_RX_PASSIVE :: u8 where "CAN_ERR_CRTL_RX_PASSIVE = 0x10"
definition CAN_ERR_CRTL_TX_PASSIVE :: u8 where "CAN_ERR_CRTL_TX_PASSIVE = 0x20"

definition CAN_ERR_PROT_UNSPEC :: u8 where "CAN_ERR_PROT_UNSPEC = 0x00"
definition CAN_ERR_PROT_BIT :: u8 where "CAN_ERR_PROT_BIT = 0x01"
definition CAN_ERR_PROT_FORM :: u8 where "CAN_ERR_PROT_FORM = 0x02"
definition CAN_ERR_PROT_STUFF :: u8 where "CAN_ERR_PROT_STUFF = 0x04"
definition CAN_ERR_PROT_TX :: u8 where "CAN_ERR_PROT_TX = 0x80"

definition CAN_CTRLMODE_LOOPBACK :: u32 where "CAN_CTRLMODE_LOOPBACK = 0x01"
definition CAN_CTRLMODE_LISTENONLY :: u32 where "CAN_CTRLMODE_LISTENONLY = 0x02"
definition CAN_CTRLMODE_3_SAMPLES :: u32 where "CAN_CTRLMODE_3_SAMPLES = 0x04"
definition CAN_CTRLMODE_BERR_REPORTING :: u32 where "CAN_CTRLMODE_BERR_REPORTING = 0x10"

definition ENOMEM :: int where "ENOMEM = 12"

text \<open>\<^verbatim>\<open>get_can_dlc(i)\<close> is \<^verbatim>\<open>min_t(__u8, (i), 8)\<close>.\<close>

definition get_can_dlc :: "u8 \<Rightarrow> u8" where
  "get_can_dlc i = (if i \<le> 8 then i else 8)"

subsection \<open>Frames, counters and the device\<close>

text \<open>\<^verbatim>\<open>struct can_frame\<close>: \<open>data\<close> is the array \<^verbatim>\<open>__u8 data[8]\<close>, a list of length 8.\<close>

record can_frame =
  can_id :: u32
  can_dlc :: u8
  data :: "u8 list"

datatype can_state =
    CAN_STATE_ERROR_ACTIVE
  | CAN_STATE_ERROR_WARNING
  | CAN_STATE_ERROR_PASSIVE
  | CAN_STATE_BUS_OFF
  | CAN_STATE_STOPPED
  | CAN_STATE_SLEEPING

record can_bittiming =
  brp :: u32
  sjw :: u32
  prop_seg :: u32
  phase_seg1 :: u32
  phase_seg2 :: u32

record can_berr_counter =
  txerr :: u16
  rxerr :: u16

text \<open>\<^verbatim>\<open>struct can_device_stats\<close> (\<^verbatim>\<open>__u32\<close> counters).\<close>

record can_device_stats =
  bus_error :: u32
  error_warning :: u32
  error_passive :: u32
  bus_off :: u32
  arbitration_lost :: u32

text \<open>The counters of \<^verbatim>\<open>struct net_device_stats\<close> (\<^verbatim>\<open>unsigned long\<close>, 32 bits on sunxi).\<close>

record net_device_stats =
  rx_packets :: u32
  tx_packets :: u32
  rx_bytes :: u32
  tx_bytes :: u32
  rx_errors :: u32
  tx_errors :: u32
  tx_dropped :: u32
  rx_over_errors :: u32

text \<open>
  A kernel log line: the format string and the value printed with it, if any. The log
  holds the lines that the driver prints at the levels error, warning and info. Its
  lines at debug level (\<^verbatim>\<open>netdev_dbg\<close>, \<^verbatim>\<open>pr_debug\<close>), which the kernel prints only
  when debugging is switched on, are left out of it everywhere.
\<close>

datatype kmsg = Kmsg string | Kmsg_val string u32

text \<open>What the driver does on the bus, in the order it does it.\<close>

datatype io_event = Readl reg u32 | Writel u32 reg | Udelay nat

text \<open>
  The net device with its private data: the fields of \<^verbatim>\<open>struct net_device\<close>,
  \<^verbatim>\<open>struct can_priv\<close> and \<^verbatim>\<open>struct sunxi_can_priv\<close> that the driver reads or writes.
  \<open>netif_rx_queue\<close> holds the frames handed to \<^verbatim>\<open>netif_rx\<close>, \<open>carrier_ok\<close> and
  \<open>queue_stopped\<close> the carrier and the transmit queue, \<open>echo_skb\<close> the one echo slot,
  \<open>klog\<close> the kernel log and \<open>io_log\<close> the register accesses and delays so far.
\<close>

record net_device =
  state :: can_state
  ctrlmode :: u32
  bittiming :: can_bittiming
  can_stats :: can_device_stats
  stats :: net_device_stats
  netif_rx_queue :: "can_frame list"
  carrier_ok :: bool
  queue_stopped :: bool
  echo_skb :: "can_frame option"
  klog :: "kmsg list"
  io_log :: "io_event list"

text \<open>
  The world outside the driver: the controller behind \<^verbatim>\<open>readl\<close>, \<^verbatim>\<open>writel\<close> and
  \<^verbatim>\<open>udelay\<close>, and the kernel's buffer allocator. A read may change the hardware state
  and an allocation may fail; \<open>'w\<close> is the state of that world.
\<close>

record 'w platform =
  hw_readl :: "reg \<Rightarrow> 'w \<Rightarrow> u32 \<times> 'w"
  hw_writel :: "u32 \<Rightarrow> reg \<Rightarrow> 'w \<Rightarrow> 'w"
  hw_udelay :: "nat \<Rightarrow> 'w \<Rightarrow> 'w"
  k_alloc_can_skb :: "'w \<Rightarrow> bool \<times> 'w"
  k_alloc_can_err_skb :: "'w \<Rightarrow> bool \<times> 'w"

type_synonym 'w sys = "'w \<times> net_device"

section \<open>Register interface and kernel services\<close>

definition readl :: "'w platform \<Rightarrow> reg \<Rightarrow> 'w sys \<Rightarrow> u32 \<times> 'w sys" where
  "readl p r s =
     (let (v, w') = hw_readl p r (fst s)
      in (v, (w', (snd s)\<lparr>io_log := io_log (snd s) @ [Readl r v]\<rparr>)))"

definition writel :: "'w platform \<Rightarrow> u32 \<Rightarrow> reg \<Rightarrow> 'w sys \<Rightarrow> 'w sys" where
  "writel p v r s =
     (hw_writel p v r (fst s), (snd s)\<lparr>io_log := io_log (snd s) @ [Writel v r]\<rparr>)"

definition udelay :: "'w platform \<Rightarrow> nat \<Rightarrow> 'w sys \<Rightarrow> 'w sys" where
  "udelay p us s =
     (hw_udelay p us (fst s), (snd s)\<lparr>io_log := io_log (snd s) @ [Udelay us]\<rparr>)"

definition printk :: "kmsg \<Rightarrow> 'w sys \<Rightarrow> 'w sys" where
  "printk m s = (fst s, (snd s)\<lparr>klog := klog (snd s) @ [m]\<rparr>)"

definition on_dev :: "(net_device \<Rightarrow> net_device) \<Rightarrow> 'w sys \<Rightarrow> 'w sys" where
  "on_dev f s = (fst s, f (snd s))"

definition inc :: "u32 \<Rightarrow> u32" where
  "inc x = x + 1"

text \<open>\<^verbatim>\<open>alloc_can_skb\<close> gives a zeroed frame, or fails.\<close>

definition zero_frame :: can_frame where
  "zero_frame = \<lparr>can_id = 0, can_dlc = 0, data = replicate 8 0\<rparr>"

definition alloc_can_skb :: "'w platform \<Rightarrow> 'w sys \<Rightarrow> can_frame option \<times> 'w sys" where
  "alloc_can_skb p s =
     (let (ok, w') = k_alloc_can_skb p (fst s)
      in (if ok then Some zero_frame else None, (w', snd s)))"

text \<open>\<^verbatim>\<open>alloc_can_err_skb\<close> gives a zeroed frame with the error flag and 8 data bytes.\<close>

definition alloc_can_err_skb :: "'w platform \<Rightarrow> 'w sys \<Rightarrow> can_frame option \<times> 'w sys" where
  "alloc_can_err_skb p s =
     (let (ok, w') = k_alloc_can_err_skb p (fst s)
      in (if ok then Some (zero_frame\<lparr>can_id := CAN_ERR_FLAG, can_dlc := CAN_ERR_DLC\<rparr>)
          else None, (w', snd s)))"

definition netif_rx :: "can_frame \<Rightarrow> 'w sys \<Rightarrow> 'w sys" where
  "netif_rx cf = on_dev (\<lambda>d. d\<lparr>netif_rx_queue := netif_rx_queue d @ [cf]\<rparr>)"

text \<open>\<^verbatim>\<open>can_bus_off\<close>: the carrier goes down and the bus-off counter goes up.\<close>

definition can_bus_off :: "'w sys \<Rightarrow> 'w sys" where
  "can_bus_off = on_dev (\<lambda>d. d\<lparr>carrier_ok := False,
                                can_stats := bus_off_update inc (can_stats d)\<rparr>)"

definition netif_stop_queue :: "'w sys \<Rightarrow> 'w sys" where
  "netif_stop_queue = on_dev (\<lambda>d. d\<lparr>queue_stopped := True\<rparr>)"

definition netif_wake_queue :: "'w sys \<Rightarrow> 'w sys" where
  "netif_wake_queue = on_dev (\<lambda>d. d\<lparr>queue_stopped := False\<rparr>)"

definition can_put_echo_skb :: "can_frame \<Rightarrow> 'w sys \<Rightarrow> 'w sys" where
  "can_put_echo_skb cf = on_dev (\<lambda>d. d\<lparr>echo_skb := Some cf\<rparr>)"

definition can_get_echo_skb :: "'w sys \<Rightarrow> 'w sys" where
  "can_get_echo_skb s =
     (case echo_skb (snd s) of
        None \<Rightarrow> s
      | Some cf \<Rightarrow> on_dev (\<lambda>d. d\<lparr>echo_skb := None\<rparr>) (netif_rx cf s))"

text \<open>\<^verbatim>\<open>can_dropped_invalid_skb\<close>: a frame with more than 8 data bytes is dropped.\<close>

definition can_dropped_invalid_skb :: "can_frame \<Rightarrow> 'w sys \<Rightarrow> bool \<times> 'w sys" where
  "can_dropped_invalid_skb cf s =
     (if 8 < can_dlc cf
      then (True, on_dev (\<lambda>d. d\<lparr>stats := tx_dropped_update inc (stats d)\<rparr>) s)
      else (False, s))"

definition sunxi_can_write_cmdreg :: "'w platform \<Rightarrow> u8 \<Rightarrow> 'w sys \<Rightarrow> 'w sys" where
  "sunxi_can_write_cmdreg p val s = writel p (ucast val) CAN_CMD_ADDR s"

definition sunxi_can_is_absent :: "'w platform \<Rightarrow> 'w sys \<Rightarrow> bool \<times> 'w sys" where
  "sunxi_can_is_absent p s =
     (let (v, s1) = readl p CAN_MSEL_ADDR s in (v AND 0xFF = 0xFF, s1))"

section \<open>Mode controller\<close>

function set_reset_mode_loop ::
  "'w platform \<Rightarrow> sunxi_can_h \<Rightarrow> nat \<Rightarrow> u32 \<Rightarrow> 'w sys \<Rightarrow> 'w sys" where
  "set_reset_mode_loop p h i status s =
     (if i < 100 then
        if status AND RESET_MODE h \<noteq> 0
        then on_dev (\<lambda>d. d\<lparr>state := CAN_STATE_STOPPED\<rparr>) s
        else
          let (v, s1) = readl p CAN_MSEL_ADDR s;
              s2 = writel p (v OR RESET_MODE h) CAN_MSEL_ADDR s1;
              s3 = udelay p 10 s2;
              (status', s4) = readl p CAN_MSEL_ADDR s3
          in set_reset_mode_loop p h (i + 1) status' s4
      else printk (Kmsg ''setting SUNXI_CAN into reset mode failed!'') s)"
  by pat_completeness auto
termination
  by (relation "measure (\<lambda>(p, h, i, status, s). 100 - i)") auto

definition set_reset_mode :: "'w platform \<Rightarrow> sunxi_can_h \<Rightarrow> 'w sys \<Rightarrow> 'w sys" where
  "set_reset_mode p h s =
     (let (status, s1) = readl p CAN_MSEL_ADDR s
      in set_reset_mode_loop p h 0 status s1)"

text \<open>What \<^verbatim>\<open>set_normal_mode\<close> does once the reset bit has cleared.\<close>

definition set_normal_mode_done :: "'w platform \<Rightarrow> sunxi_can_h \<Rightarrow> 'w sys \<Rightarrow> 'w sys" where
  "set_normal_mode_done p h s =
     (let s1 = on_dev (\<lambda>d. d\<lparr>state := CAN_STATE_ERROR_ACTIVE\<rparr>) s;
          s2 = (if ctrlmode (snd s1) AND CAN_CTRLMODE_BERR_REPORTING \<noteq> 0
                then writel p 0xFFFF CAN_INTEN_ADDR s1
                else writel p (0xFFFF AND NOT (BERR_IRQ_EN h)) CAN_INTEN_ADDR s1)
      in if ctrlmode (snd s2) AND CAN_CTRLMODE_LOOPBACK \<noteq> 0 then
           (let (v, s3) = readl p CAN_MSEL_ADDR s2
            in writel p (v OR LOOPBACK_MODE h) CAN_MSEL_ADDR s3)
         else if ctrlmode (snd s2) AND CAN_CTRLMODE_LISTENONLY \<noteq> 0 then
           (let (v, s3) = readl p CAN_MSEL_ADDR s2
            in writel p (v OR LISTEN_ONLY_MODE h) CAN_MSEL_ADDR s3)
         else s2)"

text \<open>\<open>status\<close> is an \<^verbatim>\<open>unsigned char\<close> here: only the low byte of the register is tested.\<close>

function set_normal_mode_loop ::
  "'w platform \<Rightarrow> sunxi_can_h \<Rightarrow> nat \<Rightarrow> u8 \<Rightarrow> 'w sys \<Rightarrow> 'w sys" where
  "set_normal_mode_loop p h i status s =
     (if i < 100 then
        if (ucast status :: u32) AND RESET_MODE h = 0
        then set_normal_mode_done p h s
        else
          let (v, s1) = readl p CAN_MSEL_ADDR s;
              s2 = writel p (v AND NOT (RESET_MODE h)) CAN_MSEL_ADDR s1;
              s3 = udelay p 10 s2;
              (v', s4) = readl p CAN_MSEL_ADDR s3
          in set_normal_mode_loop p h (i + 1) (ucast v') s4
      else printk (Kmsg ''setting SUNXI_CAN into normal mode failed!'') s)"
  by pat_completeness auto
termination
  by (relation "measure (\<lambda>(p, h, i, status, s). 100 - i)") auto

definition set_normal_mode :: "'w platform \<Rightarrow> sunxi_can_h \<Rightarrow> 'w sys \<Rightarrow> 'w sys" where
  "set_normal_mode p h s =
     (let (v, s1) = readl p CAN_MSEL_ADDR s
      in set_normal_mode_loop p h 0 (ucast v) s1)"

section \<open>Bit timing and error counters\<close>

text \<open>The value \<open>cfg\<close> that \<^verbatim>\<open>sunxi_can_set_bittiming\<close> computes.\<close>

definition bittiming_cfg :: "can_bittiming \<Rightarrow> u32 \<Rightarrow> u32" where
  "bittiming_cfg bt cm =
     (let cfg = ((brp bt - 1) AND 0x3FF)
                OR push_bit 14 ((sjw bt - 1) AND 0x3)
                OR push_bit 16 ((prop_seg bt + phase_seg1 bt - 1) AND 0xf)
                OR push_bit 20 ((phase_seg2 bt - 1) AND 0x7)
      in if cm AND CAN_CTRLMODE_3_SAMPLES \<noteq> 0 then cfg OR 0x800000 else cfg)"

definition sunxi_can_set_bittiming ::
  "'w platform \<Rightarrow> sunxi_can_h \<Rightarrow> 'w sys \<Rightarrow> int \<times> 'w sys" where
  "sunxi_can_set_bittiming p h s =
     (let cfg = bittiming_cfg (bittiming (snd s)) (ctrlmode (snd s));
          s1 = printk (Kmsg_val ''setting BITTIMING=0x%08x'' cfg) s;
          s2 = set_reset_mode p h s1;
          s3 = writel p cfg CAN_BTIME_ADDR s2;
          s4 = set_normal_mode p h s3
      in (0, s4))"

definition sunxi_can_get_berr_counter ::
  "'w platform \<Rightarrow> 'w sys \<Rightarrow> int \<times> can_berr_counter \<times> 'w sys" where
  "sunxi_can_get_berr_counter p s =
     (let (v1, s1) = readl p CAN_ERRC_ADDR s;
          (v2, s2) = readl p CAN_ERRC_ADDR s1
      in (0, \<lparr>txerr = ucast (v1 AND 0x000F),
              rxerr = ucast (drop_bit 16 (v2 AND 0x0F00))\<rparr>, s2))"

section \<open>Frame codec\<close>

text \<open>
  The two busy waits of \<^verbatim>\<open>sunxi_can_start_xmit\<close> have no bound: a status register that
  never shows the buffer ready keeps the driver in the loop, and the result is \<open>None\<close>.
\<close>

partial_function (option) wait_tbuf_rdy ::
  "'w platform \<Rightarrow> sunxi_can_h \<Rightarrow> 'w sys \<Rightarrow> 'w sys option" where
  "wait_tbuf_rdy p h s =
     (let (v, s1) = readl p CAN_STA_ADDR s
      in if v AND TBUF_RDY h = 0 then wait_tbuf_rdy p h s1 else Some s1)"

text \<open>The loops \<^verbatim>\<open>for (i = 0; i < dlc; i++) writel(cf->data[i], base + i * 4)\<close>.\<close>

definition write_data ::
  "'w platform \<Rightarrow> nat \<Rightarrow> can_frame \<Rightarrow> u8 \<Rightarrow> 'w sys \<Rightarrow> 'w sys" where
  "write_data p base cf dlc s =
     fold (\<lambda>i. writel p (ucast (data cf ! i)) (CAN_BUF_ADDR (base + i))) [0..<unat dlc] s"

text \<open>Lines 280 to 301: the header, the identifier chunks and the data bytes.\<close>

definition xmit_write_frame :: "'w platform \<Rightarrow> can_frame \<Rightarrow> 'w sys \<Rightarrow> 'w sys" where
  "xmit_write_frame p cf s =
     (let dlc = can_dlc cf;
          id = can_id cf;
          temp = push_bit 6 (drop_bit 30 id) OR ucast dlc;
          s1 = writel p temp CAN_BUF0_ADDR s
      in if id AND CAN_EFF_FLAG \<noteq> 0 then
           (let s2 = writel p (0xFF AND drop_bit 21 id) CAN_BUF1_ADDR s1;
                s3 = writel p (0xFF AND drop_bit 13 id) CAN_BUF2_ADDR s2;
                s4 = writel p (0xFF AND drop_bit 5 id) CAN_BUF3_ADDR s3;
                s5 = writel p (push_bit 3 (id AND 0x1F)) CAN_BUF4_ADDR s4
            in write_data p 5 cf dlc s5)
         else
           (let s2 = writel p (0xFF AND drop_bit 3 id) CAN_BUF1_ADDR s1;
                s3 = writel p (push_bit 5 (id AND 0x7)) CAN_BUF2_ADDR s2
            in write_data p 3 cf dlc s3))"

datatype netdev_tx = NETDEV_TX_OK | NETDEV_TX_BUSY

definition sunxi_can_start_xmit ::
  "'w platform \<Rightarrow> sunxi_can_h \<Rightarrow> can_frame \<Rightarrow> 'w sys \<Rightarrow> (netdev_tx \<times> 'w sys) option" where
  "sunxi_can_start_xmit p h cf s =
     (case wait_tbuf_rdy p h s of
        None \<Rightarrow> None
      | Some s1 \<Rightarrow>
          let s2 = set_reset_mode p h s1;
              s3 = writel p 0xffffffff CAN_ACPM_ADDR s2;
              s4 = set_normal_mode p h s3;
              (dropped, s5) = can_dropped_invalid_skb cf s4
          in if dropped then Some (NETDEV_TX_OK, s5)
             else
               let s6 = netif_stop_queue s5;
                   s7 = xmit_write_frame p cf s6;
                   s8 = can_put_echo_skb cf s7
               in (case wait_tbuf_rdy p h s8 of
                     None \<Rightarrow> None
                   | Some s9 \<Rightarrow>
                       Some (NETDEV_TX_OK,
                             sunxi_can_write_cmdreg p (ucast (TRANS_REQ h)) s9)))"

text \<open>The loops \<^verbatim>\<open>for (i = 0; i < cf->can_dlc; i++) cf->data[i] = readl(base + i * 4)\<close>.\<close>

definition read_data ::
  "'w platform \<Rightarrow> nat \<Rightarrow> can_frame \<times> 'w sys \<Rightarrow> can_frame \<times> 'w sys" where
  "read_data p base cs =
     fold (\<lambda>i (cf, s).
             let (v, s') = readl p (CAN_BUF_ADDR (base + i)) s
             in (cf\<lparr>data := (data cf)[i := ucast v]\<rparr>, s'))
          [0..<unat (can_dlc (fst cs))] cs"

text \<open>
  Lines 326 to 355: the frame read from the buffer registers. The reads of one
  expression are taken from left to right.
\<close>

definition rx_read_frame :: "'w platform \<Rightarrow> can_frame \<Rightarrow> 'w sys \<Rightarrow> can_frame \<times> 'w sys" where
  "rx_read_frame p cf0 s =
     (let (v0, s1) = readl p CAN_BUF0_ADDR s;
          fi = (ucast v0 :: u8);
          cf = cf0\<lparr>can_dlc := get_can_dlc (fi AND 0x0F)\<rparr>
      in if drop_bit 7 fi \<noteq> 0 then
           (let (b1, s2) = readl p CAN_BUF1_ADDR s1;
                (b2, s3) = readl p CAN_BUF2_ADDR s2;
                (b3, s4) = readl p CAN_BUF3_ADDR s3;
                (b4, s5) = readl p CAN_BUF4_ADDR s4;
                id = push_bit 21 b1 OR push_bit 13 b2 OR push_bit 5 b3
                     OR (drop_bit 3 b4 AND 0x1f);
                id = id OR CAN_EFF_FLAG
            in if drop_bit 6 fi AND 0x1 \<noteq> 0
               then (cf\<lparr>can_id := id OR CAN_RTR_FLAG\<rparr>, s5)
               else (let (cf', s6) = read_data p 5 (cf, s5)
                     in (cf'\<lparr>can_id := id\<rparr>, s6)))
         else
           (let (b1, s2) = readl p CAN_BUF1_ADDR s1;
                (b2, s3) = readl p CAN_BUF2_ADDR s2;
                id = push_bit 3 b1 OR (drop_bit 5 b2 AND 0x7)
            in if drop_bit 6 fi AND 0x1 \<noteq> 0
               then (cf\<lparr>can_id := id OR CAN_RTR_FLAG\<rparr>, s3)
               else (let (cf', s4) = read_data p 3 (cf, s3)
                     in (cf'\<lparr>can_id := id\<rparr>, s4))))"

definition sunxi_can_rx :: "'w platform \<Rightarrow> sunxi_can_h \<Rightarrow> 'w sys \<Rightarrow> 'w sys" where
  "sunxi_can_rx p h s =
     (case alloc_can_skb p s of
        (None, s0) \<Rightarrow> s0
      | (Some cf0, s0) \<Rightarrow>
          let (cf, s1) = rx_read_frame p cf0 s0;
              s2 = sunxi_can_write_cmdreg p (ucast (RELEASE_RBUF h)) s1;
              s3 = netif_rx cf s2
          in on_dev (\<lambda>d. d\<lparr>stats := rx_bytes_update (\<lambda>b. b + ucast (can_dlc cf))
                                       (rx_packets_update inc (stats d))\<rparr>) s3)"

section \<open>Error state machine\<close>

text \<open>
  \<^verbatim>\<open>sunxi_can_err\<close> works on the local variable \<open>state\<close>, the error frame \<open>cf\<close> and the
  device; each block of the function is one step on that triple.
\<close>

type_synonym 'w err_ctx = "can_state \<times> can_frame \<times> 'w sys"

definition isrc_has :: "u8 \<Rightarrow> u32 \<Rightarrow> bool" where
  "isrc_has b m = ((ucast b :: u32) AND m \<noteq> 0)"

text \<open>The block \<^verbatim>\<open>if (isrc & DATA_ORUNI)\<close>.\<close>

definition err_data_overrun ::
  "'w platform \<Rightarrow> sunxi_can_h \<Rightarrow> u8 \<Rightarrow> 'w err_ctx \<Rightarrow> 'w err_ctx" where
  "err_data_overrun p h isrc c =
     (case c of (st, cf, s) \<Rightarrow>
        if isrc_has isrc (DATA_ORUNI h) then
          (st,
           cf\<lparr>can_id := can_id cf OR CAN_ERR_CRTL,
              data := (data cf)[1 := CAN_ERR_CRTL_RX_OVERFLOW]\<rparr>,
           sunxi_can_write_cmdreg p (ucast (CLEAR_DOVERRUN h))
             (on_dev (\<lambda>d. d\<lparr>stats := rx_errors_update inc
                                        (rx_over_errors_update inc (stats d))\<rparr>) s))
        else c)"

text \<open>The block \<^verbatim>\<open>if (isrc & ERR_WRN)\<close>.\<close>

definition err_warning ::
  "sunxi_can_h \<Rightarrow> u8 \<Rightarrow> u8 \<Rightarrow> 'w err_ctx \<Rightarrow> 'w err_ctx" where
  "err_warning h isrc status c =
     (case c of (st, cf, s) \<Rightarrow>
        if isrc_has isrc (ERR_WRN h) then
          if isrc_has status (BUS_OFF h)
          then (CAN_STATE_BUS_OFF, cf\<lparr>can_id := can_id cf OR CAN_ERR_BUSOFF\<rparr>, can_bus_off s)
          else if isrc_has status (ERR_STA h)
          then (CAN_STATE_ERROR_WARNING, cf, s)
          else (CAN_STATE_ERROR_ACTIVE, cf, s)
        else c)"

text \<open>The block \<^verbatim>\<open>if (isrc & BUS_ERR)\<close>; \<open>ecc\<close> is read from the status register.\<close>

definition err_bus_error ::
  "'w platform \<Rightarrow> sunxi_can_h \<Rightarrow> u8 \<Rightarrow> 'w err_ctx \<Rightarrow> 'w err_ctx" where
  "err_bus_error p h isrc c =
     (case c of (st, cf, s) \<Rightarrow>
        if isrc_has isrc (BUS_ERR h) then
          (let s1 = on_dev (\<lambda>d. d\<lparr>can_stats := bus_error_update inc (can_stats d),
                                   stats := rx_errors_update inc (stats d)\<rparr>) s;
               (ecc, s2) = readl p CAN_STA_ADDR s1;
               cf1 = cf\<lparr>can_id := can_id cf OR (CAN_ERR_PROT OR CAN_ERR_BUSERROR)\<rparr>;
               cf2 = (if ecc AND BIT_ERR h \<noteq> 0
                      then cf1\<lparr>data := (data cf1)[2 := data cf1 ! 2 OR CAN_ERR_PROT_BIT]\<rparr>
                      else if ecc AND FORM_ERR h \<noteq> 0
                      then cf1\<lparr>data := (data cf1)[2 := data cf1 ! 2 OR CAN_ERR_PROT_FORM]\<rparr>
                      else if ecc AND STUFF_ERR h \<noteq> 0
                      then cf1\<lparr>data := (data cf1)[2 := data cf1 ! 2 OR CAN_ERR_PROT_STUFF]\<rparr>
                      else cf1\<lparr>data := (data cf1)
                                  [2 := data cf1 ! 2 OR CAN_ERR_PROT_UNSPEC,
                                   3 := ucast (drop_bit 16 (ecc AND ERR_SEG_CODE h))]\<rparr>);
               cf3 = (if ecc AND ERR_DIR h = 0
                      then cf2\<lparr>data := (data cf2)[2 := data cf2 ! 2 OR CAN_ERR_PROT_TX]\<rparr>
                      else cf2)
           in (st, cf3, s2))
        else c)"

text \<open>The block \<^verbatim>\<open>if (isrc & ERR_PASSIVE)\<close>.\<close>

definition err_passive ::
  "sunxi_can_h \<Rightarrow> u8 \<Rightarrow> u8 \<Rightarrow> 'w err_ctx \<Rightarrow> 'w err_ctx" where
  "err_passive h isrc status c =
     (case c of (st, cf, s) \<Rightarrow>
        if isrc_has isrc (ERR_PASSIVE h) then
          if isrc_has status (ERR_STA h)
          then (CAN_STATE_ERROR_PASSIVE, cf, s)
          else (CAN_STATE_ERROR_ACTIVE, cf, s)
        else c)"

text \<open>The block \<^verbatim>\<open>if (isrc & ARB_LOST)\<close>; \<open>alc\<close> is read from the status register.\<close>

definition err_arb_lost ::
  "'w platform \<Rightarrow> sunxi_can_h \<Rightarrow> u8 \<Rightarrow> 'w err_ctx \<Rightarrow> 'w err_ctx" where
  "err_arb_lost p h isrc c =
     (case c of (st, cf, s) \<Rightarrow>
        if isrc_has isrc (ARB_LOST h) then
          (let (alc, s1) = readl p CAN_STA_ADDR s;
               s2 = on_dev (\<lambda>d. d\<lparr>can_stats := arbitration_lost_update inc (can_stats d),
                                   stats := tx_errors_update inc (stats d)\<rparr>) s1
           in (st,
               cf\<lparr>can_id := can_id cf OR CAN_ERR_LOSTARB,
                  data := (data cf)[0 := ucast (drop_bit 8 (alc AND 0x1f))]\<rparr>,
               s2))
        else c)"

text \<open>The block \<^verbatim>\<open>if (state != priv->can.state && ...)\<close>, with its two reads of the error counter.\<close>

definition errc_rxerr :: "u32 \<Rightarrow> u8" where
  "errc_rxerr v = ucast (drop_bit 16 v AND 0xFF)"

definition errc_txerr :: "u32 \<Rightarrow> u8" where
  "errc_txerr v = ucast (v AND 0xFF)"

definition err_state_change :: "'w platform \<Rightarrow> 'w err_ctx \<Rightarrow> 'w err_ctx" where
  "err_state_change p c =
     (case c of (st, cf, s) \<Rightarrow>
        if st \<noteq> state (snd s) \<and>
           (st = CAN_STATE_ERROR_WARNING \<or> st = CAN_STATE_ERROR_PASSIVE) then
          (let (v1, s1) = readl p CAN_ERRC_ADDR s;
               rx = errc_rxerr v1;
               (v2, s2) = readl p CAN_ERRC_ADDR s1;
               tx = errc_txerr v2;
               cf1 = cf\<lparr>can_id := can_id cf OR CAN_ERR_CRTL\<rparr>;
               (cf2, s3) =
                 (if st = CAN_STATE_ERROR_WARNING
                  then (cf1\<lparr>data := (data cf1)
                               [1 := (if rx < tx then CAN_ERR_CRTL_TX_WARNING
                                      else CAN_ERR_CRTL_RX_WARNING)]\<rparr>,
                        on_dev (\<lambda>d. d\<lparr>can_stats := error_warning_update inc (can_stats d)\<rparr>) s2)
                  else (cf1\<lparr>data := (data cf1)
                               [1 := (if rx < tx then CAN_ERR_CRTL_TX_PASSIVE
                                      else CAN_ERR_CRTL_RX_PASSIVE)]\<rparr>,
                        on_dev (\<lambda>d. d\<lparr>can_stats := error_passive_update inc (can_stats d)\<rparr>) s2))
           in (st, cf2\<lparr>data := (data cf2)[6 := tx, 7 := rx]\<rparr>, s3))
        else c)"

text \<open>The six blocks in the order of the source.\<close>

definition err_steps ::
  "'w platform \<Rightarrow> sunxi_can_h \<Rightarrow> u8 \<Rightarrow> u8 \<Rightarrow> 'w err_ctx \<Rightarrow> 'w err_ctx" where
  "err_steps p h isrc status c =
     err_state_change p
       (err_arb_lost p h isrc
         (err_passive h isrc status
           (err_bus_error p h isrc
             (err_warning h isrc status
               (err_data_overrun p h isrc c)))))"

definition sunxi_can_err ::
  "'w platform \<Rightarrow> sunxi_can_h \<Rightarrow> u8 \<Rightarrow> u8 \<Rightarrow> 'w sys \<Rightarrow> int \<times> 'w sys" where
  "sunxi_can_err p h isrc status s =
     (case alloc_can_err_skb p s of
        (None, s0) \<Rightarrow> (- ENOMEM, s0)
      | (Some cf0, s0) \<Rightarrow>
          (case err_steps p h isrc status (state (snd s0), cf0, s0) of
             (st, cf, s1) \<Rightarrow>
               (0, on_dev (\<lambda>d. d\<lparr>stats := rx_bytes_update (\<lambda>b. b + ucast (can_dlc cf))
                                            (rx_packets_update inc (stats d))\<rparr>)
                     (netif_rx cf (on_dev (\<lambda>d. d\<lparr>state := st\<rparr>) s1)))))"

section \<open>Interrupt dispatcher\<close>

datatype irqreturn = IRQ_NONE | IRQ_HANDLED

text \<open>
  The inner loop \<^verbatim>\<open>while (status & RBUF_RDY)\<close> has no bound: it ends when the status
  register shows the receive buffer empty or the controller absent, and not otherwise.
  The result is the flag of the early \<^verbatim>\<open>return IRQ_NONE\<close> and the last status read.
\<close>

partial_function (option) rx_drain ::
  "'w platform \<Rightarrow> sunxi_can_h \<Rightarrow> u8 \<Rightarrow> 'w sys \<Rightarrow> (bool \<times> u8 \<times> 'w sys) option" where
  "rx_drain p h status s =
     (if isrc_has status (RBUF_RDY h) then
        (let s1 = sunxi_can_rx p h s;
             (v, s2) = readl p CAN_STA_ADDR s1;
             (absent, s3) = sunxi_can_is_absent p s2
         in if absent then Some (True, ucast v, s3)
            else rx_drain p h (ucast v) s3)
      else Some (False, status, s))"

text \<open>How one pass through the body of the dispatch loop ends.\<close>

datatype 's irq_step = Irq_return irqreturn 's | Irq_break 's | Irq_continue 's

definition irq_tx_done :: "'w platform \<Rightarrow> 'w sys \<Rightarrow> 'w sys" where
  "irq_tx_done p s =
     (let (v, s1) = readl p CAN_RBUF_RBACK_START_ADDR s;
          s2 = on_dev (\<lambda>d. d\<lparr>stats := tx_packets_update inc
                                      (tx_bytes_update (\<lambda>b. b + (v AND 0xf)) (stats d))\<rparr>) s1
      in netif_wake_queue (can_get_echo_skb s2))"

definition irq_ack :: "'w platform \<Rightarrow> u8 \<Rightarrow> 'w sys \<Rightarrow> 'w sys" where
  "irq_ack p isrc s = snd (readl p CAN_INT_ADDR (writel p (ucast isrc) CAN_INT_ADDR s))"

definition irq_body ::
  "'w platform \<Rightarrow> sunxi_can_h \<Rightarrow> u8 \<Rightarrow> 'w sys \<Rightarrow> 'w sys irq_step option" where
  "irq_body p h isrc s =
     (let (v, s1) = readl p CAN_STA_ADDR s;
          (absent, s2) = sunxi_can_is_absent p s1
      in if absent then Some (Irq_return IRQ_NONE s2)
         else
           let s3 = (if isrc_has isrc (WAKEUP h)
                     then printk (Kmsg ''wakeup interrupt'') s2 else s2);
               s4 = (if isrc_has isrc (TBUF_VLD h) then irq_tx_done p s3 else s3)
           in (case (if isrc_has isrc (RBUF_VLD h) then rx_drain p h (ucast v) s4
                     else Some (False, ucast v, s4)) of
                 None \<Rightarrow> None
               | Some (gone, status, s5) \<Rightarrow>
                   if gone then Some (Irq_return IRQ_NONE s5)
                   else if isrc_has isrc (DATA_ORUNI h OR ERR_WRN h OR BUS_ERR h
                                          OR ERR_PASSIVE h OR ARB_LOST h) then
                     (let (rc, s6) = sunxi_can_err p h isrc status s5
                      in if rc \<noteq> 0 then Some (Irq_break s6)
                         else Some (Irq_continue (irq_ack p isrc s6)))
                   else Some (Irq_continue (irq_ack p isrc s5))))"

text \<open>
  The loop \<^verbatim>\<open>while ((isrc = readl(CAN_INT_ADDR)) && (n < SUNXI_CAN_MAX_IRQ))\<close>. The result
  is the value of an early \<^verbatim>\<open>return\<close>, if any, the counter \<open>n\<close> on leaving the loop, and
  the state.
\<close>

function irq_loop ::
  "'w platform \<Rightarrow> sunxi_can_h \<Rightarrow> nat \<Rightarrow> 'w sys \<Rightarrow> (irqreturn option \<times> nat \<times> 'w sys) option" where
  "irq_loop p h n s =
     (if (ucast (fst (readl p CAN_INT_ADDR s)) :: u8) \<noteq> 0 \<and> n < SUNXI_CAN_MAX_IRQ then
        (case irq_body p h (ucast (fst (readl p CAN_INT_ADDR s)))
                (snd (readl p CAN_INT_ADDR s)) of
           None \<Rightarrow> None
         | Some (Irq_return r s2) \<Rightarrow> Some (Some r, n + 1, s2)
         | Some (Irq_break s2) \<Rightarrow> Some (None, n + 1, s2)
         | Some (Irq_continue s2) \<Rightarrow> irq_loop p h (n + 1) s2)
      else Some (None, n, snd (readl p CAN_INT_ADDR s)))"
  by pat_completeness auto
termination
  by (relation "measure (\<lambda>(p, h, n, s). SUNXI_CAN_MAX_IRQ - n)") auto

text \<open>
  After the loop the handler prints a debug line if the bound was reached, which is not
  logged, and returns \<^verbatim>\<open>(n) ? IRQ_HANDLED : IRQ_NONE\<close>.
\<close>

definition sunxi_can_interrupt ::
  "'w platform \<Rightarrow> sunxi_can_h \<Rightarrow> 'w sys \<Rightarrow> (irqreturn \<times> 'w sys) option" where
  "sunxi_can_interrupt p h s =
     (case irq_loop p h 0 s of
        None \<Rightarrow> None
      | Some (Some r, n, s1) \<Rightarrow> Some (r, s1)
      | Some (None, n, s1) \<Rightarrow> Some (if n \<noteq> 0 then IRQ_HANDLED else IRQ_NONE, s1))"

section \<open>Platforms and observations\<close>

text \<open>
  Two platforms to run the driver on. \<open>stuck_hw regs ok\<close> is hardware whose registers
  always read \<open>regs\<close> whatever is written, with an allocator that always answers \<open>ok\<close>;
  \<open>ram\<close> is a register file that reads back what was last written, with an allocator
  that never fails.
\<close>

definition stuck_hw :: "(reg \<Rightarrow> u32) \<Rightarrow> bool \<Rightarrow> unit platform" where
  "stuck_hw regs ok =
     \<lparr>hw_readl = (\<lambda>r w. (regs r, w)),
      hw_writel = (\<lambda>v r w. w),
      hw_udelay = (\<lambda>us w. w),
      k_alloc_can_skb = (\<lambda>w. (ok, w)),
      k_alloc_can_err_skb = (\<lambda>w. (ok, w))\<rparr>"

definition ram :: "(reg \<Rightarrow> u32) platform" where
  "ram =
     \<lparr>hw_readl = (\<lambda>r m. (m r, m)),
      hw_writel = (\<lambda>v r m. m(r := v)),
      hw_udelay = (\<lambda>us m. m),
      k_alloc_can_skb = (\<lambda>m. (True, m)),
      k_alloc_can_err_skb = (\<lambda>m. (True, m))\<rparr>"

text \<open>
  One assignment of the header's masks, to run the functions on concrete inputs: one bit
  per flag, the interrupt and status flags within the low byte that the handler keeps of
  them, the segment code above bit 16 where \<^verbatim>\<open>sunxi_can_err\<close> shifts it from.
\<close>

definition example_h :: sunxi_can_h where
  "example_h =
     \<lparr>RESET_MODE = 0x01, LOOPBACK_MODE = 0x04, LISTEN_ONLY_MODE = 0x02,
      BERR_IRQ_EN = 0x80,
      TRANS_REQ = 0x01, RELEASE_RBUF = 0x04, CLEAR_DOVERRUN = 0x08,
      TBUF_RDY = 0x04, RBUF_RDY = 0x01, BUS_OFF = 0x80, ERR_STA = 0x40,
      BIT_ERR = 0x400000, FORM_ERR = 0x800000, STUFF_ERR = 0x1000000,
      ERR_DIR = 0x200000, ERR_SEG_CODE = 0x1F0000,
      BUS_ERR = 0x80, ARB_LOST = 0x40, ERR_PASSIVE = 0x20, WAKEUP = 0x10,
      DATA_ORUNI = 0x08, ERR_WRN = 0x04, TBUF_VLD = 0x02, RBUF_VLD = 0x01\<rparr>"

definition idle_dev :: net_device where
  "idle_dev =
     \<lparr>state = CAN_STATE_ERROR_ACTIVE, ctrlmode = 0,
      bittiming = \<lparr>brp = 8, sjw = 2, prop_seg = 3, phase_seg1 = 7, phase_seg2 = 4\<rparr>,
      can_stats = \<lparr>bus_error = 0, error_warning = 0, error_passive = 0, bus_off = 0,
                   arbitration_lost = 0\<rparr>,
      stats = \<lparr>rx_packets = 0, tx_packets = 0, rx_bytes = 0, tx_bytes = 0, rx_errors = 0,
               tx_errors = 0, tx_dropped = 0, rx_over_errors = 0\<rparr>,
      netif_rx_queue = [], carrier_ok = True, queue_stopped = False, echo_skb = None,
      klog = [], io_log = []\<rparr>"

text \<open>The values written to register \<open>r\<close>, in order.\<close>

definition writes_to :: "reg \<Rightarrow> io_event list \<Rightarrow> u32 list" where
  "writes_to r evs =
     concat (map (\<lambda>e. case e of Writel v r' \<Rightarrow> if r' = r then [v] else [] | _ \<Rightarrow> []) evs)"

text \<open>
  One poll of the mode-select register as \<^verbatim>\<open>set_reset_mode\<close> and \<^verbatim>\<open>set_normal_mode\<close> do it:
  read the register, write it back with the reset bit set (cleared), wait 10
  microseconds, read the status again.
\<close>

definition reset_poll :: "sunxi_can_h \<Rightarrow> u32 \<times> u32 \<Rightarrow> io_event list" where
  "reset_poll h ab =
     [Readl CAN_MSEL_ADDR (fst ab), Writel (fst ab OR RESET_MODE h) CAN_MSEL_ADDR,
      Udelay 10, Readl CAN_MSEL_ADDR (snd ab)]"

definition normal_poll :: "sunxi_can_h \<Rightarrow> u32 \<times> u32 \<Rightarrow> io_event list" where
  "normal_poll h ab =
     [Readl CAN_MSEL_ADDR (fst ab), Writel (fst ab AND NOT (RESET_MODE h)) CAN_MSEL_ADDR,
      Udelay 10, Readl CAN_MSEL_ADDR (snd ab)]"

text \<open>
  The layout of the bit-timing register as the specification words it: four masked
  fields at bits 0, 14, 16 and 20.
\<close>

definition btime_layout :: "u32 \<Rightarrow> u32 \<Rightarrow> u32 \<Rightarrow> u32 \<Rightarrow> u32" where
  "btime_layout a b c d =
     (a AND mask 10) OR push_bit 14 (b AND mask 2) OR push_bit 16 (c AND mask 4)
     OR push_bit 20 (d AND mask 3)"

text \<open>
  The logical CAN frame of the specification as a \<^verbatim>\<open>struct can_frame\<close>: the identifier
  with the extended-format flag in bit 31 and the remote-request flag in bit 30.
\<close>

definition logical_frame :: "u32 \<Rightarrow> bool \<Rightarrow> bool \<Rightarrow> u8 \<Rightarrow> u8 list \<Rightarrow> can_frame" where
  "logical_frame idv eff rtr dlc bytes =
     \<lparr>can_id = idv OR (if eff then CAN_EFF_FLAG else 0) OR (if rtr then CAN_RTR_FLAG else 0),
      can_dlc = dlc, data = bytes\<rparr>"

text \<open>The header word of the transmit path as the byte \<open>fi\<close> that the receive path reads back.\<close>

definition hdr :: "u32 \<Rightarrow> u8 \<Rightarrow> u8" where
  "hdr cid dlc = ucast (push_bit 6 (drop_bit 30 cid) OR (ucast dlc :: u32))"

text \<open>
  The diagnostic frame that \<^verbatim>\<open>sunxi_can_err\<close> hands to \<^verbatim>\<open>netif_rx\<close>, and the hardware
  state in which the bus-error block reads the status register into \<open>ecc\<close>: after the
  allocation and, on a data overrun, after the command that clears it.
\<close>

definition err_frame ::
  "'w platform \<Rightarrow> sunxi_can_h \<Rightarrow> u8 \<Rightarrow> u8 \<Rightarrow> 'w sys \<Rightarrow> can_frame" where
  "err_frame p h isrc status s =
     last (netif_rx_queue (snd (snd (sunxi_can_err p h isrc status s))))"

definition hw_at_ecc :: "'w platform \<Rightarrow> sunxi_can_h \<Rightarrow> u8 \<Rightarrow> 'w \<Rightarrow> 'w" where
  "hw_at_ecc p h isrc w =
     (let w0 = snd (k_alloc_can_err_skb p w)
      in if isrc_has isrc (DATA_ORUNI h)
         then hw_writel p (ucast (ucast (CLEAR_DOVERRUN h) :: u8)) CAN_CMD_ADDR w0
         else w0)"

text \<open>
  The triple on which the blocks of \<^verbatim>\<open>sunxi_can_err\<close> start once the frame is allocated,
  and the hardware state in which the error counter is read: after the reads of the
  status register that the bus-error and arbitration-lost blocks make.
\<close>

definition err_ctx0 :: "'w platform \<Rightarrow> 'w sys \<Rightarrow> 'w err_ctx" where
  "err_ctx0 p s =
     (state (snd s), zero_frame\<lparr>can_id := CAN_ERR_FLAG, can_dlc := CAN_ERR_DLC\<rparr>,
      (snd (k_alloc_can_err_skb p (fst s)), snd s))"

definition hw_at_errc :: "'w platform \<Rightarrow> sunxi_can_h \<Rightarrow> u8 \<Rightarrow> 'w \<Rightarrow> 'w" where
  "hw_at_errc p h isrc w =
     (let w1 = hw_at_ecc p h isrc w;
          w2 = (if isrc_has isrc (BUS_ERR h) then snd (hw_readl p CAN_STA_ADDR w1) else w1)
      in if isrc_has isrc (ARB_LOST h) then snd (hw_readl p CAN_STA_ADDR w2) else w2)"

text \<open>A device that is already bus-off, with one bus-off notification counted.\<close>

definition busoff_dev :: net_device where
  "busoff_dev =
     idle_dev\<lparr>state := CAN_STATE_BUS_OFF, carrier_ok := False,
              can_stats := \<lparr>bus_error = 0, error_warning = 0, error_passive = 0, bus_off = 1,
                            arbitration_lost = 0\<rparr>\<rparr>"

text \<open>
  Registers of a controller that keeps signalling an error warning, and of one that is
  idle (every register reads zero).
\<close>

definition err_wrn_regs :: "reg \<Rightarrow> u32" where
  "err_wrn_regs r = (if r = CAN_INT_ADDR then 0x04 else 0)"

definition idle_regs :: "reg \<Rightarrow> u32" where
  "idle_regs r = 0"

text \<open>
  Registers of a controller whose receive interrupt and buffer-ready flag never clear,
  and of one whose interrupt register reads nonzero above its low byte only.
\<close>

definition rx_full_regs :: "reg \<Rightarrow> u32" where
  "rx_full_regs r = (if r = CAN_INT_ADDR \<or> r = CAN_STA_ADDR then 0x01 else 0)"

definition high_irq_regs :: "reg \<Rightarrow> u32" where
  "high_irq_regs r = (if r = CAN_INT_ADDR then 0x100 else 0)"

text \<open>
  A controller with a receive buffer: \<open>pending\<close> frames wait in it, the status register
  shows \<open>RBUF_RDY\<close> while one does, and the release command takes one out. The interrupt
  register holds \<open>irq\<close> until its bits are written back. The first \<open>failing\<close> allocations
  of a receive frame fail; \<open>allocs\<close> counts the allocations tried.
\<close>

record rxdev =
  pending :: nat
  failing :: nat
  allocs :: nat
  irq :: u32

definition rx_device :: "sunxi_can_h \<Rightarrow> rxdev platform" where
  "rx_device h =
     \<lparr>hw_readl = (\<lambda>r w. ((case r of
                               CAN_STA_ADDR \<Rightarrow> if 0 < pending w then RBUF_RDY h else 0
                             | CAN_INT_ADDR \<Rightarrow> irq w
                             | _ \<Rightarrow> 0), w)),
      hw_writel = (\<lambda>v r w. case r of
                               CAN_CMD_ADDR \<Rightarrow>
                                 if v AND RELEASE_RBUF h \<noteq> 0
                                 then w\<lparr>pending := pending w - 1\<rparr> else w
                             | CAN_INT_ADDR \<Rightarrow> w\<lparr>irq := irq w AND NOT v\<rparr>
                             | _ \<Rightarrow> w),
      hw_udelay = (\<lambda>us w. w),
      k_alloc_can_skb = (\<lambda>w. (failing w = 0,
                                  w\<lparr>failing := failing w - 1, allocs := allocs w + 1\<rparr>)),
      k_alloc_can_err_skb = (\<lambda>w. (True, w))\<rparr>"

text \<open>
  One pass of the receive loop of the interrupt handler: the call of \<^verbatim>\<open>sunxi_can_rx\<close>,
  the read of the status register and the check that the controller is present. The
  result is the status read and the state after the pass. The receive buffer drains
  under a measure \<open>m\<close> of the hardware state, such as the number of frames waiting in
  the buffer, when every pass that leaves the buffer ready has made \<open>m\<close> smaller.
\<close>

definition rx_pass :: "'w platform \<Rightarrow> sunxi_can_h \<Rightarrow> 'w sys \<Rightarrow> u8 \<times> 'w sys" where
  "rx_pass p h s =
     (let s1 = sunxi_can_rx p h s;
          (v, s2) = readl p CAN_STA_ADDR s1;
          (absent, s3) = sunxi_can_is_absent p s2
      in (ucast v, s3))"

definition rx_buffer_drains :: "'w platform \<Rightarrow> sunxi_can_h \<Rightarrow> ('w \<Rightarrow> nat) \<Rightarrow> bool" where
  "rx_buffer_drains p h m \<longleftrightarrow>
     (\<forall>s. isrc_has (fst (rx_pass p h s)) (RBUF_RDY h) \<longrightarrow>
          m (fst (snd (rx_pass p h s))) < m (fst s))"

section \<open>Basic facts\<close>

declare set_reset_mode_loop.simps [simp del] set_normal_mode_loop.simps [simp del]

lemma readl_simps [simp]:
  "fst (readl p r s) = fst (hw_readl p r (fst s))"
  "fst (snd (readl p r s)) = snd (hw_readl p r (fst s))"
  "snd (snd (readl p r s)) =
     (snd s)\<lparr>io_log := io_log (snd s) @ [Readl r (fst (hw_readl p r (fst s)))]\<rparr>"
  by (simp_all add: readl_def split: prod.splits)

lemma writel_simps [simp]:
  "fst (writel p v r s) = hw_writel p v r (fst s)"
  "snd (writel p v r s) = (snd s)\<lparr>io_log := io_log (snd s) @ [Writel v r]\<rparr>"
  by (simp_all add: writel_def)

lemma udelay_simps [simp]:
  "fst (udelay p n s) = hw_udelay p n (fst s)"
  "snd (udelay p n s) = (snd s)\<lparr>io_log := io_log (snd s) @ [Udelay n]\<rparr>"
  by (simp_all add: udelay_def)

lemma printk_simps [simp]:
  "fst (printk m s) = fst s"
  "snd (printk m s) = (snd s)\<lparr>klog := klog (snd s) @ [m]\<rparr>"
  by (simp_all add: printk_def)

lemma on_dev_simps [simp]:
  "fst (on_dev f s) = fst s"
  "snd (on_dev f s) = f (snd s)"
  by (simp_all add: on_dev_def)

lemma writes_to_simps [simp]:
  "writes_to r [] = []"
  "writes_to r (xs @ ys) = writes_to r xs @ writes_to r ys"
  "writes_to r (Readl r' v # xs) = writes_to r xs"
  "writes_to r (Udelay n # xs) = writes_to r xs"
  "writes_to r (Writel v r' # xs) = (if r' = r then v # writes_to r xs else writes_to r xs)"
  by (simp_all add: writes_to_def)

lemma mask_consts:
  "(0x3FF::u32) = mask 10" "(3::u32) = mask 2" "(0xF::u32) = mask 4" "(7::u32) = mask 3"
  "(0xFF::u32) = mask 8" "(0x1F::u32) = mask 5"
  by (simp_all add: mask_eq_exp_minus_1)

section \<open>Bit timing\<close>

lemma bit23: "bit (0x800000::u32) n \<longleftrightarrow> n = 23"
proof -
  have "(0x800000::u32) = push_bit 23 1" by simp
  then show ?thesis by (simp only: bit_simps) (auto simp: bit_simps)
qed

lemma btime_layout_bits:
  fixes t :: u32
  assumes t: "\<And>n. bit t n \<longleftrightarrow> n = 23"
  shows "btime_layout a b c d AND mask 10 = a AND mask 10"
    and "(btime_layout a b c d OR t) AND mask 10 = a AND mask 10"
    and "drop_bit 14 (btime_layout a b c d) AND mask 2 = b AND mask 2"
    and "drop_bit 14 (btime_layout a b c d OR t) AND mask 2 = b AND mask 2"
    and "drop_bit 16 (btime_layout a b c d) AND mask 4 = c AND mask 4"
    and "drop_bit 16 (btime_layout a b c d OR t) AND mask 4 = c AND mask 4"
    and "drop_bit 20 (btime_layout a b c d) AND mask 3 = d AND mask 3"
    and "drop_bit 20 (btime_layout a b c d OR t) AND mask 3 = d AND mask 3"
    and "(btime_layout a b c d OR t) AND NOT t = btime_layout a b c d"
    and "btime_layout a b c d AND NOT t = btime_layout a b c d"
    and "\<not> bit (btime_layout a b c d) 23"
    and "bit (btime_layout a b c d OR t) 23"
  unfolding btime_layout_def
  by (rule bit_word_eqI; auto simp: bit_simps t)+ (auto simp: bit_simps t)

lemma bittiming_cfg_layout:
  "bittiming_cfg bt cm =
     (if cm AND CAN_CTRLMODE_3_SAMPLES \<noteq> 0
      then btime_layout (brp bt - 1) (sjw bt - 1) (prop_seg bt + phase_seg1 bt - 1)
             (phase_seg2 bt - 1) OR 0x800000
      else btime_layout (brp bt - 1) (sjw bt - 1) (prop_seg bt + phase_seg1 bt - 1)
             (phase_seg2 bt - 1))"
  unfolding bittiming_cfg_def Let_def btime_layout_def mask_consts ..

lemma bittiming_cfg_fields:
  "bittiming_cfg bt cm AND 0x3FF = (brp bt - 1) AND 0x3FF"
  "drop_bit 14 (bittiming_cfg bt cm) AND 0x3 = (sjw bt - 1) AND 0x3"
  "drop_bit 16 (bittiming_cfg bt cm) AND 0xF = (prop_seg bt + phase_seg1 bt - 1) AND 0xF"
  "drop_bit 20 (bittiming_cfg bt cm) AND 0x7 = (phase_seg2 bt - 1) AND 0x7"
  "bit (bittiming_cfg bt cm) 23 \<longleftrightarrow> cm AND CAN_CTRLMODE_3_SAMPLES \<noteq> 0"
  unfolding bittiming_cfg_layout mask_consts
  by (simp_all only: btime_layout_bits [OF bit23] if_distrib [of "\<lambda>x. x AND _"]
        if_distrib [of "\<lambda>x. drop_bit _ x"] if_distrib [of "\<lambda>x. bit x _"]
        if_cancel if_bool_eq_conj, simp_all)

lemma reset_loop_btime:
  "i + k = 100 \<Longrightarrow>
   writes_to CAN_BTIME_ADDR (io_log (snd (set_reset_mode_loop p h i status s))) =
   writes_to CAN_BTIME_ADDR (io_log (snd s))"
proof (induction k arbitrary: i status s)
  case 0
  then show ?case by (subst set_reset_mode_loop.simps) simp
next
  case (Suc k)
  then have "Suc i + k = 100" by simp
  note IH = Suc.IH [OF this]
  show ?case
    by (subst set_reset_mode_loop.simps) (simp add: Let_def split_beta IH)
qed

lemma set_reset_mode_btime:
  "writes_to CAN_BTIME_ADDR (io_log (snd (set_reset_mode p h s))) =
   writes_to CAN_BTIME_ADDR (io_log (snd s))"
  by (simp add: set_reset_mode_def split_beta reset_loop_btime [of 0 100])

lemma normal_done_btime:
  "writes_to CAN_BTIME_ADDR (io_log (snd (set_normal_mode_done p h s))) =
   writes_to CAN_BTIME_ADDR (io_log (snd s))"
  by (simp add: set_normal_mode_done_def Let_def split_beta)

lemma normal_loop_btime:
  "i + k = 100 \<Longrightarrow>
   writes_to CAN_BTIME_ADDR (io_log (snd (set_normal_mode_loop p h i status s))) =
   writes_to CAN_BTIME_ADDR (io_log (snd s))"
proof (induction k arbitrary: i status s)
  case 0
  then show ?case by (subst set_normal_mode_loop.simps) simp
next
  case (Suc k)
  then have "Suc i + k = 100" by simp
  note IH = Suc.IH [OF this]
  show ?case
    by (subst set_normal_mode_loop.simps) (simp add: Let_def split_beta IH normal_done_btime)
qed

lemma set_normal_mode_btime:
  "writes_to CAN_BTIME_ADDR (io_log (snd (set_normal_mode p h s))) =
   writes_to CAN_BTIME_ADDR (io_log (snd s))"
  by (simp add: set_normal_mode_def split_beta normal_loop_btime [of 0 100])

lemma set_bittiming_write:
  "writes_to CAN_BTIME_ADDR (io_log (snd (snd (sunxi_can_set_bittiming p h s)))) =
   writes_to CAN_BTIME_ADDR (io_log (snd s)) @
     [bittiming_cfg (bittiming (snd s)) (ctrlmode (snd s))]"
  by (simp add: sunxi_can_set_bittiming_def Let_def set_normal_mode_btime set_reset_mode_btime)

text \<open>
  Claim C2. For every bit timing and control mode, \<^verbatim>\<open>sunxi_can_set_bittiming\<close> writes one
  value to the bit-timing register, and that value is \<open>(brp - 1) & 0x3FF\<close> in the low
  field, \<open>(sjw - 1) & 0x3\<close> at bits 14 to 15, \<open>(prop_seg + phase_seg1 - 1) & 0xF\<close> at bits
  16 to 19, \<open>(phase_seg2 - 1) & 0x7\<close> at bits 20 to 22, with bit 23 set exactly when triple
  sampling is requested. Each field read back through its mask is the masked input;
  \<open>brp = 8\<close>, \<open>sjw = 2\<close>, \<open>prop_seg + phase_seg1 = 10\<close>, \<open>phase_seg2 = 4\<close> without triple
  sampling give the fields 7, 1, 9, 3 and bit 23 clear.
\<close>

theorem bittiming_encoding:
  "writes_to CAN_BTIME_ADDR (io_log (snd (snd (sunxi_can_set_bittiming p h s)))) =
     writes_to CAN_BTIME_ADDR (io_log (snd s)) @
       [bittiming_cfg (bittiming (snd s)) (ctrlmode (snd s))] \<and>
   bittiming_cfg bt cm AND NOT 0x800000 =
     btime_layout (brp bt - 1) (sjw bt - 1) (prop_seg bt + phase_seg1 bt - 1)
       (phase_seg2 bt - 1) \<and>
   (bit (bittiming_cfg bt cm) 23 \<longleftrightarrow> cm AND CAN_CTRLMODE_3_SAMPLES \<noteq> 0) \<and>
   bittiming_cfg bt cm AND 0x3FF = (brp bt - 1) AND 0x3FF \<and>
   drop_bit 14 (bittiming_cfg bt cm) AND 0x3 = (sjw bt - 1) AND 0x3 \<and>
   drop_bit 16 (bittiming_cfg bt cm) AND 0xF = (prop_seg bt + phase_seg1 bt - 1) AND 0xF \<and>
   drop_bit 20 (bittiming_cfg bt cm) AND 0x7 = (phase_seg2 bt - 1) AND 0x7 \<and>
   bittiming_cfg \<lparr>brp = 8, sjw = 2, prop_seg = 3, phase_seg1 = 7, phase_seg2 = 4\<rparr> 0
     = 0x394007 \<and>
   (0x394007 :: u32) AND 0x3FF = 7 \<and> drop_bit 14 (0x394007 :: u32) AND 0x3 = 1 \<and>
   drop_bit 16 (0x394007 :: u32) AND 0xF = 9 \<and> drop_bit 20 (0x394007 :: u32) AND 0x7 = 3 \<and>
   \<not> bit (0x394007 :: u32) 23"
proof -
  let ?l = "btime_layout (brp bt - 1) (sjw bt - 1) (prop_seg bt + phase_seg1 bt - 1)
              (phase_seg2 bt - 1)"
  have layout: "bittiming_cfg bt cm AND NOT 0x800000 = ?l"
    by (simp only: bittiming_cfg_layout btime_layout_bits(9,10) [OF bit23]
          if_distrib [of "\<lambda>x. x AND _"] if_cancel)
  have ex: "bittiming_cfg \<lparr>brp = 8, sjw = 2, prop_seg = 3, phase_seg1 = 7, phase_seg2 = 4\<rparr> 0
     = 0x394007"
    by (simp add: bittiming_cfg_def CAN_CTRLMODE_3_SAMPLES_def)
  have nb: "\<not> bit (0x394007 :: u32) 23"
    using bittiming_cfg_fields(5)
      [of "\<lparr>brp = 8, sjw = 2, prop_seg = 3, phase_seg1 = 7, phase_seg2 = 4\<rparr>" 0]
    by (simp only: ex) simp
  have vals: "(0x394007 :: u32) AND 0x3FF = 7" "drop_bit 14 (0x394007 :: u32) AND 0x3 = 1"
    "drop_bit 16 (0x394007 :: u32) AND 0xF = 9" "drop_bit 20 (0x394007 :: u32) AND 0x7 = 3"
    by simp_all
  show ?thesis
    using set_bittiming_write [of p h s] layout bittiming_cfg_fields [of bt cm] ex nb vals
    by (intro conjI) assumption+
qed

section \<open>Mode transitions that time out\<close>

lemma reset_loop_timeout:
  assumes never: "\<And>w. fst (hw_readl p CAN_MSEL_ADDR w) AND RESET_MODE h = 0"
  shows "i + k = 100 \<Longrightarrow> status AND RESET_MODE h = 0 \<Longrightarrow>
     \<exists>vs. length vs = k \<and>
       snd (set_reset_mode_loop p h i status s) =
         (snd s)\<lparr>io_log := io_log (snd s) @ concat (map (reset_poll h) vs),
                 klog := klog (snd s) @ [Kmsg ''setting SUNXI_CAN into reset mode failed!'']\<rparr>"
proof (induction k arbitrary: i status s)
  case 0
  then show ?case
    by (subst set_reset_mode_loop.simps) simp
next
  case (Suc k)
  define v where "v = fst (hw_readl p CAN_MSEL_ADDR (fst s))"
  define s1 where "s1 = snd (readl p CAN_MSEL_ADDR s)"
  define s3 where "s3 = udelay p 10 (writel p (v OR RESET_MODE h) CAN_MSEL_ADDR s1)"
  define st' where "st' = fst (hw_readl p CAN_MSEL_ADDR (fst s3))"
  define s4 where "s4 = snd (readl p CAN_MSEL_ADDR s3)"
  have st': "st' AND RESET_MODE h = 0"
    unfolding st'_def by (rule never)
  have step: "set_reset_mode_loop p h i status s = set_reset_mode_loop p h (Suc i) st' s4"
    using Suc.prems
    by (subst set_reset_mode_loop.simps)
       (simp add: Let_def split_beta v_def s1_def s3_def st'_def s4_def)
  have s4: "snd s4 = (snd s)\<lparr>io_log := io_log (snd s) @ reset_poll h (v, st')\<rparr>"
    by (simp add: s4_def s3_def s1_def st'_def v_def reset_poll_def)
  from Suc.IH [of "Suc i" st' s4] Suc.prems st'
  obtain vs where vs: "length vs = k"
      "snd (set_reset_mode_loop p h (Suc i) st' s4) =
         (snd s4)\<lparr>io_log := io_log (snd s4) @ concat (map (reset_poll h) vs),
                 klog := klog (snd s4) @ [Kmsg ''setting SUNXI_CAN into reset mode failed!'']\<rparr>"
    by auto
  show ?case
    by (rule exI [of _ "(v, st') # vs"]) (simp add: step vs s4)
qed

lemma set_reset_mode_timeout:
  assumes never: "\<And>w. fst (hw_readl p CAN_MSEL_ADDR w) AND RESET_MODE h = 0"
  shows "\<exists>v0 vs. length vs = 100 \<and>
       snd (set_reset_mode p h s) =
         (snd s)\<lparr>io_log := io_log (snd s) @ Readl CAN_MSEL_ADDR v0 # concat (map (reset_poll h) vs),
                 klog := klog (snd s) @ [Kmsg ''setting SUNXI_CAN into reset mode failed!'']\<rparr>"
proof -
  define v0 where "v0 = fst (hw_readl p CAN_MSEL_ADDR (fst s))"
  define s1 where "s1 = snd (readl p CAN_MSEL_ADDR s)"
  have eq: "set_reset_mode p h s = set_reset_mode_loop p h 0 v0 s1"
    by (simp add: set_reset_mode_def split_beta v0_def s1_def)
  have "v0 AND RESET_MODE h = 0" unfolding v0_def by (rule never)
  from reset_loop_timeout [OF never, of 0 100 v0 s1, OF _ this]
  obtain vs where "length vs = 100"
    "snd (set_reset_mode_loop p h 0 v0 s1) =
         (snd s1)\<lparr>io_log := io_log (snd s1) @ concat (map (reset_poll h) vs),
                 klog := klog (snd s1) @ [Kmsg ''setting SUNXI_CAN into reset mode failed!'']\<rparr>"
    by auto
  then show ?thesis
    by (intro exI [of _ v0] exI [of _ vs]) (simp add: eq s1_def v0_def)
qed


lemma normal_loop_timeout:
  assumes never: "\<And>w. (ucast (ucast (fst (hw_readl p CAN_MSEL_ADDR w)) :: u8) :: u32) AND RESET_MODE h \<noteq> 0"
  shows "i + k = 100 \<Longrightarrow> (ucast status :: u32) AND RESET_MODE h \<noteq> 0 \<Longrightarrow>
     \<exists>vs. length vs = k \<and>
       snd (set_normal_mode_loop p h i status s) =
         (snd s)\<lparr>io_log := io_log (snd s) @ concat (map (normal_poll h) vs),
                 klog := klog (snd s) @ [Kmsg ''setting SUNXI_CAN into normal mode failed!'']\<rparr>"
proof (induction k arbitrary: i status s)
  case 0
  then show ?case
    by (subst set_normal_mode_loop.simps) simp
next
  case (Suc k)
  define v where "v = fst (hw_readl p CAN_MSEL_ADDR (fst s))"
  define s1 where "s1 = snd (readl p CAN_MSEL_ADDR s)"
  define s3 where "s3 = udelay p 10 (writel p (v AND NOT (RESET_MODE h)) CAN_MSEL_ADDR s1)"
  define v' where "v' = fst (hw_readl p CAN_MSEL_ADDR (fst s3))"
  define s4 where "s4 = snd (readl p CAN_MSEL_ADDR s3)"
  have st': "(ucast (ucast v' :: u8) :: u32) AND RESET_MODE h \<noteq> 0"
    unfolding v'_def by (rule never)
  have step: "set_normal_mode_loop p h i status s = set_normal_mode_loop p h (Suc i) (ucast v') s4"
    using Suc.prems
    by (subst set_normal_mode_loop.simps)
       (simp add: Let_def split_beta v_def s1_def s3_def v'_def s4_def)
  have s4: "snd s4 = (snd s)\<lparr>io_log := io_log (snd s) @ normal_poll h (v, v')\<rparr>"
    by (simp add: s4_def s3_def s1_def v'_def v_def normal_poll_def)
  from Suc.IH [of "Suc i" "ucast v'" s4] Suc.prems st'
  obtain vs where vs: "length vs = k"
      "snd (set_normal_mode_loop p h (Suc i) (ucast v') s4) =
         (snd s4)\<lparr>io_log := io_log (snd s4) @ concat (map (normal_poll h) vs),
                 klog := klog (snd s4) @ [Kmsg ''setting SUNXI_CAN into normal mode failed!'']\<rparr>"
    by auto
  show ?case
    by (rule exI [of _ "(v, v') # vs"]) (simp add: step vs s4)
qed

lemma set_normal_mode_timeout:
  assumes never: "\<And>w. (ucast (ucast (fst (hw_readl p CAN_MSEL_ADDR w)) :: u8) :: u32) AND RESET_MODE h \<noteq> 0"
  shows "\<exists>v0 vs. length vs = 100 \<and>
       snd (set_normal_mode p h s) =
         (snd s)\<lparr>io_log := io_log (snd s) @ Readl CAN_MSEL_ADDR v0 # concat (map (normal_poll h) vs),
                 klog := klog (snd s) @ [Kmsg ''setting SUNXI_CAN into normal mode failed!'']\<rparr>"
proof -
  define v0 where "v0 = fst (hw_readl p CAN_MSEL_ADDR (fst s))"
  define s1 where "s1 = snd (readl p CAN_MSEL_ADDR s)"
  have eq: "set_normal_mode p h s = set_normal_mode_loop p h 0 (ucast v0) s1"
    by (simp add: set_normal_mode_def split_beta v0_def s1_def)
  have "(ucast (ucast v0 :: u8) :: u32) AND RESET_MODE h \<noteq> 0" unfolding v0_def by (rule never)
  from normal_loop_timeout [OF never, of 0 100 "ucast v0" s1, OF _ this]
  obtain vs where "length vs = 100"
    "snd (set_normal_mode_loop p h 0 (ucast v0) s1) =
         (snd s1)\<lparr>io_log := io_log (snd s1) @ concat (map (normal_poll h) vs),
                 klog := klog (snd s1) @ [Kmsg ''setting SUNXI_CAN into normal mode failed!'']\<rparr>"
    by auto
  then show ?thesis
    by (intro exI [of _ v0] exI [of _ vs]) (simp add: eq s1_def v0_def)
qed

text \<open>
  Claim C7. When the mode-select register never shows the reset bit, \<^verbatim>\<open>set_reset_mode\<close>
  reads the status once and then polls exactly 100 times, each poll a read, a write of
  the reset bit, a delay of 10 microseconds and a read; it then logs the failure and
  returns. Nothing else of the device changes: the stored state is the one before the
  call. The same holds for \<^verbatim>\<open>set_normal_mode\<close> when the low byte of the register always
  shows the reset bit.
\<close>

theorem mode_transition_timeout:
  "((\<forall>w. fst (hw_readl p CAN_MSEL_ADDR w) AND RESET_MODE h = 0) \<longrightarrow>
      (\<exists>v0 vs. length vs = 100 \<and>
         snd (set_reset_mode p h s) =
           (snd s)\<lparr>io_log := io_log (snd s) @
                      Readl CAN_MSEL_ADDR v0 # concat (map (reset_poll h) vs),
                   klog := klog (snd s) @
                      [Kmsg ''setting SUNXI_CAN into reset mode failed!'']\<rparr>) \<and>
      state (snd (set_reset_mode p h s)) = state (snd s)) \<and>
   ((\<forall>w. (ucast (ucast (fst (hw_readl q CAN_MSEL_ADDR w)) :: u8) :: u32) AND RESET_MODE h \<noteq> 0) \<longrightarrow>
      (\<exists>v0 vs. length vs = 100 \<and>
         snd (set_normal_mode q h t) =
           (snd t)\<lparr>io_log := io_log (snd t) @
                      Readl CAN_MSEL_ADDR v0 # concat (map (normal_poll h) vs),
                   klog := klog (snd t) @
                      [Kmsg ''setting SUNXI_CAN into normal mode failed!'']\<rparr>) \<and>
      state (snd (set_normal_mode q h t)) = state (snd t))"
proof (intro conjI impI)
  assume a: "\<forall>w. fst (hw_readl p CAN_MSEL_ADDR w) AND RESET_MODE h = 0"
  from set_reset_mode_timeout [of p h s] a
  show r: "\<exists>v0 vs. length vs = 100 \<and>
         snd (set_reset_mode p h s) =
           (snd s)\<lparr>io_log := io_log (snd s) @
                      Readl CAN_MSEL_ADDR v0 # concat (map (reset_poll h) vs),
                   klog := klog (snd s) @
                      [Kmsg ''setting SUNXI_CAN into reset mode failed!'']\<rparr>"
    by blast
  then show "state (snd (set_reset_mode p h s)) = state (snd s)"
    by auto
next
  assume a: "\<forall>w. (ucast (ucast (fst (hw_readl q CAN_MSEL_ADDR w)) :: u8) :: u32) AND RESET_MODE h \<noteq> 0"
  from set_normal_mode_timeout [of q h t] a
  show r: "\<exists>v0 vs. length vs = 100 \<and>
         snd (set_normal_mode q h t) =
           (snd t)\<lparr>io_log := io_log (snd t) @
                      Readl CAN_MSEL_ADDR v0 # concat (map (normal_poll h) vs),
                   klog := klog (snd t) @
                      [Kmsg ''setting SUNXI_CAN into normal mode failed!'']\<rparr>"
    by blast
  then show "state (snd (set_normal_mode q h t)) = state (snd t)"
    by auto
qed

theorem mode_transition_timeout_witness:
  "(\<forall>w. fst (hw_readl (stuck_hw (\<lambda>r. 0) True) CAN_MSEL_ADDR w) AND RESET_MODE example_h = 0) \<and>
   (\<forall>w. (ucast (ucast (fst (hw_readl (stuck_hw (\<lambda>r. 1) True) CAN_MSEL_ADDR w)) :: u8) :: u32)
          AND RESET_MODE example_h \<noteq> 0) \<and>
   state (snd (set_reset_mode (stuck_hw (\<lambda>r. 0) True) example_h ((), idle_dev)))
     = CAN_STATE_ERROR_ACTIVE \<and>
   klog (snd (set_reset_mode (stuck_hw (\<lambda>r. 0) True) example_h ((), idle_dev)))
     = [Kmsg ''setting SUNXI_CAN into reset mode failed!''] \<and>
   state (snd (set_normal_mode (stuck_hw (\<lambda>r. 1) True) example_h ((), idle_dev)))
     = CAN_STATE_ERROR_ACTIVE \<and>
   klog (snd (set_normal_mode (stuck_hw (\<lambda>r. 1) True) example_h ((), idle_dev)))
     = [Kmsg ''setting SUNXI_CAN into normal mode failed!'']"
proof -
  have a: "\<forall>w. fst (hw_readl (stuck_hw (\<lambda>r. 0) True) CAN_MSEL_ADDR w) AND RESET_MODE example_h = 0"
    by (simp add: stuck_hw_def)
  have b: "\<forall>w. (ucast (ucast (fst (hw_readl (stuck_hw (\<lambda>r. 1) True) CAN_MSEL_ADDR w)) :: u8) :: u32)
          AND RESET_MODE example_h \<noteq> 0"
    by (simp add: stuck_hw_def example_h_def)
  from mode_transition_timeout
    [of "stuck_hw (\<lambda>r. 0) True" example_h "((), idle_dev)" "stuck_hw (\<lambda>r. 1) True" "((), idle_dev)"]
    a b
  have "(\<exists>v0 vs. snd (set_reset_mode (stuck_hw (\<lambda>r. 0) True) example_h ((), idle_dev)) =
           idle_dev\<lparr>io_log := io_log idle_dev @
                      Readl CAN_MSEL_ADDR v0 # concat (map (reset_poll example_h) vs),
                   klog := klog idle_dev @
                      [Kmsg ''setting SUNXI_CAN into reset mode failed!'']\<rparr>)"
    and "(\<exists>v0 vs. snd (set_normal_mode (stuck_hw (\<lambda>r. 1) True) example_h ((), idle_dev)) =
           idle_dev\<lparr>io_log := io_log idle_dev @
                      Readl CAN_MSEL_ADDR v0 # concat (map (normal_poll example_h) vs),
                   klog := klog idle_dev @
                      [Kmsg ''setting SUNXI_CAN into normal mode failed!'']\<rparr>)"
    by auto
  then show ?thesis
    using a b by (auto simp: idle_dev_def)
qed

section \<open>The bus error counter query\<close>

lemma drop16_0F00: "drop_bit 16 (v AND (0x0F00::u32)) = 0"
proof -
  have "(0x0F00::u32) = push_bit 8 (mask 4)" by (simp add: mask_eq_exp_minus_1)
  then show ?thesis by (simp only:) (rule bit_word_eqI, auto simp: bit_simps)
qed

lemma drop8_1f: "drop_bit 8 (v AND (0x1f::u32)) = 0"
  unfolding mask_consts by (rule bit_word_eqI) (auto simp: bit_simps)

lemma berr_counter_values:
  "rxerr (fst (snd (sunxi_can_get_berr_counter p s))) = 0"
  "txerr (fst (snd (sunxi_can_get_berr_counter p s))) =
     ucast (fst (hw_readl p CAN_ERRC_ADDR (fst s)) AND 0xF)"
  by (simp_all add: sunxi_can_get_berr_counter_def split_beta drop16_0F00)

lemma and_F_le: "unat (v AND (0xF::u32)) \<le> 15"
  using word_and_le1 [of v "0xF"] by (simp add: word_le_nat_alt)

lemma ucast16_low_nibble: "unat (ucast (v AND (0xF::u32)) :: u16) = unat (v AND 0xF)"
proof -
  have "unat (v AND 0xF) < 2 ^ 16" using and_F_le [of v] by simp
  then show ?thesis by (simp add: unsigned_ucast_eq take_bit_nat_eq_self)
qed

lemma ucast16_u8: "unat (ucast (x :: u8) :: u16) = unat x"
proof -
  have "unat x < 2 ^ 8" using unsigned_less [of x, where ?'a = nat] by simp
  then have "unat x < 2 ^ 16" by simp
  then show ?thesis by (simp add: unsigned_ucast_eq take_bit_nat_eq_self)
qed

lemma tx_differs:
  assumes "0xF < errc_txerr v"
  shows "(ucast (v AND (0xF::u32)) :: u16) \<noteq> ucast (errc_txerr v)"
proof
  assume eq: "(ucast (v AND 0xF) :: u16) = ucast (errc_txerr v)"
  have "unat (errc_txerr v) = unat (v AND 0xF)"
    using arg_cong [OF eq, of unat] by (simp only: ucast16_low_nibble ucast16_u8)
  then have "unat (errc_txerr v) \<le> 15" using and_F_le [of v] by simp
  with assms show False by (simp add: word_less_nat_alt)
qed

lemma rx_differs:
  assumes "errc_rxerr v \<noteq> 0"
  shows "(0 :: u16) \<noteq> ucast (errc_rxerr v)"
proof
  assume eq: "(0 :: u16) = ucast (errc_rxerr v)"
  have "unat (errc_rxerr v) = 0"
    using arg_cong [OF eq, of unat] by (simp only: ucast16_u8 unsigned_0)
  with assms show False by (simp add: unat_eq_0)
qed

text \<open>
  Claim C10. Whatever the error-counter register holds, \<^verbatim>\<open>sunxi_can_get_berr_counter\<close>
  reports \<open>rxerr = 0\<close> (the mask \<open>0x0F00\<close> followed by a shift by 16 leaves nothing) and
  \<open>txerr\<close> as the low four bits of the register. The error state machine takes \<open>rxerr\<close>
  from bits 16 to 23 and \<open>txerr\<close> from bits 0 to 7 of the same register, so the query
  disagrees with it whenever its \<open>txerr\<close> exceeds 15 or its \<open>rxerr\<close> is not zero.
\<close>

theorem berr_counter_query:
  "rxerr (fst (snd (sunxi_can_get_berr_counter p s))) = 0 \<and>
   txerr (fst (snd (sunxi_can_get_berr_counter p s))) =
     ucast (fst (hw_readl p CAN_ERRC_ADDR (fst s)) AND 0xF) \<and>
   unat (txerr (fst (snd (sunxi_can_get_berr_counter p s)))) \<le> 15 \<and>
   (0xF < errc_txerr (fst (hw_readl p CAN_ERRC_ADDR (fst s))) \<longrightarrow>
      txerr (fst (snd (sunxi_can_get_berr_counter p s))) \<noteq>
        ucast (errc_txerr (fst (hw_readl p CAN_ERRC_ADDR (fst s))))) \<and>
   (errc_rxerr v \<noteq> 0 \<longrightarrow>
      rxerr (fst (snd (sunxi_can_get_berr_counter p s))) \<noteq> ucast (errc_rxerr v))"
  using tx_differs [of "fst (hw_readl p CAN_ERRC_ADDR (fst s))"] rx_differs [of v]
    and_F_le [of "fst (hw_readl p CAN_ERRC_ADDR (fst s))"]
  by (simp add: berr_counter_values ucast16_low_nibble)

theorem berr_counter_query_witness:
  "0xF < errc_txerr (fst (hw_readl (stuck_hw (\<lambda>r. 0x200030) True) CAN_ERRC_ADDR ())) \<and>
   errc_rxerr 0x200030 \<noteq> 0 \<and>
   errc_txerr 0x200030 = 0x30 \<and> errc_rxerr 0x200030 = 0x20 \<and>
   txerr (fst (snd (sunxi_can_get_berr_counter (stuck_hw (\<lambda>r. 0x200030) True) ((), idle_dev))))
     \<noteq> 0x30 \<and>
   rxerr (fst (snd (sunxi_can_get_berr_counter (stuck_hw (\<lambda>r. 0x200030) True) ((), idle_dev))))
     \<noteq> 0x20"
  using berr_counter_query [of "stuck_hw (\<lambda>r. 0x200030) True" "((), idle_dev)" "0x200030"]
  by (simp add: stuck_hw_def errc_txerr_def errc_rxerr_def)

section \<open>Frame round trip\<close>

lemma ram_simps [simp]:
  "hw_readl ram r m = (m r, m)"
  "hw_writel ram v r m = m(r := v)"
  "hw_udelay ram us m = m"
  "k_alloc_can_skb ram m = (True, m)"
  "k_alloc_can_err_skb ram m = (True, m)"
  by (simp_all add: ram_def)

lemma write_fold_ram:
  "fst (fold (\<lambda>i. writel ram (f i) (CAN_BUF_ADDR (base + i))) [0..<n] s) r =
     (case r of CAN_BUF_ADDR k \<Rightarrow> if base \<le> k \<and> k < base + n then f (k - base) else fst s r
              | _ \<Rightarrow> fst s r)"
  by (induction n) (auto split: reg.splits)

lemma write_fold_dev:
  "snd (fold (\<lambda>i. writel p (f i) (g i)) [0..<n] s) =
     (snd s)\<lparr>io_log := io_log (snd s) @ map (\<lambda>i. Writel (f i) (g i)) [0..<n]\<rparr>"
  by (induction n) simp_all

lemma read_fold_ram:
  assumes "n \<le> length (data c)"
  shows "fold (\<lambda>i (cf, s). let (v, s') = readl ram (CAN_BUF_ADDR (base + i)) s
                          in (cf\<lparr>data := (data cf)[i := ucast v]\<rparr>, s'))
           [0..<n] (c, s) =
         (c\<lparr>data := map (\<lambda>i. ucast (fst s (CAN_BUF_ADDR (base + i)))) [0..<n] @ drop n (data c)\<rparr>,
          (fst s, (snd s)\<lparr>io_log := io_log (snd s) @
              map (\<lambda>i. Readl (CAN_BUF_ADDR (base + i)) (fst s (CAN_BUF_ADDR (base + i)))) [0..<n]\<rparr>))"
  using assms
proof (induction n)
  case 0
  show ?case by simp
next
  case (Suc n)
  then have n: "n < length (data c)" by simp
  have upd: "(map (\<lambda>i. ucast (fst s (CAN_BUF_ADDR (base + i)))) [0..<n] @ drop n (data c))[n := x]
      = map (\<lambda>i. ucast (fst s (CAN_BUF_ADDR (base + i)))) [0..<n] @ [x] @ drop (Suc n) (data c)" for x :: u8
    using n by (simp add: list_update_append Cons_nth_drop_Suc [symmetric] )
  show ?case
    using Suc n by (simp add: split_beta Let_def readl_def upd)
qed


lemma bit_flag [simp]:
  "bit CAN_EFF_FLAG n \<longleftrightarrow> n = 31"
  "bit CAN_RTR_FLAG n \<longleftrightarrow> n = 30"
proof -
  have e: "CAN_EFF_FLAG = push_bit 31 1"
    by (simp add: CAN_EFF_FLAG_def)
  show "bit CAN_EFF_FLAG n \<longleftrightarrow> n = 31"
    by (simp only: e bit_simps) (auto simp: bit_simps)
  have r: "CAN_RTR_FLAG = push_bit 30 1"
    by (simp add: CAN_RTR_FLAG_def)
  show "bit CAN_RTR_FLAG n \<longleftrightarrow> n = 30"
    by (simp only: r bit_simps) (auto simp: bit_simps)
qed

lemma bit_below:
  fixes x :: "'a::len word"
  assumes "x < 2 ^ k" "bit x n"
  shows "n < k"
proof -
  have "bit (x AND mask k) n" using assms by (simp add: less_mask_eq)
  then show ?thesis by (simp add: bit_simps)
qed

lemma dlc_bits: "(dlc :: u8) \<le> 8 \<Longrightarrow> bit dlc n \<Longrightarrow> n < 4"
proof -
  assume "dlc \<le> 8" "bit dlc n"
  then have "dlc < 2 ^ 4" by (simp add: word_le_nat_alt word_less_nat_alt)
  then show ?thesis using \<open>bit dlc n\<close> by (rule bit_below)
qed

lemma sff_bits: "(idv :: u32) \<le> 0x7FF \<Longrightarrow> bit idv n \<Longrightarrow> n < 11"
proof -
  assume "idv \<le> 0x7FF" "bit idv n"
  then have "idv < 2 ^ 11" by (simp add: word_le_nat_alt word_less_nat_alt)
  then show ?thesis using \<open>bit idv n\<close> by (rule bit_below)
qed

lemma eff_bits: "(idv :: u32) \<le> 0x1FFFFFFF \<Longrightarrow> bit idv n \<Longrightarrow> n < 29"
proof -
  assume "idv \<le> 0x1FFFFFFF" "bit idv n"
  then have "idv < 2 ^ 29" by (simp add: word_le_nat_alt word_less_nat_alt)
  then show ?thesis using \<open>bit idv n\<close> by (rule bit_below)
qed

lemma mask4_u8: "(0x0F :: u8) = mask 4"
  by (simp add: mask_eq_exp_minus_1)

lemma hdr_dlc:
  assumes "dlc \<le> 8"
  shows "get_can_dlc (hdr cid dlc AND 0x0F) = dlc"
proof -
  have "hdr cid dlc AND 0x0F = dlc"
    unfolding hdr_def mask4_u8
    by (rule bit_word_eqI) (auto simp: bit_simps dest: dlc_bits [OF assms])
  then show ?thesis using assms by (simp add: get_can_dlc_def)
qed

lemma hdr_eff:
  assumes "dlc \<le> 8"
  shows "drop_bit 7 (hdr cid dlc) \<noteq> 0 \<longleftrightarrow> bit cid 31"
proof -
  have "drop_bit 7 (hdr cid dlc) = (if bit cid 31 then 1 else 0)"
    unfolding hdr_def
    by (rule bit_word_eqI) (auto simp: bit_simps dest: dlc_bits [OF assms])
  then show ?thesis by simp
qed

lemma hdr_rtr:
  assumes "dlc \<le> 8"
  shows "drop_bit 6 (hdr cid dlc) AND 0x1 \<noteq> 0 \<longleftrightarrow> bit cid 30"
proof -
  have "drop_bit 6 (hdr cid dlc) AND 1 = (if bit cid 30 then 1 else 0)"
    unfolding hdr_def
    by (rule bit_word_eqI) (auto simp: bit_simps dest: dlc_bits [OF assms])
  then show ?thesis by simp
qed

lemma take_bit_split:
  fixes w :: "'a::len word"
  shows "take_bit (k + m) w = push_bit k (take_bit m (drop_bit k w)) OR take_bit k w"
  by (rule bit_word_eqI) (auto simp: bit_simps)

lemma field_of_flagged:
  fixes x y :: "'a::len word"
  assumes "k + m \<le> j"
  shows "take_bit m (drop_bit k (take_bit j x OR push_bit j y)) = take_bit m (drop_bit k x)"
  using assms by (intro bit_word_eqI) (auto simp: bit_simps)

lemma low_chunk:
  fixes w :: u32
  shows "drop_bit 3 (push_bit 3 (w AND mask 5)) AND mask 5 = take_bit 5 w"
    and "drop_bit 5 (push_bit 5 (w AND mask 3)) AND mask 3 = take_bit 3 w"
  by (rule bit_word_eqI; auto simp: bit_simps)+

lemma eff_id_gen:
  fixes x y :: u32
  defines "cid \<equiv> take_bit 29 x OR push_bit 29 y"
  shows "push_bit 21 (mask 8 AND drop_bit 21 cid)
         OR push_bit 13 (mask 8 AND drop_bit 13 cid)
         OR push_bit 5 (mask 8 AND drop_bit 5 cid)
         OR (drop_bit 3 (push_bit 3 (cid AND mask 5)) AND mask 5)
         = take_bit 29 x"
proof -
  have f: "mask 8 AND drop_bit 21 cid = take_bit 8 (drop_bit 21 x)"
    "mask 8 AND drop_bit 13 cid = take_bit 8 (drop_bit 13 x)"
    "mask 8 AND drop_bit 5 cid = take_bit 8 (drop_bit 5 x)"
    "take_bit 5 cid = take_bit 5 x"
    using field_of_flagged [of 21 8 29 x y] field_of_flagged [of 13 8 29 x y]
      field_of_flagged [of 5 8 29 x y] field_of_flagged [of 0 5 29 x y]
    by (simp_all add: cid_def take_bit_eq_mask and.commute)
  have "take_bit 29 x = take_bit (21 + 8) x" by simp
  also have "\<dots> = push_bit 21 (take_bit 8 (drop_bit 21 x)) OR take_bit (13 + 8) x"
    by (simp only: take_bit_split [of 21 8]) simp
  also have "take_bit (13 + 8) x = push_bit 13 (take_bit 8 (drop_bit 13 x)) OR take_bit (5 + 8) x"
    by (simp only: take_bit_split [of 13 8]) simp
  also have "take_bit (5 + 8) x = push_bit 5 (take_bit 8 (drop_bit 5 x)) OR take_bit 5 x"
    by (simp only: take_bit_split [of 5 8])
  finally show ?thesis
    by (simp only: f low_chunk or.assoc)
qed

lemma sff_id_gen:
  fixes x y :: u32
  defines "cid \<equiv> take_bit 11 x OR push_bit 11 y"
  shows "push_bit 3 (mask 8 AND drop_bit 3 cid)
         OR (drop_bit 5 (push_bit 5 (cid AND mask 3)) AND mask 3)
         = take_bit 11 x"
proof -
  have f: "mask 8 AND drop_bit 3 cid = take_bit 8 (drop_bit 3 x)"
    "take_bit 3 cid = take_bit 3 x"
    using field_of_flagged [of 3 8 11 x y] field_of_flagged [of 0 3 11 x y]
    by (simp_all add: cid_def take_bit_eq_mask and.commute)
  have "take_bit 11 x = take_bit (3 + 8) x" by simp
  also have "\<dots> = push_bit 3 (take_bit 8 (drop_bit 3 x)) OR take_bit 3 x"
    by (simp only: take_bit_split [of 3 8])
  finally show ?thesis
    by (simp only: f low_chunk)
qed


lemma take_bit_self:
  fixes x :: "'a::len word"
  shows "x < 2 ^ k \<Longrightarrow> take_bit k x = x"
  by (simp add: take_bit_eq_mask less_mask_eq)

lemma eff_id:
  assumes "idv \<le> 0x1FFFFFFF" and r: "r = 0 \<or> r = CAN_RTR_FLAG"
  shows "push_bit 21 (0xFF AND drop_bit 21 (idv OR CAN_EFF_FLAG OR r))
         OR push_bit 13 (0xFF AND drop_bit 13 (idv OR CAN_EFF_FLAG OR r))
         OR push_bit 5 (0xFF AND drop_bit 5 (idv OR CAN_EFF_FLAG OR r))
         OR (drop_bit 3 (push_bit 3 ((idv OR CAN_EFF_FLAG OR r) AND 0x1F)) AND 0x1f) = idv"
proof -
  have "idv < 2 ^ 29" using assms(1) by (simp add: word_le_nat_alt word_less_nat_alt)
  then have t: "take_bit 29 idv = idv" by (rule take_bit_self)
  have gen: "?thesis" if y: "CAN_EFF_FLAG OR r = push_bit 29 y" for y
    using eff_id_gen [of idv y]
    by (simp only: t y [symmetric] mask_consts or.assoc)
  from r show ?thesis
  proof
    assume "r = 0"
    then show ?thesis by (intro gen [of 4]) (simp add: CAN_EFF_FLAG_def)
  next
    assume "r = CAN_RTR_FLAG"
    then show ?thesis by (intro gen [of 6]) (simp add: CAN_EFF_FLAG_def CAN_RTR_FLAG_def)
  qed
qed

lemma sff_id:
  assumes "idv \<le> 0x7FF" and r: "r = 0 \<or> r = CAN_RTR_FLAG"
  shows "push_bit 3 (0xFF AND drop_bit 3 (idv OR r))
         OR (drop_bit 5 (push_bit 5 ((idv OR r) AND 0x7)) AND 0x7) = idv"
proof -
  have "idv < 2 ^ 11" using assms(1) by (simp add: word_le_nat_alt word_less_nat_alt)
  then have t: "take_bit 11 idv = idv" by (rule take_bit_self)
  have gen: "?thesis" if y: "r = push_bit 11 y" for y
    using sff_id_gen [of idv y]
    by (simp only: t y [symmetric] mask_consts)
  from r show ?thesis
  proof
    assume "r = 0"
    then show ?thesis by (intro gen [of 0]) simp
  next
    assume "r = CAN_RTR_FLAG"
    then show ?thesis by (intro gen [of "0x80000"]) (simp add: CAN_RTR_FLAG_def)
  qed
qed

lemma id_flag_bits:
  "idv \<le> 0x1FFFFFFF \<Longrightarrow>
     bit (can_id (logical_frame idv eff rtr dlc bytes)) 31 = eff \<and>
     bit (can_id (logical_frame idv eff rtr dlc bytes)) 30 = rtr"
  by (auto simp: logical_frame_def bit_simps dest: eff_bits)

lemma alloc_ram [simp]:
  "alloc_can_skb ram s = (Some zero_frame, s)"
  by (simp add: alloc_can_skb_def)

lemma readl_ram [simp]:
  "readl ram r s = (fst s r, (fst s, (snd s)\<lparr>io_log := io_log (snd s) @ [Readl r (fst s r)]\<rparr>))"
  by (simp add: readl_def)

lemma write_data_ram:
  "fst (write_data ram base cf dlc s) r =
     (case r of CAN_BUF_ADDR k \<Rightarrow>
        if base \<le> k \<and> k < base + unat dlc then ucast (data cf ! (k - base)) else fst s r
      | _ \<Rightarrow> fst s r)"
  unfolding write_data_def by (rule write_fold_ram)

lemma read_data_ram:
  assumes "unat (can_dlc c) \<le> length (data c)"
  shows "fst (read_data ram base (c, s)) =
     c\<lparr>data := map (\<lambda>i. ucast (fst s (CAN_BUF_ADDR (base + i)))) [0..<unat (can_dlc c)]
                @ drop (unat (can_dlc c)) (data c)\<rparr>"
  unfolding read_data_def using read_fold_ram [OF assms, of base s, unfolded readl_ram]
  by simp

lemma xmit_mem_sff:
  assumes "can_id cf AND CAN_EFF_FLAG = 0"
  shows "fst (xmit_write_frame ram cf s) CAN_BUF0_ADDR =
           push_bit 6 (drop_bit 30 (can_id cf)) OR ucast (can_dlc cf)"
    and "fst (xmit_write_frame ram cf s) CAN_BUF1_ADDR = 0xFF AND drop_bit 3 (can_id cf)"
    and "fst (xmit_write_frame ram cf s) CAN_BUF2_ADDR = push_bit 5 (can_id cf AND 0x7)"
    and "i < unat (can_dlc cf) \<Longrightarrow>
           fst (xmit_write_frame ram cf s) (CAN_BUF_ADDR (3 + i)) = ucast (data cf ! i)"
  using assms by (simp_all add: xmit_write_frame_def Let_def write_data_ram)

lemma xmit_mem_eff:
  assumes "can_id cf AND CAN_EFF_FLAG \<noteq> 0"
  shows "fst (xmit_write_frame ram cf s) CAN_BUF0_ADDR =
           push_bit 6 (drop_bit 30 (can_id cf)) OR ucast (can_dlc cf)"
    and "fst (xmit_write_frame ram cf s) CAN_BUF1_ADDR = 0xFF AND drop_bit 21 (can_id cf)"
    and "fst (xmit_write_frame ram cf s) CAN_BUF2_ADDR = 0xFF AND drop_bit 13 (can_id cf)"
    and "fst (xmit_write_frame ram cf s) CAN_BUF3_ADDR = 0xFF AND drop_bit 5 (can_id cf)"
    and "fst (xmit_write_frame ram cf s) CAN_BUF4_ADDR = push_bit 3 (can_id cf AND 0x1F)"
    and "i < unat (can_dlc cf) \<Longrightarrow>
           fst (xmit_write_frame ram cf s) (CAN_BUF_ADDR (5 + i)) = ucast (data cf ! i)"
  using assms by (simp_all add: xmit_write_frame_def Let_def write_data_ram)

lemma rx_frame_ram:
  "fst (rx_read_frame ram zero_frame s) =
     (let fi = (ucast (fst s CAN_BUF0_ADDR) :: u8);
          dlc = get_can_dlc (fi AND 0x0F)
      in if drop_bit 7 fi \<noteq> 0 then
           (let id = (push_bit 21 (fst s CAN_BUF1_ADDR) OR push_bit 13 (fst s CAN_BUF2_ADDR)
                     OR push_bit 5 (fst s CAN_BUF3_ADDR)
                     OR (drop_bit 3 (fst s CAN_BUF4_ADDR) AND 0x1f)) OR CAN_EFF_FLAG
            in if drop_bit 6 fi AND 0x1 \<noteq> 0
               then \<lparr>can_id = id OR CAN_RTR_FLAG, can_dlc = dlc, data = replicate 8 0\<rparr>
               else \<lparr>can_id = id, can_dlc = dlc,
                     data = map (\<lambda>i. ucast (fst s (CAN_BUF_ADDR (5 + i)))) [0..<unat dlc]
                            @ replicate (8 - unat dlc) 0\<rparr>)
         else
           (let id = push_bit 3 (fst s CAN_BUF1_ADDR) OR (drop_bit 5 (fst s CAN_BUF2_ADDR) AND 0x7)
            in if drop_bit 6 fi AND 0x1 \<noteq> 0
               then \<lparr>can_id = id OR CAN_RTR_FLAG, can_dlc = dlc, data = replicate 8 0\<rparr>
               else \<lparr>can_id = id, can_dlc = dlc,
                     data = map (\<lambda>i. ucast (fst s (CAN_BUF_ADDR (3 + i)))) [0..<unat dlc]
                            @ replicate (8 - unat dlc) 0\<rparr>))"
proof -
  have le: "unat (get_can_dlc x) \<le> 8" for x
    by (simp add: get_can_dlc_def word_le_nat_alt)
  show ?thesis
    using le
    by (simp add: rx_read_frame_def Let_def split_beta read_data_ram zero_frame_def)
qed


lemma ucast_u8_u32_u8: "(ucast (ucast (x :: u8) :: u32) :: u8) = x"
  by (rule bit_word_eqI) (auto simp: bit_simps)

lemma map_nth_take: "n \<le> length xs \<Longrightarrow> map (\<lambda>i. xs ! i) [0..<n] = take n xs"
  by (rule nth_equalityI) simp_all

lemma hdr_of_mem:
  "(ucast (push_bit 6 (drop_bit 30 cid) OR (ucast dlc :: u32)) :: u8) = hdr cid dlc"
  by (simp add: hdr_def)

lemma logical_frame_simps [simp]:
  "can_dlc (logical_frame idv eff rtr dlc bytes) = dlc"
  "data (logical_frame idv eff rtr dlc bytes) = bytes"
  by (simp_all add: logical_frame_def)

lemma eff_test:
  assumes "idv \<le> 0x1FFFFFFF"
  shows "can_id (logical_frame idv eff rtr dlc bytes) AND CAN_EFF_FLAG \<noteq> 0 \<longleftrightarrow> eff"
proof -
  have "can_id (logical_frame idv eff rtr dlc bytes) AND CAN_EFF_FLAG =
        (if eff then CAN_EFF_FLAG else 0)"
    by (rule bit_word_eqI) (auto simp: logical_frame_def bit_simps dest: eff_bits [OF assms])
  then show ?thesis by (simp add: CAN_EFF_FLAG_def)
qed

lemma decode_after_encode:
  assumes len: "length bytes = 8" and dlc: "dlc \<le> 8"
    and idv: "idv \<le> (if eff then 0x1FFFFFFF else 0x7FF)"
  shows "fst (rx_read_frame ram zero_frame
                (xmit_write_frame ram (logical_frame idv eff rtr dlc bytes) s)) =
         logical_frame idv eff rtr dlc
           (if rtr then replicate 8 0 else take (unat dlc) bytes @ replicate (8 - unat dlc) 0)"
proof -
  let ?cf = "logical_frame idv eff rtr dlc bytes"
  let ?m = "fst (xmit_write_frame ram ?cf s)"
  have idv29: "idv \<le> 0x1FFFFFFF"
    using idv by (cases eff) (simp_all add: word_le_nat_alt)
  have n: "unat dlc \<le> 8" using dlc by (simp add: word_le_nat_alt)
  have rflag: "(if rtr then CAN_RTR_FLAG else 0) = 0 \<or> (if rtr then CAN_RTR_FLAG else 0) = CAN_RTR_FLAG"
    by simp
  have bits: "bit (can_id ?cf) 31 = eff" "bit (can_id ?cf) 30 = rtr"
    using id_flag_bits [OF idv29] by auto
  show ?thesis
  proof (cases eff)
    case True
    then have e: "can_id ?cf AND CAN_EFF_FLAG \<noteq> 0" by (simp add: eff_test [OF idv29])
    have h0: "(ucast (?m CAN_BUF0_ADDR) :: u8) = hdr (can_id ?cf) dlc"
      by (simp add: xmit_mem_eff(1) [OF e] hdr_of_mem)
    have idv': "idv \<le> 0x1FFFFFFF" using idv True by simp
    have cid: "can_id ?cf = idv OR CAN_EFF_FLAG OR (if rtr then CAN_RTR_FLAG else 0)"
      using True by (simp add: logical_frame_def)
    have dec: "push_bit 21 (?m CAN_BUF1_ADDR) OR push_bit 13 (?m CAN_BUF2_ADDR)
                OR push_bit 5 (?m CAN_BUF3_ADDR) OR (drop_bit 3 (?m CAN_BUF4_ADDR) AND 0x1f) = idv"
      unfolding xmit_mem_eff(2-5) [OF e] cid by (rule eff_id [OF idv' rflag])
    have dat: "map (\<lambda>i. (ucast (?m (CAN_BUF_ADDR (5 + i))) :: u8)) [0..<unat dlc] = take (unat dlc) bytes"
    proof (rule nth_equalityI)
      show "length (map (\<lambda>i. (ucast (?m (CAN_BUF_ADDR (5 + i))) :: u8)) [0..<unat dlc]) =
            length (take (unat dlc) bytes)"
        using n len by simp
    next
      fix i
      assume "i < length (map (\<lambda>i. (ucast (?m (CAN_BUF_ADDR (5 + i))) :: u8)) [0..<unat dlc])"
      then have i: "i < unat dlc" by simp
      then show "map (\<lambda>i. (ucast (?m (CAN_BUF_ADDR (5 + i))) :: u8)) [0..<unat dlc] ! i =
                 take (unat dlc) bytes ! i"
        by (simp add: xmit_mem_eff(6) [OF e] ucast_u8_u32_u8)
    qed
    show ?thesis
      unfolding rx_frame_ram Let_def h0 hdr_dlc [OF dlc] hdr_eff [OF dlc] hdr_rtr [OF dlc] bits dec dat
      using True by (simp add: logical_frame_def or.assoc)
  next
    case False
    then have e: "can_id ?cf AND CAN_EFF_FLAG = 0" using eff_test [OF idv29, of eff rtr dlc bytes] by simp
    have h0: "(ucast (?m CAN_BUF0_ADDR) :: u8) = hdr (can_id ?cf) dlc"
      by (simp add: xmit_mem_sff(1) [OF e] hdr_of_mem)
    have idv': "idv \<le> 0x7FF" using idv False by simp
    have cid: "can_id ?cf = idv OR (if rtr then CAN_RTR_FLAG else 0)"
      using False by (simp add: logical_frame_def)
    have dec: "push_bit 3 (?m CAN_BUF1_ADDR) OR (drop_bit 5 (?m CAN_BUF2_ADDR) AND 0x7) = idv"
      unfolding xmit_mem_sff(2-3) [OF e] cid by (rule sff_id [OF idv' rflag])
    have dat: "map (\<lambda>i. (ucast (?m (CAN_BUF_ADDR (3 + i))) :: u8)) [0..<unat dlc] = take (unat dlc) bytes"
    proof (rule nth_equalityI)
      show "length (map (\<lambda>i. (ucast (?m (CAN_BUF_ADDR (3 + i))) :: u8)) [0..<unat dlc]) =
            length (take (unat dlc) bytes)"
        using n len by simp
    next
      fix i
      assume "i < length (map (\<lambda>i. (ucast (?m (CAN_BUF_ADDR (3 + i))) :: u8)) [0..<unat dlc])"
      then have i: "i < unat dlc" by simp
      then show "map (\<lambda>i. (ucast (?m (CAN_BUF_ADDR (3 + i))) :: u8)) [0..<unat dlc] ! i =
                 take (unat dlc) bytes ! i"
        by (simp add: xmit_mem_sff(4) [OF e] ucast_u8_u32_u8)
    qed
    show ?thesis
      unfolding rx_frame_ram Let_def h0 hdr_dlc [OF dlc] hdr_eff [OF dlc] hdr_rtr [OF dlc] bits dec dat
      using False by (simp add: logical_frame_def)
  qed
qed

lemma write_data_dev:
  "snd (write_data p base cf dlc s) =
     (snd s)\<lparr>io_log := io_log (snd s) @
        map (\<lambda>i. Writel (ucast (data cf ! i)) (CAN_BUF_ADDR (base + i))) [0..<unat dlc]\<rparr>"
  unfolding write_data_def by (rule write_fold_dev)

lemma xmit_write_frame_queue:
  "netif_rx_queue (snd (xmit_write_frame p cf s)) = netif_rx_queue (snd s)"
  by (simp add: xmit_write_frame_def Let_def write_data_dev)

lemma read_data_ram_queue:
  assumes "unat (can_dlc c) \<le> length (data c)"
  shows "netif_rx_queue (snd (snd (read_data ram base (c, s)))) = netif_rx_queue (snd s)"
  unfolding read_data_def using read_fold_ram [OF assms, of base s, unfolded readl_ram]
  by simp

lemma rx_read_frame_ram_queue:
  "netif_rx_queue (snd (snd (rx_read_frame ram zero_frame s))) = netif_rx_queue (snd s)"
proof -
  have le: "unat (get_can_dlc x) \<le> 8" for x
    by (simp add: get_can_dlc_def word_le_nat_alt)
  show ?thesis
    using le
    by (simp add: rx_read_frame_def Let_def split_beta read_data_ram_queue zero_frame_def)
qed

lemma sunxi_can_rx_ram_queue:
  "netif_rx_queue (snd (sunxi_can_rx ram h s)) =
     netif_rx_queue (snd s) @ [fst (rx_read_frame ram zero_frame s)]"
  by (simp add: sunxi_can_rx_def split_beta Let_def netif_rx_def sunxi_can_write_cmdreg_def
        rx_read_frame_ram_queue)

lemma replicate_five: "replicate 5 x = [x, x, x, x, x]"
  by (simp add: numeral_eq_Suc)

lemma roundtrip_queue:
  assumes "length bytes = 8" and "dlc \<le> 8"
    and "idv \<le> (if eff then 0x1FFFFFFF else 0x7FF)"
  shows "netif_rx_queue (snd (sunxi_can_rx ram h
            (xmit_write_frame ram (logical_frame idv eff rtr dlc bytes) s))) =
         netif_rx_queue (snd s) @
           [logical_frame idv eff rtr dlc
              (if rtr then replicate 8 0
               else take (unat dlc) bytes @ replicate (8 - unat dlc) 0)]"
  by (simp only: sunxi_can_rx_ram_queue xmit_write_frame_queue decode_after_encode [OF assms])

text \<open>
  Claim C1, as amended. On registers that hold what was written, writing a frame with
  \<^verbatim>\<open>sunxi_can_start_xmit\<close>'s register writes and reading it back with \<^verbatim>\<open>sunxi_can_rx\<close>
  delivers a frame with the same identifier, the same extended and remote-request flags
  and the same length, for every standard frame with an identifier up to \<open>0x7FF\<close> and every
  extended frame with an identifier up to \<open>0x1FFFFFFF\<close>, of length 0 to 8. The data bytes
  below the length are the same when the frame is not a remote request; a remote request
  is delivered with all data bytes zero. Bytes from the length on are zero.
\<close>

theorem frame_roundtrip:
  assumes "length bytes = 8" and "dlc \<le> 8"
    and "idv \<le> (if eff then 0x1FFFFFFF else 0x7FF)"
  shows "netif_rx_queue (snd (sunxi_can_rx ram h
            (xmit_write_frame ram (logical_frame idv eff rtr dlc bytes) s))) =
         netif_rx_queue (snd s) @
           [logical_frame idv eff rtr dlc
              (if rtr then replicate 8 0
               else take (unat dlc) bytes @ replicate (8 - unat dlc) 0)]"
  using assms by (rule roundtrip_queue)

theorem frame_roundtrip_witness:
  "length [0xDE, 0xAD, 0xBE, 0xEF, 0, 0, 0, 0 :: u8] = 8 \<and> (3 :: u8) \<le> 8 \<and>
   (0x1ABCDEF0 :: u32) \<le> (if True then 0x1FFFFFFF else 0x7FF) \<and>
   netif_rx_queue (snd (sunxi_can_rx ram example_h
      (xmit_write_frame ram
         (logical_frame 0x1ABCDEF0 True False 3 [0xDE, 0xAD, 0xBE, 0xEF, 0, 0, 0, 0])
         (\<lambda>r. 0, idle_dev)))) =
     [logical_frame 0x1ABCDEF0 True False 3 [0xDE, 0xAD, 0xBE, 0, 0, 0, 0, 0]]"
  using frame_roundtrip [of "[0xDE, 0xAD, 0xBE, 0xEF, 0, 0, 0, 0]" 3 "0x1ABCDEF0" True
      example_h False "(\<lambda>r. 0, idle_dev)"]
    replicate_five [of "0 :: u8"]
  by (simp add: idle_dev_def)

text \<open>
  The claim as first stated fails for a remote request whose buffer holds data: the
  standard frame \<open>0x123\<close> with the remote-request flag, length 1 and first byte \<open>0x55\<close>
  comes back with first byte 0.
\<close>

theorem frame_roundtrip_counterexample:
  "take (unat (1 :: u8))
     (data (last (netif_rx_queue (snd (sunxi_can_rx ram example_h
        (xmit_write_frame ram (logical_frame 0x123 False True 1 [0x55, 0, 0, 0, 0, 0, 0, 0])
           (\<lambda>r. 0, idle_dev)))))))
   \<noteq> take (unat (1 :: u8)) (data (logical_frame 0x123 False True 1 [0x55, 0, 0, 0, 0, 0, 0, 0]))"
  using roundtrip_queue [of "[0x55, 0, 0, 0, 0, 0, 0, 0]" 1 "0x123" False
      example_h True "(\<lambda>r. 0, idle_dev)"]
  by (simp add: idle_dev_def)

section \<open>Error state machine: facts\<close>

lemma inc_simp [simp]: "inc x = x + 1"
  by (simp add: inc_def)

lemma cmdreg_simps [simp]:
  "fst (sunxi_can_write_cmdreg p v s) = hw_writel p (ucast v) CAN_CMD_ADDR (fst s)"
  "snd (sunxi_can_write_cmdreg p v s) = (snd s)\<lparr>io_log := io_log (snd s) @ [Writel (ucast v) CAN_CMD_ADDR]\<rparr>"
  by (simp_all add: sunxi_can_write_cmdreg_def)

lemma can_bus_off_simps [simp]:
  "fst (can_bus_off s) = fst s"
  "snd (can_bus_off s) = (snd s)\<lparr>carrier_ok := False, can_stats := bus_off_update inc (can_stats (snd s))\<rparr>"
  by (simp_all add: can_bus_off_def)

lemma netif_rx_simps [simp]:
  "fst (netif_rx cf s) = fst s"
  "snd (netif_rx cf s) = (snd s)\<lparr>netif_rx_queue := netif_rx_queue (snd s) @ [cf]\<rparr>"
  by (simp_all add: netif_rx_def)

subsection \<open>The blocks of the error state machine, field by field\<close>

lemma err_data_overrun_keeps [simp]:
  "fst (err_data_overrun p h isrc c) = fst c"
  "length (data (fst (snd (err_data_overrun p h isrc c)))) = length (data (fst (snd c)))"
  "can_dlc (fst (snd (err_data_overrun p h isrc c))) = can_dlc (fst (snd c))"
  "state (snd (snd (snd (err_data_overrun p h isrc c)))) = state (snd (snd (snd c)))"
  "can_stats (snd (snd (snd (err_data_overrun p h isrc c)))) = can_stats (snd (snd (snd c)))"
  "tx_errors (stats (snd (snd (snd (err_data_overrun p h isrc c))))) = tx_errors (stats (snd (snd (snd c))))"
  "netif_rx_queue (snd (snd (snd (err_data_overrun p h isrc c)))) = netif_rx_queue (snd (snd (snd c)))"
  "carrier_ok (snd (snd (snd (err_data_overrun p h isrc c)))) = carrier_ok (snd (snd (snd c)))"
  "k \<noteq> 1 \<Longrightarrow> data (fst (snd (err_data_overrun p h isrc c))) ! k = data (fst (snd c)) ! k"
  by (simp_all add: err_data_overrun_def split_beta)

lemma err_data_overrun_hw [simp]:
  "fst (snd (snd (err_data_overrun p h isrc c))) =
     (if isrc_has isrc (DATA_ORUNI h)
      then hw_writel p (ucast (ucast (CLEAR_DOVERRUN h) :: u8)) CAN_CMD_ADDR (fst (snd (snd c)))
      else fst (snd (snd c)))"
  by (simp add: err_data_overrun_def split_beta)

lemma err_warning_keeps [simp]:
  "data (fst (snd (err_warning h isrc status c))) = data (fst (snd c))"
  "can_dlc (fst (snd (err_warning h isrc status c))) = can_dlc (fst (snd c))"
  "fst (snd (snd (err_warning h isrc status c))) = fst (snd (snd c))"
  "state (snd (snd (snd (err_warning h isrc status c)))) = state (snd (snd (snd c)))"
  "arbitration_lost (can_stats (snd (snd (snd (err_warning h isrc status c))))) = arbitration_lost (can_stats (snd (snd (snd c))))"
  "error_warning (can_stats (snd (snd (snd (err_warning h isrc status c))))) = error_warning (can_stats (snd (snd (snd c))))"
  "error_passive (can_stats (snd (snd (snd (err_warning h isrc status c))))) = error_passive (can_stats (snd (snd (snd c))))"
  "tx_errors (stats (snd (snd (snd (err_warning h isrc status c))))) = tx_errors (stats (snd (snd (snd c))))"
  "netif_rx_queue (snd (snd (snd (err_warning h isrc status c)))) = netif_rx_queue (snd (snd (snd c)))"
  "io_log (snd (snd (snd (err_warning h isrc status c)))) = io_log (snd (snd (snd c)))"
  by (simp_all add: err_warning_def split_beta)

lemma err_warning_sets [simp]:
  "fst (err_warning h isrc status c) =
     (if isrc_has isrc (ERR_WRN h) then
        if isrc_has status (BUS_OFF h) then CAN_STATE_BUS_OFF
        else if isrc_has status (ERR_STA h) then CAN_STATE_ERROR_WARNING
        else CAN_STATE_ERROR_ACTIVE
      else fst c)"
  "bus_off (can_stats (snd (snd (snd (err_warning h isrc status c))))) =
     (if isrc_has isrc (ERR_WRN h) \<and> isrc_has status (BUS_OFF h)
      then bus_off (can_stats (snd (snd (snd c)))) + 1
      else bus_off (can_stats (snd (snd (snd c)))))"
  "carrier_ok (snd (snd (snd (err_warning h isrc status c)))) =
     (if isrc_has isrc (ERR_WRN h) \<and> isrc_has status (BUS_OFF h)
      then False else carrier_ok (snd (snd (snd c))))"
  "can_id (fst (snd (err_warning h isrc status c))) =
     (if isrc_has isrc (ERR_WRN h) \<and> isrc_has status (BUS_OFF h)
      then can_id (fst (snd c)) OR CAN_ERR_BUSOFF else can_id (fst (snd c)))"
  by (simp_all add: err_warning_def split_beta)

lemma err_bus_error_keeps [simp]:
  "fst (err_bus_error p h isrc c) = fst c"
  "length (data (fst (snd (err_bus_error p h isrc c)))) = length (data (fst (snd c)))"
  "can_dlc (fst (snd (err_bus_error p h isrc c))) = can_dlc (fst (snd c))"
  "state (snd (snd (snd (err_bus_error p h isrc c)))) = state (snd (snd (snd c)))"
  "bus_off (can_stats (snd (snd (snd (err_bus_error p h isrc c))))) = bus_off (can_stats (snd (snd (snd c))))"
  "arbitration_lost (can_stats (snd (snd (snd (err_bus_error p h isrc c))))) = arbitration_lost (can_stats (snd (snd (snd c))))"
  "error_warning (can_stats (snd (snd (snd (err_bus_error p h isrc c))))) = error_warning (can_stats (snd (snd (snd c))))"
  "error_passive (can_stats (snd (snd (snd (err_bus_error p h isrc c))))) = error_passive (can_stats (snd (snd (snd c))))"
  "tx_errors (stats (snd (snd (snd (err_bus_error p h isrc c))))) = tx_errors (stats (snd (snd (snd c))))"
  "netif_rx_queue (snd (snd (snd (err_bus_error p h isrc c)))) = netif_rx_queue (snd (snd (snd c)))"
  "carrier_ok (snd (snd (snd (err_bus_error p h isrc c)))) = carrier_ok (snd (snd (snd c)))"
  "k \<noteq> 2 \<Longrightarrow> k \<noteq> 3 \<Longrightarrow> data (fst (snd (err_bus_error p h isrc c))) ! k = data (fst (snd c)) ! k"
  by (simp_all add: err_bus_error_def split_beta Let_def)


text \<open>What the bus-error block writes into bytes 2 and 3 of a frame whose byte 2 is zero.\<close>

lemma err_bus_error_data:
  assumes "isrc_has isrc (BUS_ERR h)" and "3 < length (data (fst (snd c)))"
    and "data (fst (snd c)) ! 2 = 0"
  shows "data (fst (snd (err_bus_error p h isrc c))) ! 2 =
           (if fst (hw_readl p CAN_STA_ADDR (fst (snd (snd c)))) AND BIT_ERR h \<noteq> 0
              then CAN_ERR_PROT_BIT
            else if fst (hw_readl p CAN_STA_ADDR (fst (snd (snd c)))) AND FORM_ERR h \<noteq> 0
              then CAN_ERR_PROT_FORM
            else if fst (hw_readl p CAN_STA_ADDR (fst (snd (snd c)))) AND STUFF_ERR h \<noteq> 0
              then CAN_ERR_PROT_STUFF
            else CAN_ERR_PROT_UNSPEC)
           OR (if fst (hw_readl p CAN_STA_ADDR (fst (snd (snd c)))) AND ERR_DIR h = 0
               then CAN_ERR_PROT_TX else 0)"
    and "data (fst (snd (err_bus_error p h isrc c))) ! 3 =
           (if fst (hw_readl p CAN_STA_ADDR (fst (snd (snd c)))) AND BIT_ERR h = 0 \<and>
               fst (hw_readl p CAN_STA_ADDR (fst (snd (snd c)))) AND FORM_ERR h = 0 \<and>
               fst (hw_readl p CAN_STA_ADDR (fst (snd (snd c)))) AND STUFF_ERR h = 0
            then ucast (drop_bit 16
                   (fst (hw_readl p CAN_STA_ADDR (fst (snd (snd c)))) AND ERR_SEG_CODE h))
            else data (fst (snd c)) ! 3)"
  using assms by (simp_all add: err_bus_error_def split_beta Let_def)

lemma err_passive_keeps [simp]:
  "fst (snd (err_passive h isrc status c)) = fst (snd c)"
  "snd (snd (err_passive h isrc status c)) = snd (snd c)"
  by (simp_all add: err_passive_def split_beta)

lemma err_passive_sets [simp]:
  "fst (err_passive h isrc status c) =
     (if isrc_has isrc (ERR_PASSIVE h) then
        if isrc_has status (ERR_STA h) then CAN_STATE_ERROR_PASSIVE
        else CAN_STATE_ERROR_ACTIVE
      else fst c)"
  by (simp add: err_passive_def split_beta)

lemma err_arb_lost_keeps [simp]:
  "fst (err_arb_lost p h isrc c) = fst c"
  "length (data (fst (snd (err_arb_lost p h isrc c)))) = length (data (fst (snd c)))"
  "can_dlc (fst (snd (err_arb_lost p h isrc c))) = can_dlc (fst (snd c))"
  "state (snd (snd (snd (err_arb_lost p h isrc c)))) = state (snd (snd (snd c)))"
  "bus_off (can_stats (snd (snd (snd (err_arb_lost p h isrc c))))) = bus_off (can_stats (snd (snd (snd c))))"
  "error_warning (can_stats (snd (snd (snd (err_arb_lost p h isrc c))))) = error_warning (can_stats (snd (snd (snd c))))"
  "error_passive (can_stats (snd (snd (snd (err_arb_lost p h isrc c))))) = error_passive (can_stats (snd (snd (snd c))))"
  "netif_rx_queue (snd (snd (snd (err_arb_lost p h isrc c)))) = netif_rx_queue (snd (snd (snd c)))"
  "carrier_ok (snd (snd (snd (err_arb_lost p h isrc c)))) = carrier_ok (snd (snd (snd c)))"
  "k \<noteq> 0 \<Longrightarrow> data (fst (snd (err_arb_lost p h isrc c))) ! k = data (fst (snd c)) ! k"
  by (simp_all add: err_arb_lost_def split_beta Let_def)

lemma err_arb_lost_sets:
  assumes "isrc_has isrc (ARB_LOST h)"
  shows "arbitration_lost (can_stats (snd (snd (snd (err_arb_lost p h isrc c))))) =
           arbitration_lost (can_stats (snd (snd (snd c)))) + 1"
    and "tx_errors (stats (snd (snd (snd (err_arb_lost p h isrc c))))) =
           tx_errors (stats (snd (snd (snd c)))) + 1"
    and "0 < length (data (fst (snd c))) \<Longrightarrow> data (fst (snd (err_arb_lost p h isrc c))) ! 0 = 0"
    and "can_id (fst (snd (err_arb_lost p h isrc c))) = can_id (fst (snd c)) OR CAN_ERR_LOSTARB"
  using assms by (simp_all add: err_arb_lost_def split_beta Let_def drop8_1f)

lemma err_state_change_keeps [simp]:
  "fst (err_state_change p c) = fst c"
  "length (data (fst (snd (err_state_change p c)))) = length (data (fst (snd c)))"
  "can_dlc (fst (snd (err_state_change p c))) = can_dlc (fst (snd c))"
  "state (snd (snd (snd (err_state_change p c)))) = state (snd (snd (snd c)))"
  "bus_off (can_stats (snd (snd (snd (err_state_change p c))))) = bus_off (can_stats (snd (snd (snd c))))"
  "arbitration_lost (can_stats (snd (snd (snd (err_state_change p c))))) = arbitration_lost (can_stats (snd (snd (snd c))))"
  "tx_errors (stats (snd (snd (snd (err_state_change p c))))) = tx_errors (stats (snd (snd (snd c))))"
  "netif_rx_queue (snd (snd (snd (err_state_change p c)))) = netif_rx_queue (snd (snd (snd c)))"
  "carrier_ok (snd (snd (snd (err_state_change p c)))) = carrier_ok (snd (snd (snd c)))"
  "k \<noteq> 1 \<Longrightarrow> k \<noteq> 6 \<Longrightarrow> k \<noteq> 7 \<Longrightarrow>
     data (fst (snd (err_state_change p c))) ! k = data (fst (snd c)) ! k"
  by (simp_all add: err_state_change_def split_beta Let_def)

lemma err_state_change_idle:
  assumes "\<not> (fst c \<noteq> state (snd (snd (snd c))) \<and>
              (fst c = CAN_STATE_ERROR_WARNING \<or> fst c = CAN_STATE_ERROR_PASSIVE))"
  shows "err_state_change p c = c"
  using assms by (cases c) (auto simp add: err_state_change_def)

lemma err_state_change_taken:
  fixes p :: "'w platform" and c :: "'w err_ctx"
  assumes "fst c \<noteq> state (snd (snd (snd c)))"
    and "fst c = CAN_STATE_ERROR_WARNING \<or> fst c = CAN_STATE_ERROR_PASSIVE"
    and len: "length (data (fst (snd c))) = 8"
  defines "v1 \<equiv> fst (hw_readl p CAN_ERRC_ADDR (fst (snd (snd c))))"
  defines "v2 \<equiv> fst (hw_readl p CAN_ERRC_ADDR (snd (hw_readl p CAN_ERRC_ADDR (fst (snd (snd c))))))"
  shows "io_log (snd (snd (snd (err_state_change p c)))) =
           io_log (snd (snd (snd c))) @ [Readl CAN_ERRC_ADDR v1, Readl CAN_ERRC_ADDR v2]"
    and "data (fst (snd (err_state_change p c))) ! 1 =
           (if fst c = CAN_STATE_ERROR_WARNING
            then if errc_rxerr v1 < errc_txerr v2 then CAN_ERR_CRTL_TX_WARNING
                 else CAN_ERR_CRTL_RX_WARNING
            else if errc_rxerr v1 < errc_txerr v2 then CAN_ERR_CRTL_TX_PASSIVE
                 else CAN_ERR_CRTL_RX_PASSIVE)"
    and "data (fst (snd (err_state_change p c))) ! 6 = errc_txerr v2"
    and "data (fst (snd (err_state_change p c))) ! 7 = errc_rxerr v1"
    and "can_id (fst (snd (err_state_change p c))) = can_id (fst (snd c)) OR CAN_ERR_CRTL"
    and "error_warning (can_stats (snd (snd (snd (err_state_change p c))))) =
           (if fst c = CAN_STATE_ERROR_WARNING
            then error_warning (can_stats (snd (snd (snd c)))) + 1
            else error_warning (can_stats (snd (snd (snd c)))))"
    and "error_passive (can_stats (snd (snd (snd (err_state_change p c))))) =
           (if fst c = CAN_STATE_ERROR_PASSIVE
            then error_passive (can_stats (snd (snd (snd c)))) + 1
            else error_passive (can_stats (snd (snd (snd c)))))"
  using assms(1-3) unfolding v1_def v2_def
  by (auto simp add: err_state_change_def split_beta Let_def)

lemma err_bus_error_hw [simp]:
  "fst (snd (snd (err_bus_error p h isrc c))) =
     (if isrc_has isrc (BUS_ERR h) then snd (hw_readl p CAN_STA_ADDR (fst (snd (snd c))))
      else fst (snd (snd c)))"
  by (simp add: err_bus_error_def split_beta Let_def)

lemma err_arb_lost_hw [simp]:
  "fst (snd (snd (err_arb_lost p h isrc c))) =
     (if isrc_has isrc (ARB_LOST h) then snd (hw_readl p CAN_STA_ADDR (fst (snd (snd c))))
      else fst (snd (snd c)))"
  by (simp add: err_arb_lost_def split_beta Let_def)

lemma err_ctx0_simps [simp]:
  "fst (err_ctx0 p s) = state (snd s)"
  "data (fst (snd (err_ctx0 p s))) = replicate 8 0"
  "can_id (fst (snd (err_ctx0 p s))) = CAN_ERR_FLAG"
  "can_dlc (fst (snd (err_ctx0 p s))) = CAN_ERR_DLC"
  "fst (snd (snd (err_ctx0 p s))) = snd (k_alloc_can_err_skb p (fst s))"
  "snd (snd (snd (err_ctx0 p s))) = snd s"
  by (simp_all add: err_ctx0_def zero_frame_def)

lemma sunxi_can_err_fail:
  assumes "\<not> fst (k_alloc_can_err_skb p (fst s))"
  shows "sunxi_can_err p h isrc status s = (- ENOMEM, (snd (k_alloc_can_err_skb p (fst s)), snd s))"
  using assms by (simp add: sunxi_can_err_def alloc_can_err_skb_def split_beta)

lemma sunxi_can_err_ok:
  assumes "fst (k_alloc_can_err_skb p (fst s))"
  shows "fst (sunxi_can_err p h isrc status s) = 0"
    and "err_frame p h isrc status s = fst (snd (err_steps p h isrc status (err_ctx0 p s)))"
    and "state (snd (snd (sunxi_can_err p h isrc status s))) =
           fst (err_steps p h isrc status (err_ctx0 p s))"
    and "can_stats (snd (snd (sunxi_can_err p h isrc status s))) =
           can_stats (snd (snd (snd (err_steps p h isrc status (err_ctx0 p s)))))"
    and "tx_errors (stats (snd (snd (sunxi_can_err p h isrc status s)))) =
           tx_errors (stats (snd (snd (snd (err_steps p h isrc status (err_ctx0 p s))))))"
    and "io_log (snd (snd (sunxi_can_err p h isrc status s))) =
           io_log (snd (snd (snd (err_steps p h isrc status (err_ctx0 p s)))))"
    and "carrier_ok (snd (snd (sunxi_can_err p h isrc status s))) =
           carrier_ok (snd (snd (snd (err_steps p h isrc status (err_ctx0 p s)))))"
  using assms
  by (simp_all add: sunxi_can_err_def err_frame_def alloc_can_err_skb_def split_beta err_ctx0_def)

lemma err_bus_error_subtype:
  assumes be: "isrc_has isrc (BUS_ERR h)" and ok: "fst (k_alloc_can_err_skb p (fst s))"
  shows "data (err_frame p h isrc status s) ! 2 =
           (if fst (hw_readl p CAN_STA_ADDR (hw_at_ecc p h isrc (fst s))) AND BIT_ERR h \<noteq> 0
              then CAN_ERR_PROT_BIT
            else if fst (hw_readl p CAN_STA_ADDR (hw_at_ecc p h isrc (fst s))) AND FORM_ERR h \<noteq> 0
              then CAN_ERR_PROT_FORM
            else if fst (hw_readl p CAN_STA_ADDR (hw_at_ecc p h isrc (fst s))) AND STUFF_ERR h \<noteq> 0
              then CAN_ERR_PROT_STUFF
            else CAN_ERR_PROT_UNSPEC)
           OR (if fst (hw_readl p CAN_STA_ADDR (hw_at_ecc p h isrc (fst s))) AND ERR_DIR h = 0
               then CAN_ERR_PROT_TX else 0)"
    and "data (err_frame p h isrc status s) ! 3 =
           (if fst (hw_readl p CAN_STA_ADDR (hw_at_ecc p h isrc (fst s))) AND BIT_ERR h = 0 \<and>
               fst (hw_readl p CAN_STA_ADDR (hw_at_ecc p h isrc (fst s))) AND FORM_ERR h = 0 \<and>
               fst (hw_readl p CAN_STA_ADDR (hw_at_ecc p h isrc (fst s))) AND STUFF_ERR h = 0
            then ucast (drop_bit 16
                   (fst (hw_readl p CAN_STA_ADDR (hw_at_ecc p h isrc (fst s))) AND ERR_SEG_CODE h))
            else 0)"
proof -
  let ?c = "err_warning h isrc status (err_data_overrun p h isrc (err_ctx0 p s))"
  have hw: "fst (snd (snd ?c)) = hw_at_ecc p h isrc (fst s)"
    by (simp add: hw_at_ecc_def)
  have pre: "3 < length (data (fst (snd ?c)))" "data (fst (snd ?c)) ! 2 = 0" "data (fst (snd ?c)) ! 3 = 0"
    by simp_all
  note d = err_bus_error_data [OF be pre(1,2), of p, unfolded hw pre(3)]
  show "data (err_frame p h isrc status s) ! 2 =
           (if fst (hw_readl p CAN_STA_ADDR (hw_at_ecc p h isrc (fst s))) AND BIT_ERR h \<noteq> 0
              then CAN_ERR_PROT_BIT
            else if fst (hw_readl p CAN_STA_ADDR (hw_at_ecc p h isrc (fst s))) AND FORM_ERR h \<noteq> 0
              then CAN_ERR_PROT_FORM
            else if fst (hw_readl p CAN_STA_ADDR (hw_at_ecc p h isrc (fst s))) AND STUFF_ERR h \<noteq> 0
              then CAN_ERR_PROT_STUFF
            else CAN_ERR_PROT_UNSPEC)
           OR (if fst (hw_readl p CAN_STA_ADDR (hw_at_ecc p h isrc (fst s))) AND ERR_DIR h = 0
               then CAN_ERR_PROT_TX else 0)"
    by (simp only: sunxi_can_err_ok(2) [OF ok] err_steps_def) (simp add: d(1))
  show "data (err_frame p h isrc status s) ! 3 =
           (if fst (hw_readl p CAN_STA_ADDR (hw_at_ecc p h isrc (fst s))) AND BIT_ERR h = 0 \<and>
               fst (hw_readl p CAN_STA_ADDR (hw_at_ecc p h isrc (fst s))) AND FORM_ERR h = 0 \<and>
               fst (hw_readl p CAN_STA_ADDR (hw_at_ecc p h isrc (fst s))) AND STUFF_ERR h = 0
            then ucast (drop_bit 16
                   (fst (hw_readl p CAN_STA_ADDR (hw_at_ecc p h isrc (fst s))) AND ERR_SEG_CODE h))
            else 0)"
    by (simp only: sunxi_can_err_ok(2) [OF ok] err_steps_def) (simp add: d(2))
qed

lemma err_arb_lost_recorded:
  assumes al: "isrc_has isrc (ARB_LOST h)" and ok: "fst (k_alloc_can_err_skb p (fst s))"
  shows "arbitration_lost (can_stats (snd (snd (sunxi_can_err p h isrc status s)))) =
           arbitration_lost (can_stats (snd s)) + 1"
    and "tx_errors (stats (snd (snd (sunxi_can_err p h isrc status s)))) =
           tx_errors (stats (snd s)) + 1"
    and "data (err_frame p h isrc status s) ! 0 = 0"
  by (simp_all add: sunxi_can_err_ok [OF ok] err_steps_def err_arb_lost_sets [OF al])

lemma err_bus_off_again:
  assumes wrn: "isrc_has isrc (ERR_WRN h)" and bo: "isrc_has status (BUS_OFF h)"
    and ok: "fst (k_alloc_can_err_skb p (fst s))"
  shows "bus_off (can_stats (snd (snd (sunxi_can_err p h isrc status s)))) =
           bus_off (can_stats (snd s)) + 1"
    and "\<not> carrier_ok (snd (snd (sunxi_can_err p h isrc status s)))"
    and "state (snd (snd (sunxi_can_err p h isrc status s))) =
           (if isrc_has isrc (ERR_PASSIVE h)
            then if isrc_has status (ERR_STA h) then CAN_STATE_ERROR_PASSIVE
                 else CAN_STATE_ERROR_ACTIVE
            else CAN_STATE_BUS_OFF)"
  using wrn bo by (simp_all add: sunxi_can_err_ok [OF ok] err_steps_def)

lemma err_state_change_counters:
  fixes p :: "'w platform"
  assumes ch: "state (snd (snd (sunxi_can_err p h isrc status s))) \<noteq> state (snd s)"
    and wp: "state (snd (snd (sunxi_can_err p h isrc status s))) = CAN_STATE_ERROR_WARNING \<or>
             state (snd (snd (sunxi_can_err p h isrc status s))) = CAN_STATE_ERROR_PASSIVE"
  shows "io_log (snd (snd (sunxi_can_err p h isrc status s))) =
           butlast (butlast (io_log (snd (snd (sunxi_can_err p h isrc status s))))) @
             [Readl CAN_ERRC_ADDR (fst (hw_readl p CAN_ERRC_ADDR (hw_at_errc p h isrc (fst s)))),
              Readl CAN_ERRC_ADDR (fst (hw_readl p CAN_ERRC_ADDR
                 (snd (hw_readl p CAN_ERRC_ADDR (hw_at_errc p h isrc (fst s))))))]"
    and "data (err_frame p h isrc status s) ! 1 =
           (if state (snd (snd (sunxi_can_err p h isrc status s))) = CAN_STATE_ERROR_WARNING
            then if errc_rxerr (fst (hw_readl p CAN_ERRC_ADDR (hw_at_errc p h isrc (fst s))))
                    < errc_txerr (fst (hw_readl p CAN_ERRC_ADDR
                        (snd (hw_readl p CAN_ERRC_ADDR (hw_at_errc p h isrc (fst s))))))
                 then CAN_ERR_CRTL_TX_WARNING else CAN_ERR_CRTL_RX_WARNING
            else if errc_rxerr (fst (hw_readl p CAN_ERRC_ADDR (hw_at_errc p h isrc (fst s))))
                    < errc_txerr (fst (hw_readl p CAN_ERRC_ADDR
                        (snd (hw_readl p CAN_ERRC_ADDR (hw_at_errc p h isrc (fst s))))))
                 then CAN_ERR_CRTL_TX_PASSIVE else CAN_ERR_CRTL_RX_PASSIVE)"
    and "data (err_frame p h isrc status s) ! 6 =
           errc_txerr (fst (hw_readl p CAN_ERRC_ADDR
              (snd (hw_readl p CAN_ERRC_ADDR (hw_at_errc p h isrc (fst s))))))"
    and "data (err_frame p h isrc status s) ! 7 =
           errc_rxerr (fst (hw_readl p CAN_ERRC_ADDR (hw_at_errc p h isrc (fst s))))"
    and "error_warning (can_stats (snd (snd (sunxi_can_err p h isrc status s)))) =
           (if state (snd (snd (sunxi_can_err p h isrc status s))) = CAN_STATE_ERROR_WARNING
            then error_warning (can_stats (snd s)) + 1 else error_warning (can_stats (snd s)))"
    and "error_passive (can_stats (snd (snd (sunxi_can_err p h isrc status s)))) =
           (if state (snd (snd (sunxi_can_err p h isrc status s))) = CAN_STATE_ERROR_PASSIVE
            then error_passive (can_stats (snd s)) + 1 else error_passive (can_stats (snd s)))"
proof -
  have ok: "fst (k_alloc_can_err_skb p (fst s))"
    using ch by (rule contrapos_np) (simp add: sunxi_can_err_fail)
  let ?c = "err_arb_lost p h isrc (err_passive h isrc status (err_bus_error p h isrc
              (err_warning h isrc status (err_data_overrun p h isrc (err_ctx0 p s)))))"
  have st: "state (snd (snd (sunxi_can_err p h isrc status s))) = fst ?c"
    by (simp add: sunxi_can_err_ok(3) [OF ok] err_steps_def)
  have dev: "state (snd (snd (snd ?c))) = state (snd s)" by simp
  have len: "length (data (fst (snd ?c))) = 8" by simp
  have hw: "fst (snd (snd ?c)) = hw_at_errc p h isrc (fst s)"
    by (simp add: hw_at_errc_def hw_at_ecc_def Let_def)
  have a1: "fst ?c \<noteq> state (snd (snd (snd ?c)))" using ch unfolding st dev .
  have a2: "fst ?c = CAN_STATE_ERROR_WARNING \<or> fst ?c = CAN_STATE_ERROR_PASSIVE"
    using wp unfolding st .
  note t = err_state_change_taken [OF a1 a2 len, of p, unfolded hw]
  have ew: "error_warning (can_stats (snd (snd (snd ?c)))) = error_warning (can_stats (snd s))"
    and ep: "error_passive (can_stats (snd (snd (snd ?c)))) = error_passive (can_stats (snd s))"
    by simp_all
  have frame: "err_frame p h isrc status s = fst (snd (err_state_change p ?c))"
    by (simp add: sunxi_can_err_ok(2) [OF ok] err_steps_def)
  have log: "io_log (snd (snd (sunxi_can_err p h isrc status s))) =
             io_log (snd (snd (snd (err_state_change p ?c))))"
    by (simp add: sunxi_can_err_ok(6) [OF ok] err_steps_def)
  have cs: "can_stats (snd (snd (sunxi_can_err p h isrc status s))) =
             can_stats (snd (snd (snd (err_state_change p ?c))))"
    by (simp add: sunxi_can_err_ok(4) [OF ok] err_steps_def)
  show "io_log (snd (snd (sunxi_can_err p h isrc status s))) =
           butlast (butlast (io_log (snd (snd (sunxi_can_err p h isrc status s))))) @
             [Readl CAN_ERRC_ADDR (fst (hw_readl p CAN_ERRC_ADDR (hw_at_errc p h isrc (fst s)))),
              Readl CAN_ERRC_ADDR (fst (hw_readl p CAN_ERRC_ADDR
                 (snd (hw_readl p CAN_ERRC_ADDR (hw_at_errc p h isrc (fst s))))))]"
    unfolding log t(1) by (simp add: butlast_append)
  show "data (err_frame p h isrc status s) ! 1 =
           (if state (snd (snd (sunxi_can_err p h isrc status s))) = CAN_STATE_ERROR_WARNING
            then if errc_rxerr (fst (hw_readl p CAN_ERRC_ADDR (hw_at_errc p h isrc (fst s))))
                    < errc_txerr (fst (hw_readl p CAN_ERRC_ADDR
                        (snd (hw_readl p CAN_ERRC_ADDR (hw_at_errc p h isrc (fst s))))))
                 then CAN_ERR_CRTL_TX_WARNING else CAN_ERR_CRTL_RX_WARNING
            else if errc_rxerr (fst (hw_readl p CAN_ERRC_ADDR (hw_at_errc p h isrc (fst s))))
                    < errc_txerr (fst (hw_readl p CAN_ERRC_ADDR
                        (snd (hw_readl p CAN_ERRC_ADDR (hw_at_errc p h isrc (fst s))))))
                 then CAN_ERR_CRTL_TX_PASSIVE else CAN_ERR_CRTL_RX_PASSIVE)"
    unfolding frame st by (rule t(2))
  show "data (err_frame p h isrc status s) ! 6 =
           errc_txerr (fst (hw_readl p CAN_ERRC_ADDR
              (snd (hw_readl p CAN_ERRC_ADDR (hw_at_errc p h isrc (fst s))))))"
    unfolding frame by (rule t(3))
  show "data (err_frame p h isrc status s) ! 7 =
           errc_rxerr (fst (hw_readl p CAN_ERRC_ADDR (hw_at_errc p h isrc (fst s))))"
    unfolding frame by (rule t(4))
  show "error_warning (can_stats (snd (snd (sunxi_can_err p h isrc status s)))) =
           (if state (snd (snd (sunxi_can_err p h isrc status s))) = CAN_STATE_ERROR_WARNING
            then error_warning (can_stats (snd s)) + 1 else error_warning (can_stats (snd s)))"
    unfolding cs st t(6) ew ..
  show "error_passive (can_stats (snd (snd (sunxi_can_err p h isrc status s)))) =
           (if state (snd (snd (sunxi_can_err p h isrc status s))) = CAN_STATE_ERROR_PASSIVE
            then error_passive (can_stats (snd s)) + 1 else error_passive (can_stats (snd s)))"
    unfolding cs st t(7) ep ..
qed

section \<open>Error state machine: claims\<close>

lemma stuck_hw_simps [simp]:
  "hw_readl (stuck_hw regs ok) r w = (regs r, w)"
  "hw_writel (stuck_hw regs ok) v r w = w"
  "hw_udelay (stuck_hw regs ok) us w = w"
  "k_alloc_can_skb (stuck_hw regs ok) w = (ok, w)"
  "k_alloc_can_err_skb (stuck_hw regs ok) w = (ok, w)"
  by (simp_all add: stuck_hw_def)

lemma example_h_simps [simp]:
  "RESET_MODE example_h = 0x01" "RBUF_RDY example_h = 0x01"
  "BUS_OFF example_h = 0x80" "ERR_STA example_h = 0x40"
  "BIT_ERR example_h = 0x400000" "FORM_ERR example_h = 0x800000"
  "STUFF_ERR example_h = 0x1000000" "ERR_DIR example_h = 0x200000"
  "ERR_SEG_CODE example_h = 0x1F0000"
  "BUS_ERR example_h = 0x80" "ARB_LOST example_h = 0x40" "ERR_PASSIVE example_h = 0x20"
  "WAKEUP example_h = 0x10" "DATA_ORUNI example_h = 0x08" "ERR_WRN example_h = 0x04"
  "TBUF_VLD example_h = 0x02" "RBUF_VLD example_h = 0x01"
  by (simp_all add: example_h_def)

text \<open>
  Claim C8. When the bus-error interrupt bit is set and the error frame is allocated,
  byte 2 of the frame is one protocol-error subtype, chosen by testing the status
  register read into \<open>ecc\<close> in the order bit error, form error, stuff error, unspecified,
  together with the transmit flag when the direction bit is clear; byte 3 holds the
  segment code in the unspecified case only. With bit error and form error both shown,
  the subtype is bit error.
\<close>

theorem bus_error_subtype_priority:
  assumes "isrc_has isrc (BUS_ERR h)" and "fst (k_alloc_can_err_skb p (fst s))"
  shows "data (err_frame p h isrc status s) ! 2 =
           (if fst (hw_readl p CAN_STA_ADDR (hw_at_ecc p h isrc (fst s))) AND BIT_ERR h \<noteq> 0
              then CAN_ERR_PROT_BIT
            else if fst (hw_readl p CAN_STA_ADDR (hw_at_ecc p h isrc (fst s))) AND FORM_ERR h \<noteq> 0
              then CAN_ERR_PROT_FORM
            else if fst (hw_readl p CAN_STA_ADDR (hw_at_ecc p h isrc (fst s))) AND STUFF_ERR h \<noteq> 0
              then CAN_ERR_PROT_STUFF
            else CAN_ERR_PROT_UNSPEC)
           OR (if fst (hw_readl p CAN_STA_ADDR (hw_at_ecc p h isrc (fst s))) AND ERR_DIR h = 0
               then CAN_ERR_PROT_TX else 0) \<and>
         data (err_frame p h isrc status s) ! 3 =
           (if fst (hw_readl p CAN_STA_ADDR (hw_at_ecc p h isrc (fst s))) AND BIT_ERR h = 0 \<and>
               fst (hw_readl p CAN_STA_ADDR (hw_at_ecc p h isrc (fst s))) AND FORM_ERR h = 0 \<and>
               fst (hw_readl p CAN_STA_ADDR (hw_at_ecc p h isrc (fst s))) AND STUFF_ERR h = 0
            then ucast (drop_bit 16
                   (fst (hw_readl p CAN_STA_ADDR (hw_at_ecc p h isrc (fst s))) AND ERR_SEG_CODE h))
            else 0)"
  using err_bus_error_subtype [OF assms] by (intro conjI)

theorem bus_error_subtype_priority_witness:
  "isrc_has 0x80 (BUS_ERR example_h) \<and>
   fst (k_alloc_can_err_skb (stuck_hw (\<lambda>r. 0xE00000) True) ()) \<and>
   (0xE00000 :: u32) AND BIT_ERR example_h \<noteq> 0 \<and> (0xE00000 :: u32) AND FORM_ERR example_h \<noteq> 0 \<and>
   data (err_frame (stuck_hw (\<lambda>r. 0xE00000) True) example_h 0x80 0 ((), idle_dev)) ! 2
     = CAN_ERR_PROT_BIT \<and>
   data (err_frame (stuck_hw (\<lambda>r. 0xE00000) True) example_h 0x80 0 ((), idle_dev)) ! 3 = 0"
  using bus_error_subtype_priority
    [of "0x80" example_h "stuck_hw (\<lambda>r. 0xE00000) True" "((), idle_dev)" 0]
  by (simp add: isrc_has_def hw_at_ecc_def CAN_ERR_PROT_BIT_def)

text \<open>
  Claim C9. When the arbitration-lost interrupt bit is set and the error frame is
  allocated, the arbitration-lost counter and \<open>tx_errors\<close> each go up by one. Byte 0 of
  the frame is \<open>(alc & 0x1f) >> 8\<close>, which is 0 whatever the register holds: the position
  of the lost bit is not recorded.
\<close>

theorem arb_lost_recording:
  assumes "isrc_has isrc (ARB_LOST h)" and "fst (k_alloc_can_err_skb p (fst s))"
  shows "arbitration_lost (can_stats (snd (snd (sunxi_can_err p h isrc status s)))) =
           arbitration_lost (can_stats (snd s)) + 1 \<and>
         tx_errors (stats (snd (snd (sunxi_can_err p h isrc status s)))) =
           tx_errors (stats (snd s)) + 1 \<and>
         data (err_frame p h isrc status s) ! 0 = 0"
  using err_arb_lost_recorded [OF assms] by (intro conjI)

theorem arb_lost_recording_witness:
  "isrc_has 0x40 (ARB_LOST example_h) \<and>
   fst (k_alloc_can_err_skb (stuck_hw (\<lambda>r. 0x0505) True) ()) \<and>
   arbitration_lost (can_stats (snd (snd
      (sunxi_can_err (stuck_hw (\<lambda>r. 0x0505) True) example_h 0x40 0 ((), idle_dev))))) = 1 \<and>
   tx_errors (stats (snd (snd
      (sunxi_can_err (stuck_hw (\<lambda>r. 0x0505) True) example_h 0x40 0 ((), idle_dev))))) = 1 \<and>
   data (err_frame (stuck_hw (\<lambda>r. 0x0505) True) example_h 0x40 0 ((), idle_dev)) ! 0 = 0"
  using arb_lost_recording
    [of "0x40" example_h "stuck_hw (\<lambda>r. 0x0505) True" "((), idle_dev)" 0]
  by (simp add: isrc_has_def idle_dev_def)

text \<open>
  Claim C5. The bus-off block of \<^verbatim>\<open>sunxi_can_err\<close> does not look at the state the device
  is in. Whenever the snapshot has the error-warning bit set with bus-off in the status
  and the error frame is allocated, whatever the state before and so also on a device
  that is already bus-off, \<^verbatim>\<open>can_bus_off\<close> is called: the bus-off counter goes up by one
  and the carrier is set off once more. The state written back is bus-off, or what the
  error-passive block chose after it when that bit is set in the same snapshot. On a
  device that is bus-off with one notification counted, a further error-warning
  interrupt with bus-off status counts a second one.
\<close>

theorem bus_off_repeated:
  assumes "isrc_has isrc (ERR_WRN h)" and "isrc_has status (BUS_OFF h)"
    and "fst (k_alloc_can_err_skb p (fst s))"
  shows "bus_off (can_stats (snd (snd (sunxi_can_err p h isrc status s)))) =
           bus_off (can_stats (snd s)) + 1 \<and>
         \<not> carrier_ok (snd (snd (sunxi_can_err p h isrc status s))) \<and>
         state (snd (snd (sunxi_can_err p h isrc status s))) =
           (if isrc_has isrc (ERR_PASSIVE h)
            then if isrc_has status (ERR_STA h) then CAN_STATE_ERROR_PASSIVE
                 else CAN_STATE_ERROR_ACTIVE
            else CAN_STATE_BUS_OFF)"
  using err_bus_off_again [OF assms] by (intro conjI)

theorem bus_off_repeated_witness:
  "state busoff_dev = CAN_STATE_BUS_OFF \<and> bus_off (can_stats busoff_dev) = 1 \<and>
   isrc_has 0x04 (ERR_WRN example_h) \<and> isrc_has 0x80 (BUS_OFF example_h) \<and>
   fst (k_alloc_can_err_skb (stuck_hw (\<lambda>r. 0) True) ()) \<and>
   bus_off (can_stats (snd (snd
     (sunxi_can_err (stuck_hw (\<lambda>r. 0) True) example_h 0x04 0x80 ((), busoff_dev))))) = 2 \<and>
   \<not> carrier_ok (snd (snd
     (sunxi_can_err (stuck_hw (\<lambda>r. 0) True) example_h 0x04 0x80 ((), busoff_dev)))) \<and>
   state (snd (snd
     (sunxi_can_err (stuck_hw (\<lambda>r. 0) True) example_h 0x04 0x80 ((), busoff_dev))))
     = CAN_STATE_BUS_OFF \<and>
   isrc_has 0x24 (ERR_WRN example_h) \<and> isrc_has 0xC0 (BUS_OFF example_h) \<and>
   bus_off (can_stats (snd (snd
     (sunxi_can_err (stuck_hw (\<lambda>r. 0) True) example_h 0x24 0xC0 ((), busoff_dev))))) = 2 \<and>
   state (snd (snd
     (sunxi_can_err (stuck_hw (\<lambda>r. 0) True) example_h 0x24 0xC0 ((), busoff_dev))))
     = CAN_STATE_ERROR_PASSIVE"
  using bus_off_repeated
    [of "0x04" example_h "0x80" "stuck_hw (\<lambda>r. 0) True" "((), busoff_dev)"]
    bus_off_repeated
    [of "0x24" example_h "0xC0" "stuck_hw (\<lambda>r. 0) True" "((), busoff_dev)"]
  by (simp add: isrc_has_def busoff_dev_def idle_dev_def)

text \<open>
  Claim C6. When \<^verbatim>\<open>sunxi_can_err\<close> leaves the device in a state that differs from the one
  before and is error-warning or error-passive, its last two bus accesses are reads of
  the error counter register; \<open>rxerr\<close> is bits 16 to 23 of the first, \<open>txerr\<close> bits 0 to 7
  of the second. Byte 1 of the frame is the transmit subtype exactly when
  \<open>txerr > rxerr\<close> and the receive subtype otherwise, byte 6 is \<open>txerr\<close>, byte 7 is
  \<open>rxerr\<close>, and the warning or passive counter that matches the new state goes up by one.
\<close>

theorem warning_passive_tie_break:
  fixes p :: "'w platform"
  assumes "state (snd (snd (sunxi_can_err p h isrc status s))) \<noteq> state (snd s)"
    and "state (snd (snd (sunxi_can_err p h isrc status s))) = CAN_STATE_ERROR_WARNING \<or>
         state (snd (snd (sunxi_can_err p h isrc status s))) = CAN_STATE_ERROR_PASSIVE"
  shows "(\<exists>pre. io_log (snd (snd (sunxi_can_err p h isrc status s))) =
           pre @
             [Readl CAN_ERRC_ADDR (fst (hw_readl p CAN_ERRC_ADDR (hw_at_errc p h isrc (fst s)))),
              Readl CAN_ERRC_ADDR (fst (hw_readl p CAN_ERRC_ADDR
                 (snd (hw_readl p CAN_ERRC_ADDR (hw_at_errc p h isrc (fst s))))))]) \<and>
         data (err_frame p h isrc status s) ! 1 =
           (if state (snd (snd (sunxi_can_err p h isrc status s))) = CAN_STATE_ERROR_WARNING
            then if errc_rxerr (fst (hw_readl p CAN_ERRC_ADDR (hw_at_errc p h isrc (fst s))))
                    < errc_txerr (fst (hw_readl p CAN_ERRC_ADDR
                        (snd (hw_readl p CAN_ERRC_ADDR (hw_at_errc p h isrc (fst s))))))
                 then CAN_ERR_CRTL_TX_WARNING else CAN_ERR_CRTL_RX_WARNING
            else if errc_rxerr (fst (hw_readl p CAN_ERRC_ADDR (hw_at_errc p h isrc (fst s))))
                    < errc_txerr (fst (hw_readl p CAN_ERRC_ADDR
                        (snd (hw_readl p CAN_ERRC_ADDR (hw_at_errc p h isrc (fst s))))))
                 then CAN_ERR_CRTL_TX_PASSIVE else CAN_ERR_CRTL_RX_PASSIVE) \<and>
         data (err_frame p h isrc status s) ! 6 =
           errc_txerr (fst (hw_readl p CAN_ERRC_ADDR
              (snd (hw_readl p CAN_ERRC_ADDR (hw_at_errc p h isrc (fst s)))))) \<and>
         data (err_frame p h isrc status s) ! 7 =
           errc_rxerr (fst (hw_readl p CAN_ERRC_ADDR (hw_at_errc p h isrc (fst s)))) \<and>
         error_warning (can_stats (snd (snd (sunxi_can_err p h isrc status s)))) =
           (if state (snd (snd (sunxi_can_err p h isrc status s))) = CAN_STATE_ERROR_WARNING
            then error_warning (can_stats (snd s)) + 1 else error_warning (can_stats (snd s))) \<and>
         error_passive (can_stats (snd (snd (sunxi_can_err p h isrc status s)))) =
           (if state (snd (snd (sunxi_can_err p h isrc status s))) = CAN_STATE_ERROR_PASSIVE
            then error_passive (can_stats (snd s)) + 1 else error_passive (can_stats (snd s)))"
  using err_state_change_counters [OF assms]
  by (intro conjI exI [of _ "butlast (butlast (io_log (snd (snd (sunxi_can_err p h isrc status s)))))"])

lemma stuck_err_state:
  "state (snd (snd (sunxi_can_err (stuck_hw regs True) h isrc status ((), d)))) =
     fst (err_steps (stuck_hw regs True) h isrc status (err_ctx0 (stuck_hw regs True) ((), d)))"
  by (rule sunxi_can_err_ok(3)) simp

theorem warning_passive_tie_break_witness:
  "state (snd (snd (sunxi_can_err (stuck_hw (\<lambda>r. 0x0005000A) True) example_h 0x04 0x40
      ((), idle_dev)))) \<noteq> state (snd ((), idle_dev)) \<and>
   state (snd (snd (sunxi_can_err (stuck_hw (\<lambda>r. 0x0005000A) True) example_h 0x04 0x40
      ((), idle_dev)))) = CAN_STATE_ERROR_WARNING \<and>
   errc_txerr 0x0005000A = 10 \<and> errc_rxerr 0x0005000A = 5 \<and>
   data (err_frame (stuck_hw (\<lambda>r. 0x0005000A) True) example_h 0x04 0x40 ((), idle_dev)) ! 1
     = CAN_ERR_CRTL_TX_WARNING \<and>
   data (err_frame (stuck_hw (\<lambda>r. 0x0005000A) True) example_h 0x04 0x40 ((), idle_dev)) ! 6 = 10 \<and>
   data (err_frame (stuck_hw (\<lambda>r. 0x0005000A) True) example_h 0x04 0x40 ((), idle_dev)) ! 7 = 5 \<and>
   error_warning (can_stats (snd (snd (sunxi_can_err (stuck_hw (\<lambda>r. 0x0005000A) True)
      example_h 0x04 0x40 ((), idle_dev))))) = 1 \<and>
   errc_txerr 0x000A0005 = 5 \<and> errc_rxerr 0x000A0005 = 10 \<and>
   data (err_frame (stuck_hw (\<lambda>r. 0x000A0005) True) example_h 0x04 0x40 ((), idle_dev)) ! 1
     = CAN_ERR_CRTL_RX_WARNING"
proof -
  have st: "state (snd (snd (sunxi_can_err (stuck_hw regs True) example_h 0x04 0x40
      ((), idle_dev)))) = CAN_STATE_ERROR_WARNING" for regs
    by (simp add: stuck_err_state err_steps_def isrc_has_def)
  have i: "state idle_dev = CAN_STATE_ERROR_ACTIVE"
    "error_warning (can_stats idle_dev) = 0"
    by (simp_all add: idle_dev_def)
  have v: "errc_txerr 0x0005000A = 10" "errc_rxerr 0x0005000A = 5"
    "errc_txerr 0x000A0005 = 5" "errc_rxerr 0x000A0005 = 10"
    by (simp_all add: errc_txerr_def errc_rxerr_def)
  show ?thesis
    using warning_passive_tie_break
      [of "stuck_hw (\<lambda>r. 0x0005000A) True" example_h "0x04" "0x40" "((), idle_dev)"]
      warning_passive_tie_break
      [of "stuck_hw (\<lambda>r. 0x000A0005) True" example_h "0x04" "0x40" "((), idle_dev)"]
    by (simp add: st i v)
qed

section \<open>Interrupt dispatcher: facts\<close>

declare irq_loop.simps [simp del]

lemma not_absent:
  assumes "\<forall>w. fst (hw_readl p CAN_MSEL_ADDR w) AND 0xFF \<noteq> 0xFF"
  shows "fst (sunxi_can_is_absent p s) = False"
  using assms by (simp add: sunxi_can_is_absent_def split_beta)

lemma rx_drain_not_gone:
  fixes p :: "'w platform"
  assumes na: "\<forall>w. fst (hw_readl p CAN_MSEL_ADDR w) AND 0xFF \<noteq> 0xFF"
    and r: "rx_drain p h status s = Some y"
  shows "\<not> fst y"
proof -
  have "(\<forall>w. fst (hw_readl p CAN_MSEL_ADDR w) AND 0xFF \<noteq> 0xFF) \<longrightarrow> \<not> fst y"
  proof (rule rx_drain.raw_induct
      [where P = "\<lambda>(p :: 'w platform) h status s y.
                    (\<forall>w. fst (hw_readl p CAN_MSEL_ADDR w) AND 0xFF \<noteq> 0xFF) \<longrightarrow> \<not> fst y",
        OF _ r])
    fix f and p :: "'w platform" and h status s y
    assume IH: "\<And>p h status s y. f p h status s = Some y \<Longrightarrow>
                  (\<forall>w. fst (hw_readl p CAN_MSEL_ADDR w) AND 0xFF \<noteq> 0xFF) \<longrightarrow> \<not> fst y"
      and eq: "(if isrc_has status (RBUF_RDY h)
                then let s1 = sunxi_can_rx p h s; (v, s2) = readl p CAN_STA_ADDR s1;
                         (absent, s3) = sunxi_can_is_absent p s2
                     in if absent then Some (True, ucast v, s3)
                        else f p h (ucast v) s3
                else Some (False, status, s)) = Some y"
    show "(\<forall>w. fst (hw_readl p CAN_MSEL_ADDR w) AND 0xFF \<noteq> 0xFF) \<longrightarrow> \<not> fst y"
    proof
      assume na': "\<forall>w. fst (hw_readl p CAN_MSEL_ADDR w) AND 0xFF \<noteq> 0xFF"
      show "\<not> fst y"
      proof (cases "isrc_has status (RBUF_RDY h)")
        case False
        with eq show ?thesis by auto
      next
        case True
        let ?s2 = "snd (readl p CAN_STA_ADDR (sunxi_can_rx p h s))"
        have "fst (sunxi_can_is_absent p ?s2) = False" using na' by (rule not_absent)
        with eq True
        have "f p h (ucast (fst (readl p CAN_STA_ADDR (sunxi_can_rx p h s))))
                (snd (sunxi_can_is_absent p ?s2)) = Some y"
          by (simp add: Let_def split_beta)
        from IH [OF this] na' show ?thesis by blast
      qed
    qed
  qed
  with na show ?thesis by blast
qed

lemma irq_body_continue:
  assumes na: "\<forall>w. fst (hw_readl p CAN_MSEL_ADDR w) AND 0xFF \<noteq> 0xFF"
    and al: "\<forall>w. fst (k_alloc_can_err_skb p w)"
    and dr: "\<forall>status s. rx_drain p h status s \<noteq> None"
  shows "\<exists>s'. irq_body p h isrc s = Some (Irq_continue s')"
proof -
  let ?s1 = "snd (readl p CAN_STA_ADDR s)"
  let ?v = "fst (readl p CAN_STA_ADDR s)"
  let ?s2 = "snd (sunxi_can_is_absent p ?s1)"
  let ?s3 = "if isrc_has isrc (WAKEUP h) then printk (Kmsg ''wakeup interrupt'') ?s2 else ?s2"
  let ?s4 = "if isrc_has isrc (TBUF_VLD h) then irq_tx_done p ?s3 else ?s3"
  let ?d = "if isrc_has isrc (RBUF_VLD h) then rx_drain p h (ucast ?v) ?s4
            else Some (False, ucast ?v, ?s4)"
  have a: "fst (sunxi_can_is_absent p ?s1) = False" using na by (rule not_absent)
  have dr': "rx_drain p h st t \<noteq> None" for st t using dr by blast
  have "?d \<noteq> None"
    by (cases "isrc_has isrc (RBUF_VLD h)") (simp_all add: dr')
  then obtain y where y: "?d = Some y" by blast
  have ng: "\<not> fst y"
    using y rx_drain_not_gone [OF na, of h "ucast ?v" ?s4 y]
    by (cases "isrc_has isrc (RBUF_VLD h)") auto
  have rc: "fst (sunxi_can_err p h isrc st t) = 0" for st t
    using al by (intro sunxi_can_err_ok(1)) simp
  have body: "irq_body p h isrc s =
        (case ?d of None \<Rightarrow> None
         | Some (gone, status, s5) \<Rightarrow>
             if gone then Some (Irq_return IRQ_NONE s5)
             else if isrc_has isrc (DATA_ORUNI h OR ERR_WRN h OR BUS_ERR h
                                    OR ERR_PASSIVE h OR ARB_LOST h) then
               (let (rc, s6) = sunxi_can_err p h isrc status s5
                in if rc \<noteq> 0 then Some (Irq_break s6)
                   else Some (Irq_continue (irq_ack p isrc s6)))
             else Some (Irq_continue (irq_ack p isrc s5)))"
    using a by (simp add: irq_body_def Let_def split_beta)
  show ?thesis
    unfolding body y using ng rc
    by (cases y) (auto simp: split_beta)
qed

lemma irq_loop_full:
  assumes nz: "\<forall>w. (ucast (fst (hw_readl p CAN_INT_ADDR w)) :: u8) \<noteq> 0"
    and na: "\<forall>w. fst (hw_readl p CAN_MSEL_ADDR w) AND 0xFF \<noteq> 0xFF"
    and al: "\<forall>w. fst (k_alloc_can_err_skb p w)"
    and dr: "\<forall>status s. rx_drain p h status s \<noteq> None"
  shows "n + k = SUNXI_CAN_MAX_IRQ \<Longrightarrow> \<exists>s'. irq_loop p h n s = Some (None, SUNXI_CAN_MAX_IRQ, s')"
proof (induction k arbitrary: n s)
  case 0
  then show ?case by (subst irq_loop.simps) simp
next
  case (Suc k)
  then have n: "n < SUNXI_CAN_MAX_IRQ" by simp
  have isrc: "(ucast (fst (readl p CAN_INT_ADDR s)) :: u8) \<noteq> 0" using nz by simp
  obtain s2 where b: "irq_body p h (ucast (fst (readl p CAN_INT_ADDR s)))
                        (snd (readl p CAN_INT_ADDR s)) = Some (Irq_continue s2)"
    using irq_body_continue [OF na al dr] by blast
  have "irq_loop p h n s = irq_loop p h (n + 1) s2"
    using n isrc b by (subst irq_loop.simps) simp
  moreover have "\<exists>s'. irq_loop p h (n + 1) s2 = Some (None, SUNXI_CAN_MAX_IRQ, s')"
    using Suc.prems by (intro Suc.IH) simp
  ultimately show ?case by simp
qed


lemma irq_body_no_return:
  assumes na: "\<forall>w. fst (hw_readl p CAN_MSEL_ADDR w) AND 0xFF \<noteq> 0xFF"
    and b: "irq_body p h isrc s = Some r"
  shows "r \<noteq> Irq_return ret t"
proof -
  let ?s1 = "snd (readl p CAN_STA_ADDR s)"
  let ?v = "fst (readl p CAN_STA_ADDR s)"
  let ?s2 = "snd (sunxi_can_is_absent p ?s1)"
  let ?s3 = "if isrc_has isrc (WAKEUP h) then printk (Kmsg ''wakeup interrupt'') ?s2 else ?s2"
  let ?s4 = "if isrc_has isrc (TBUF_VLD h) then irq_tx_done p ?s3 else ?s3"
  let ?d = "if isrc_has isrc (RBUF_VLD h) then rx_drain p h (ucast ?v) ?s4
            else Some (False, ucast ?v, ?s4)"
  have a: "fst (sunxi_can_is_absent p ?s1) = False" using na by (rule not_absent)
  have body: "irq_body p h isrc s =
        (case ?d of None \<Rightarrow> None
         | Some (gone, status, s5) \<Rightarrow>
             if gone then Some (Irq_return IRQ_NONE s5)
             else if isrc_has isrc (DATA_ORUNI h OR ERR_WRN h OR BUS_ERR h
                                    OR ERR_PASSIVE h OR ARB_LOST h) then
               (let (rc, s6) = sunxi_can_err p h isrc status s5
                in if rc \<noteq> 0 then Some (Irq_break s6)
                   else Some (Irq_continue (irq_ack p isrc s6)))
             else Some (Irq_continue (irq_ack p isrc s5)))"
    using a by (simp add: irq_body_def Let_def split_beta)
  from b obtain y where y: "?d = Some y"
    unfolding body by (cases ?d) simp_all
  have ng: "\<not> fst y"
    using y rx_drain_not_gone [OF na, of h "ucast ?v" ?s4 y]
    by (cases "isrc_has isrc (RBUF_VLD h)") auto
  show ?thesis
    using b ng unfolding body y
    by (cases y) (auto simp: split_beta split: if_splits)
qed

lemma irq_loop_result:
  fixes p :: "'w platform"
  assumes na: "\<forall>w. fst (hw_readl p CAN_MSEL_ADDR w) AND 0xFF \<noteq> 0xFF"
  shows "k = SUNXI_CAN_MAX_IRQ - n \<Longrightarrow> irq_loop p h n s = Some (ro, m, s') \<Longrightarrow>
         ro = None \<and>
         (if (ucast (fst (hw_readl p CAN_INT_ADDR (fst s))) :: u8) \<noteq> 0 \<and> n < SUNXI_CAN_MAX_IRQ
          then n < m else m = n)"
proof (induction k arbitrary: n s)
  case 0
  then have "\<not> n < SUNXI_CAN_MAX_IRQ" by simp
  with 0(2) show ?case by (subst (asm) irq_loop.simps) simp
next
  case (Suc k)
  then have n: "n < SUNXI_CAN_MAX_IRQ" by simp
  show ?case
  proof (cases "(ucast (fst (hw_readl p CAN_INT_ADDR (fst s))) :: u8) \<noteq> 0")
    case False
    with Suc.prems(2) show ?thesis by (subst (asm) irq_loop.simps) simp
  next
    case True
    let ?b = "irq_body p h (ucast (fst (readl p CAN_INT_ADDR s))) (snd (readl p CAN_INT_ADDR s))"
    have unf: "(case ?b of
           None \<Rightarrow> None
         | Some (Irq_return r s2) \<Rightarrow> Some (Some r, n + 1, s2)
         | Some (Irq_break s2) \<Rightarrow> Some (None, n + 1, s2)
         | Some (Irq_continue s2) \<Rightarrow> irq_loop p h (n + 1) s2) = Some (ro, m, s')"
      using Suc.prems(2) True n by (subst (asm) irq_loop.simps) simp
    then obtain r where r: "?b = Some r" by (cases ?b) simp_all
    have nr: "r \<noteq> Irq_return ret t" for ret t
      using irq_body_no_return [OF na r] .
    show ?thesis
    proof (cases r)
      case (Irq_return ret t)
      with nr show ?thesis by blast
    next
      case (Irq_break t)
      with unf r True n show ?thesis by simp
    next
      case (Irq_continue t)
      with unf r have rec: "irq_loop p h (n + 1) t = Some (ro, m, s')" by simp
      have "k = SUNXI_CAN_MAX_IRQ - (n + 1)" using Suc.prems(1) by simp
      from Suc.IH [OF this rec] have "ro = None" "n + 1 \<le> m"
        by (auto split: if_splits)
      with True n show ?thesis by simp
    qed
  qed
qed

lemma rx_drain_returns:
  fixes p :: "'w platform" and m :: "'w \<Rightarrow> nat"
  assumes dr: "rx_buffer_drains p h m"
  shows "rx_drain p h status s \<noteq> None"
proof -
  have "\<forall>status. rx_drain p h status s \<noteq> None"
  proof (induction "m (fst s)" arbitrary: s rule: less_induct)
    case less
    show ?case
    proof
      fix status
      let ?v = "fst (rx_pass p h s)"
      let ?s3 = "snd (rx_pass p h s)"
      show "rx_drain p h status s \<noteq> None"
      proof (cases "isrc_has status (RBUF_RDY h)")
        case False
        then show ?thesis by (subst rx_drain.simps) simp
      next
        case True
        then have unf: "rx_drain p h status s =
            (if fst (sunxi_can_is_absent p (snd (readl p CAN_STA_ADDR (sunxi_can_rx p h s))))
             then Some (True, ?v, ?s3) else rx_drain p h ?v ?s3)"
          by (subst rx_drain.simps) (simp add: rx_pass_def Let_def split_beta)
        have nn: "rx_drain p h ?v ?s3 \<noteq> None"
        proof (cases "isrc_has ?v (RBUF_RDY h)")
          case False
          then show ?thesis by (subst rx_drain.simps) simp
        next
          case True
          from dr [unfolded rx_buffer_drains_def, rule_format, OF True]
          have "m (fst ?s3) < m (fst s)" .
          from less.hyps [OF this] show ?thesis by blast
        qed
        show ?thesis unfolding unf using nn by (simp del: not_None_eq)
      qed
    qed
  qed
  then show ?thesis by blast
qed

lemma irq_body_returns:
  assumes dr: "\<And>status t. rx_drain p h status t \<noteq> None"
  shows "irq_body p h isrc s \<noteq> None"
proof -
  let ?s1 = "snd (readl p CAN_STA_ADDR s)"
  let ?v = "fst (readl p CAN_STA_ADDR s)"
  let ?s2 = "snd (sunxi_can_is_absent p ?s1)"
  let ?s3 = "if isrc_has isrc (WAKEUP h) then printk (Kmsg ''wakeup interrupt'') ?s2 else ?s2"
  let ?s4 = "if isrc_has isrc (TBUF_VLD h) then irq_tx_done p ?s3 else ?s3"
  let ?d = "if isrc_has isrc (RBUF_VLD h) then rx_drain p h (ucast ?v) ?s4
            else Some (False, ucast ?v, ?s4)"
  have "?d \<noteq> None"
    by (cases "isrc_has isrc (RBUF_VLD h)") (simp_all add: dr)
  then obtain y where y: "?d = Some y" by blast
  show ?thesis
  proof (cases "fst (sunxi_can_is_absent p ?s1)")
    case True
    then show ?thesis by (simp add: irq_body_def Let_def split_beta)
  next
    case False
    then have body: "irq_body p h isrc s =
        (case ?d of None \<Rightarrow> None
         | Some (gone, status, s5) \<Rightarrow>
             if gone then Some (Irq_return IRQ_NONE s5)
             else if isrc_has isrc (DATA_ORUNI h OR ERR_WRN h OR BUS_ERR h
                                    OR ERR_PASSIVE h OR ARB_LOST h) then
               (let (rc, s6) = sunxi_can_err p h isrc status s5
                in if rc \<noteq> 0 then Some (Irq_break s6)
                   else Some (Irq_continue (irq_ack p isrc s6)))
             else Some (Irq_continue (irq_ack p isrc s5)))"
      by (simp add: irq_body_def Let_def split_beta)
    show ?thesis
      unfolding body y by (cases y) (auto simp: split_beta)
  qed
qed

lemma irq_loop_returns:
  assumes dr: "\<And>status t. rx_drain p h status t \<noteq> None"
  shows "k = SUNXI_CAN_MAX_IRQ - n \<Longrightarrow> n \<le> SUNXI_CAN_MAX_IRQ \<Longrightarrow>
         \<exists>ro m s'. irq_loop p h n s = Some (ro, m, s') \<and> m \<le> SUNXI_CAN_MAX_IRQ"
proof (induction k arbitrary: n s)
  case 0
  then have "\<not> n < SUNXI_CAN_MAX_IRQ" by simp
  with 0 show ?case by (subst irq_loop.simps) simp
next
  case (Suc k)
  then have n: "n < SUNXI_CAN_MAX_IRQ" by simp
  show ?case
  proof (cases "(ucast (fst (readl p CAN_INT_ADDR s)) :: u8) \<noteq> 0")
    case False
    with n show ?thesis by (subst irq_loop.simps) simp
  next
    case True
    let ?b = "irq_body p h (ucast (fst (readl p CAN_INT_ADDR s))) (snd (readl p CAN_INT_ADDR s))"
    have unf: "irq_loop p h n s =
        (case ?b of
           None \<Rightarrow> None
         | Some (Irq_return r s2) \<Rightarrow> Some (Some r, n + 1, s2)
         | Some (Irq_break s2) \<Rightarrow> Some (None, n + 1, s2)
         | Some (Irq_continue s2) \<Rightarrow> irq_loop p h (n + 1) s2)"
      using True n by (subst irq_loop.simps) simp
    from irq_body_returns [OF dr] obtain r where r: "?b = Some r" by blast
    show ?thesis
    proof (cases r)
      case (Irq_return ret t)
      with unf r n show ?thesis by simp
    next
      case (Irq_break t)
      with unf r n show ?thesis by simp
    next
      case (Irq_continue t)
      with unf r have rec: "irq_loop p h n s = irq_loop p h (n + 1) t" by simp
      have "\<exists>ro m s'. irq_loop p h (n + 1) t = Some (ro, m, s') \<and> m \<le> SUNXI_CAN_MAX_IRQ"
        using Suc.prems n by (intro Suc.IH) simp_all
      with rec show ?thesis by simp
    qed
  qed
qed

lemma interrupt_returns:
  fixes p :: "'w platform" and m :: "'w \<Rightarrow> nat"
  assumes na: "\<forall>w. fst (hw_readl p CAN_MSEL_ADDR w) AND 0xFF \<noteq> 0xFF"
    and dr: "rx_buffer_drains p h m"
  shows "\<exists>n s'. irq_loop p h 0 s = Some (None, n, s') \<and> n \<le> 20 \<and>
           (0 < n \<longleftrightarrow> (ucast (fst (hw_readl p CAN_INT_ADDR (fst s))) :: u8) \<noteq> 0) \<and>
           sunxi_can_interrupt p h s = Some (if 0 < n then IRQ_HANDLED else IRQ_NONE, s')"
proof -
  have d: "rx_drain p h status t \<noteq> None" for status t
    using dr by (rule rx_drain_returns)
  from irq_loop_returns [OF d refl, of 0 s]
  obtain ro n s' where l: "irq_loop p h 0 s = Some (ro, n, s')" and b: "n \<le> 20"
    by (auto simp: SUNXI_CAN_MAX_IRQ_def)
  from irq_loop_result [OF na refl l]
  have ro: "ro = None"
    and n: "0 < n \<longleftrightarrow> (ucast (fst (hw_readl p CAN_INT_ADDR (fst s))) :: u8) \<noteq> 0"
    by (auto simp: SUNXI_CAN_MAX_IRQ_def split: if_splits)
  have "sunxi_can_interrupt p h s = Some (if 0 < n then IRQ_HANDLED else IRQ_NONE, s')"
    using l ro by (simp add: sunxi_can_interrupt_def)
  with l ro n b show ?thesis by blast
qed

lemma interrupt_full:
  fixes p :: "'w platform" and m :: "'w \<Rightarrow> nat"
  assumes nz: "\<forall>w. (ucast (fst (hw_readl p CAN_INT_ADDR w)) :: u8) \<noteq> 0"
    and na: "\<forall>w. fst (hw_readl p CAN_MSEL_ADDR w) AND 0xFF \<noteq> 0xFF"
    and al: "\<forall>w. fst (k_alloc_can_err_skb p w)"
    and dr: "rx_buffer_drains p h m"
  shows "\<exists>s'. irq_loop p h 0 s = Some (None, 20, s') \<and>
           sunxi_can_interrupt p h s = Some (IRQ_HANDLED, s')"
proof -
  have d: "\<forall>status t. rx_drain p h status t \<noteq> None"
    using rx_drain_returns [OF dr] by blast
  from irq_loop_full [OF nz na al d, of 0 SUNXI_CAN_MAX_IRQ s]
  obtain s1 where "irq_loop p h 0 s = Some (None, SUNXI_CAN_MAX_IRQ, s1)" by auto
  then show ?thesis
    by (intro exI [of _ s1]) (simp add: sunxi_can_interrupt_def SUNXI_CAN_MAX_IRQ_def)
qed

lemma rx_device_simps [simp]:
  "hw_readl (rx_device h) CAN_STA_ADDR w = (if 0 < pending w then RBUF_RDY h else 0, w)"
  "hw_readl (rx_device h) CAN_INT_ADDR w = (irq w, w)"
  "hw_readl (rx_device h) CAN_MSEL_ADDR w = (0, w)"
  "hw_readl (rx_device h) (CAN_BUF_ADDR k) w = (0, w)"
  "hw_writel (rx_device h) v CAN_CMD_ADDR w =
     (if v AND RELEASE_RBUF h \<noteq> 0 then w\<lparr>pending := pending w - 1\<rparr> else w)"
  "hw_writel (rx_device h) v CAN_INT_ADDR w = w\<lparr>irq := irq w AND NOT v\<rparr>"
  "k_alloc_can_skb (rx_device h) w =
     (failing w = 0, w\<lparr>failing := failing w - 1, allocs := allocs w + 1\<rparr>)"
  by (simp_all add: rx_device_def)

lemma example_h_cmd [simp]:
  "RELEASE_RBUF example_h = 0x04"
  by (simp add: example_h_def)

lemma rx_fails:
  assumes "failing w \<noteq> 0"
  shows "sunxi_can_rx (rx_device h) h (w, d) =
           (w\<lparr>failing := failing w - 1, allocs := allocs w + 1\<rparr>, d)"
  using assms by (simp add: sunxi_can_rx_def alloc_can_skb_def)

lemma rx_read_zero:
  "fst (rx_read_frame (rx_device h) zero_frame s) = zero_frame"
  "fst (snd (rx_read_frame (rx_device h) zero_frame s)) = fst s"
  "netif_rx_queue (snd (snd (rx_read_frame (rx_device h) zero_frame s))) = netif_rx_queue (snd s)"
  by (simp_all add: rx_read_frame_def Let_def split_beta get_can_dlc_def read_data_def
        zero_frame_def)

lemma rx_delivers:
  assumes "failing w = 0"
  shows "fst (sunxi_can_rx (rx_device example_h) example_h (w, d)) =
           w\<lparr>failing := 0, allocs := allocs w + 1, pending := pending w - 1\<rparr>"
    and "netif_rx_queue (snd (sunxi_can_rx (rx_device example_h) example_h (w, d))) =
           netif_rx_queue d @ [zero_frame]"
  using assms
  by (simp_all add: sunxi_can_rx_def alloc_can_skb_def split_beta Let_def rx_read_zero)

lemma not_absent_rx:
  "sunxi_can_is_absent (rx_device h) s = (False, snd (readl (rx_device h) CAN_MSEL_ADDR s))"
  by (simp add: sunxi_can_is_absent_def split_beta prod_eq_iff)

lemma rx_drain_retries:
  "pending w = 1 \<Longrightarrow> failing w = n \<Longrightarrow>
   \<exists>y. rx_drain (rx_device example_h) example_h 1 (w, d) = Some (False, 0, y) \<and>
       pending (fst y) = 0 \<and> failing (fst y) = 0 \<and> allocs (fst y) = allocs w + n + 1 \<and>
       irq (fst y) = irq w \<and> netif_rx_queue (snd y) = netif_rx_queue d @ [zero_frame]"
proof (induction n arbitrary: w d)
  case 0
  let ?s1 = "sunxi_can_rx (rx_device example_h) example_h (w, d)"
  let ?s3 = "snd (readl (rx_device example_h) CAN_MSEL_ADDR
               (snd (readl (rx_device example_h) CAN_STA_ADDR ?s1)))"
  have w1: "fst ?s1 = w\<lparr>failing := 0, allocs := allocs w + 1, pending := 0\<rparr>"
    using rx_delivers(1) [of w d] 0 by simp
  have q1: "netif_rx_queue (snd ?s1) = netif_rx_queue d @ [zero_frame]"
    using rx_delivers(2) [of w d] 0 by simp
  have "rx_drain (rx_device example_h) example_h 1 (w, d) =
        rx_drain (rx_device example_h) example_h 0 ?s3"
    by (subst rx_drain.simps) (simp add: isrc_has_def Let_def split_beta not_absent_rx w1)
  also have "\<dots> = Some (False, 0, ?s3)"
    by (subst rx_drain.simps) (simp add: isrc_has_def)
  finally show ?case
    by (simp add: w1 q1)
next
  case (Suc n)
  let ?w1 = "w\<lparr>failing := n, allocs := allocs w + 1\<rparr>"
  let ?s3 = "snd (readl (rx_device example_h) CAN_MSEL_ADDR
               (snd (readl (rx_device example_h) CAN_STA_ADDR (?w1, d))))"
  have s1: "sunxi_can_rx (rx_device example_h) example_h (w, d) = (?w1, d)"
    using rx_fails [of w example_h d] Suc.prems by simp
  have step: "rx_drain (rx_device example_h) example_h 1 (w, d) =
        rx_drain (rx_device example_h) example_h 1 ?s3"
    using Suc.prems
    by (subst rx_drain.simps) (simp add: isrc_has_def Let_def split_beta not_absent_rx s1)
  have f3: "fst ?s3 = ?w1" by simp
  have "pending (fst ?s3) = 1" "failing (fst ?s3) = n" using Suc.prems by simp_all
  from Suc.IH [of "fst ?s3" "snd ?s3", unfolded prod.collapse, OF this]
  show ?case unfolding step by (auto simp add: f3)
qed

lemma irq_body_rx_retries:
  assumes "pending w = 1" and "failing w = n" and "irq w = 1"
  shows "\<exists>y. irq_body (rx_device example_h) example_h 1 (w, d) = Some (Irq_continue y) \<and>
           pending (fst y) = 0 \<and> failing (fst y) = 0 \<and> allocs (fst y) = allocs w + n + 1 \<and>
           irq (fst y) = 0 \<and> netif_rx_queue (snd y) = netif_rx_queue d @ [zero_frame]"
proof -
  let ?p = "rx_device example_h"
  let ?s2 = "snd (readl ?p CAN_MSEL_ADDR (snd (readl ?p CAN_STA_ADDR (w, d))))"
  have f2: "fst ?s2 = w" by simp
  have q2: "netif_rx_queue (snd ?s2) = netif_rx_queue d" by simp
  from rx_drain_retries [of "fst ?s2" n "snd ?s2", unfolded prod.collapse] assms
  obtain y where y: "rx_drain ?p example_h 1 ?s2 = Some (False, 0, y)"
    and p: "pending (fst y) = 0" "failing (fst y) = 0" "allocs (fst y) = allocs w + n + 1"
      "irq (fst y) = 1" "netif_rx_queue (snd y) = netif_rx_queue d @ [zero_frame]"
    by (auto simp: f2)
  have "irq_body ?p example_h 1 (w, d) = Some (Irq_continue (irq_ack ?p 1 y))"
    using assms(1) y
    by (simp add: irq_body_def Let_def split_beta not_absent_rx isrc_has_def)
  moreover have "fst (irq_ack ?p 1 y) = (fst y)\<lparr>irq := 0\<rparr>"
    "snd (irq_ack ?p 1 y) = (snd y)\<lparr>io_log := io_log (snd y) @ [Writel 1 CAN_INT_ADDR, Readl CAN_INT_ADDR 0]\<rparr>"
    using p(4) by (simp_all add: irq_ack_def)
  ultimately show ?thesis using p by simp
qed

lemma interrupt_rx_retries:
  "\<exists>s'. sunxi_can_interrupt (rx_device example_h) example_h
           (\<lparr>pending = 1, failing = n, allocs = 0, irq = 0x01\<rparr>, idle_dev) =
           Some (IRQ_HANDLED, s') \<and>
        allocs (fst s') = n + 1 \<and> netif_rx_queue (snd s') = [zero_frame] \<and>
        pending (fst s') = 0 \<and> irq (fst s') = 0"
proof -
  let ?p = "rx_device example_h"
  let ?w = "\<lparr>pending = 1, failing = n, allocs = 0, irq = 0x01\<rparr>"
  let ?s1 = "snd (readl ?p CAN_INT_ADDR (?w, idle_dev))"
  from irq_body_rx_retries [of "fst ?s1" n "snd ?s1", unfolded prod.collapse]
  obtain y where y: "irq_body ?p example_h 1 ?s1 = Some (Irq_continue y)"
    and p: "pending (fst y) = 0" "allocs (fst y) = n + 1" "irq (fst y) = 0"
      "netif_rx_queue (snd y) = [zero_frame]"
    by (auto simp: idle_dev_def)
  have l1: "irq_loop ?p example_h 0 (?w, idle_dev) = irq_loop ?p example_h 1 y"
    using y by (subst irq_loop.simps) (simp add: SUNXI_CAN_MAX_IRQ_def)
  have l2: "irq_loop ?p example_h 1 y = Some (None, 1, snd (readl ?p CAN_INT_ADDR y))"
    using p(3) by (subst irq_loop.simps) simp
  have res: "sunxi_can_interrupt ?p example_h (?w, idle_dev) =
               Some (IRQ_HANDLED, snd (readl ?p CAN_INT_ADDR y))"
    unfolding sunxi_can_interrupt_def l1 l2 by simp
  show ?thesis
    unfolding res using p by (intro exI [of _ "snd (readl ?p CAN_INT_ADDR y)"]) simp
qed

lemma rx_pass_stuck:
  "fst (rx_pass (stuck_hw regs ok) h s) = ucast (regs CAN_STA_ADDR)"
  by (simp add: rx_pass_def Let_def split_beta)

lemma stuck_drains:
  assumes "\<not> isrc_has (ucast (regs CAN_STA_ADDR)) (RBUF_RDY h)"
  shows "rx_buffer_drains (stuck_hw regs ok) h (\<lambda>w. 0)"
  using assms by (simp add: rx_buffer_drains_def rx_pass_stuck)

lemma rx_pass_rx_device:
  "fst (rx_pass (rx_device h) h s) =
     ucast (if 0 < pending (fst (sunxi_can_rx (rx_device h) h s)) then RBUF_RDY h else 0)"
  "fst (snd (rx_pass (rx_device h) h s)) = fst (sunxi_can_rx (rx_device h) h s)"
  by (simp_all add: rx_pass_def Let_def split_beta not_absent_rx)

lemma rx_device_drains:
  "rx_buffer_drains (rx_device example_h) example_h (\<lambda>w. pending w + failing w)"
  unfolding rx_buffer_drains_def
proof (intro allI impI)
  fix s :: "rxdev sys"
  obtain w d where s: "s = (w, d)" by (cases s)
  assume rdy: "isrc_has (fst (rx_pass (rx_device example_h) example_h s)) (RBUF_RDY example_h)"
  show "pending (fst (snd (rx_pass (rx_device example_h) example_h s))) +
        failing (fst (snd (rx_pass (rx_device example_h) example_h s)))
        < pending (fst s) + failing (fst s)"
  proof (cases "failing w = 0")
    case True
    from rx_delivers(1) [OF True, of d]
    have w1: "fst (sunxi_can_rx (rx_device example_h) example_h (w, d)) =
                w\<lparr>failing := 0, allocs := allocs w + 1, pending := pending w - 1\<rparr>" .
    from rdy have "0 < pending w - 1"
      by (simp add: rx_pass_rx_device s w1 isrc_has_def split: if_splits)
    then show ?thesis using True by (simp add: rx_pass_rx_device s w1)
  next
    case False
    then show ?thesis by (simp add: rx_pass_rx_device s rx_fails)
  qed
qed

lemma rx_drain_stuck_full:
  "rx_drain (stuck_hw rx_full_regs ok) example_h 1 s = None"
proof (rule ccontr)
  assume "rx_drain (stuck_hw rx_full_regs ok) example_h 1 s \<noteq> None"
  then obtain y where r: "rx_drain (stuck_hw rx_full_regs ok) example_h 1 s = Some y" by blast
  have "stuck_hw rx_full_regs ok = stuck_hw rx_full_regs ok \<and> example_h = example_h \<and>
        (1::u8) = 1 \<longrightarrow> False"
  proof (rule rx_drain.raw_induct
      [where P = "\<lambda>(p :: unit platform) h status s y.
                    p = stuck_hw rx_full_regs ok \<and> h = example_h \<and> status = 1 \<longrightarrow> False",
        OF _ r])
    fix f and p :: "unit platform" and h status s y
    assume IH: "\<And>p h status s y. f p h status s = Some y \<Longrightarrow>
                  p = stuck_hw rx_full_regs ok \<and> h = example_h \<and> status = 1 \<longrightarrow> False"
      and eq: "(if isrc_has status (RBUF_RDY h)
                then let s1 = sunxi_can_rx p h s; (v, s2) = readl p CAN_STA_ADDR s1;
                         (absent, s3) = sunxi_can_is_absent p s2
                     in if absent then Some (True, ucast v, s3)
                        else f p h (ucast v) s3
                else Some (False, status, s)) = Some y"
    show "p = stuck_hw rx_full_regs ok \<and> h = example_h \<and> status = 1 \<longrightarrow> False"
    proof
      assume a: "p = stuck_hw rx_full_regs ok \<and> h = example_h \<and> status = 1"
      from eq a
      have "f p h 1 (snd (sunxi_can_is_absent p
                (snd (readl p CAN_STA_ADDR (sunxi_can_rx p h s))))) = Some y"
        by (simp add: Let_def split_beta isrc_has_def sunxi_can_is_absent_def rx_full_regs_def)
      from IH [OF this] a show False by blast
    qed
  qed
  then show False by simp
qed

lemma interrupt_rx_full_hangs:
  "irq_loop (stuck_hw rx_full_regs True) example_h 0 ((), idle_dev) = None"
  "sunxi_can_interrupt (stuck_hw rx_full_regs True) example_h ((), idle_dev) = None"
proof -
  have b: "irq_body (stuck_hw rx_full_regs True) example_h 1 t = None" for t
    by (simp add: irq_body_def Let_def split_beta sunxi_can_is_absent_def isrc_has_def
          rx_full_regs_def rx_drain_stuck_full)
  show l: "irq_loop (stuck_hw rx_full_regs True) example_h 0 ((), idle_dev) = None"
    by (subst irq_loop.simps) (simp add: SUNXI_CAN_MAX_IRQ_def rx_full_regs_def b)
  show "sunxi_can_interrupt (stuck_hw rx_full_regs True) example_h ((), idle_dev) = None"
    by (simp add: sunxi_can_interrupt_def l)
qed

lemma interrupt_high_irq:
  "irq_loop (stuck_hw high_irq_regs True) example_h 0 ((), idle_dev) =
     Some (None, 0, ((), idle_dev\<lparr>io_log := [Readl CAN_INT_ADDR 0x100]\<rparr>))"
  "sunxi_can_interrupt (stuck_hw high_irq_regs True) example_h ((), idle_dev) =
     Some (IRQ_NONE, ((), idle_dev\<lparr>io_log := [Readl CAN_INT_ADDR 0x100]\<rparr>))"
proof -
  show l: "irq_loop (stuck_hw high_irq_regs True) example_h 0 ((), idle_dev) =
          Some (None, 0, ((), idle_dev\<lparr>io_log := [Readl CAN_INT_ADDR 0x100]\<rparr>))"
    by (subst irq_loop.simps) (simp add: high_irq_regs_def idle_dev_def prod_eq_iff)
  show "sunxi_can_interrupt (stuck_hw high_irq_regs True) example_h ((), idle_dev) =
          Some (IRQ_NONE, ((), idle_dev\<lparr>io_log := [Readl CAN_INT_ADDR 0x100]\<rparr>))"
    by (simp add: sunxi_can_interrupt_def l)
qed

lemma irq_loop_err_alloc_fails:
  "irq_loop (stuck_hw err_wrn_regs False) example_h 0 ((), idle_dev) =
     Some (None, 1,
       ((), idle_dev\<lparr>io_log := [Readl CAN_INT_ADDR 4, Readl CAN_STA_ADDR 0,
                                   Readl CAN_MSEL_ADDR 0]\<rparr>))"
  by (subst irq_loop.simps)
     (simp add: SUNXI_CAN_MAX_IRQ_def err_wrn_regs_def irq_body_def Let_def split_beta
        sunxi_can_is_absent_def isrc_has_def sunxi_can_err_fail ENOMEM_def idle_dev_def)

section \<open>Interrupt dispatcher: claims\<close>

text \<open>
  Claim C3, as amended. Take a run in which the controller is never found absent and the
  receive buffer drains: every pass of the receive loop that leaves the status register
  showing the buffer ready has made a measure \<open>m\<close> of the hardware state smaller. If the
  low byte of the interrupt register, which is what the handler keeps of it, never reads
  zero and no allocation of a diagnostic frame fails, then the dispatch loop runs exactly
  20 times and the handler returns \<open>IRQ_HANDLED\<close>. And in every such run the handler
  returns, after at most 20 passes of the dispatch loop: \<open>IRQ_HANDLED\<close> if the loop ran
  at least once, which is when the low byte of the first read of the interrupt register
  was not zero, and \<open>IRQ_NONE\<close> otherwise.
\<close>

theorem irq_dispatch_bound:
  fixes p :: "'w platform" and m :: "'w \<Rightarrow> nat"
  assumes "\<forall>w. fst (hw_readl p CAN_MSEL_ADDR w) AND 0xFF \<noteq> 0xFF"
    and "rx_buffer_drains p h m"
  shows "((\<forall>w. (ucast (fst (hw_readl p CAN_INT_ADDR w)) :: u8) \<noteq> 0) \<and>
          (\<forall>w. fst (k_alloc_can_err_skb p w)) \<longrightarrow>
            (\<exists>s'. irq_loop p h 0 s = Some (None, 20, s') \<and>
                  sunxi_can_interrupt p h s = Some (IRQ_HANDLED, s'))) \<and>
         (\<exists>n s'. irq_loop p h 0 s = Some (None, n, s') \<and> n \<le> 20 \<and>
                 (0 < n \<longleftrightarrow> (ucast (fst (hw_readl p CAN_INT_ADDR (fst s))) :: u8) \<noteq> 0) \<and>
                 sunxi_can_interrupt p h s =
                   Some (if 0 < n then IRQ_HANDLED else IRQ_NONE, s'))"
proof (intro conjI impI)
  assume "(\<forall>w. (ucast (fst (hw_readl p CAN_INT_ADDR w)) :: u8) \<noteq> 0) \<and>
          (\<forall>w. fst (k_alloc_can_err_skb p w))"
  then show "\<exists>s'. irq_loop p h 0 s = Some (None, 20, s') \<and>
                  sunxi_can_interrupt p h s = Some (IRQ_HANDLED, s')"
    using interrupt_full [OF _ assms(1) _ assms(2), of s] by blast
next
  show "\<exists>n s'. irq_loop p h 0 s = Some (None, n, s') \<and> n \<le> 20 \<and>
                 (0 < n \<longleftrightarrow> (ucast (fst (hw_readl p CAN_INT_ADDR (fst s))) :: u8) \<noteq> 0) \<and>
                 sunxi_can_interrupt p h s =
                   Some (if 0 < n then IRQ_HANDLED else IRQ_NONE, s')"
    by (rule interrupt_returns [OF assms])
qed

theorem irq_dispatch_bound_witness:
  "(\<forall>w. fst (hw_readl (stuck_hw err_wrn_regs True) CAN_MSEL_ADDR w) AND 0xFF \<noteq> 0xFF) \<and>
   rx_buffer_drains (stuck_hw err_wrn_regs True) example_h (\<lambda>w. 0) \<and>
   (\<forall>w. (ucast (fst (hw_readl (stuck_hw err_wrn_regs True) CAN_INT_ADDR w)) :: u8) \<noteq> 0) \<and>
   (\<forall>w. fst (k_alloc_can_err_skb (stuck_hw err_wrn_regs True) w)) \<and>
   map_option (fst \<circ> snd) (irq_loop (stuck_hw err_wrn_regs True) example_h 0 ((), idle_dev))
     = Some 20 \<and>
   map_option fst (sunxi_can_interrupt (stuck_hw err_wrn_regs True) example_h ((), idle_dev))
     = Some IRQ_HANDLED \<and>
   (\<forall>w. fst (hw_readl (rx_device example_h) CAN_MSEL_ADDR w) AND 0xFF \<noteq> 0xFF) \<and>
   rx_buffer_drains (rx_device example_h) example_h (\<lambda>w. pending w + failing w) \<and>
   map_option fst (sunxi_can_interrupt (rx_device example_h) example_h
      (\<lparr>pending = 2, failing = 1, allocs = 0, irq = 0x01\<rparr>, idle_dev)) = Some IRQ_HANDLED \<and>
   (\<forall>w. fst (hw_readl (stuck_hw idle_regs True) CAN_MSEL_ADDR w) AND 0xFF \<noteq> 0xFF) \<and>
   rx_buffer_drains (stuck_hw idle_regs True) example_h (\<lambda>w. 0) \<and>
   map_option fst (sunxi_can_interrupt (stuck_hw idle_regs True) example_h ((), idle_dev))
     = Some IRQ_NONE"
proof -
  have a: "\<forall>w. fst (hw_readl (stuck_hw err_wrn_regs True) CAN_MSEL_ADDR w) AND 0xFF \<noteq> 0xFF"
    "\<forall>w. (ucast (fst (hw_readl (stuck_hw err_wrn_regs True) CAN_INT_ADDR w)) :: u8) \<noteq> 0"
    "\<forall>w. fst (k_alloc_can_err_skb (stuck_hw err_wrn_regs True) w)"
    "\<forall>w. fst (hw_readl (stuck_hw idle_regs True) CAN_MSEL_ADDR w) AND 0xFF \<noteq> 0xFF"
    "\<forall>w. fst (hw_readl (rx_device example_h) CAN_MSEL_ADDR w) AND 0xFF \<noteq> 0xFF"
    by (simp_all add: err_wrn_regs_def idle_regs_def)
  have d: "rx_buffer_drains (stuck_hw err_wrn_regs True) example_h (\<lambda>w. 0)"
    "rx_buffer_drains (stuck_hw idle_regs True) example_h (\<lambda>w. 0)"
    by (rule stuck_drains, simp add: err_wrn_regs_def idle_regs_def isrc_has_def)+
  from irq_dispatch_bound [OF a(1) d(1), of "((), idle_dev)"] a(2,3)
  obtain s1 where full:
    "irq_loop (stuck_hw err_wrn_regs True) example_h 0 ((), idle_dev) = Some (None, 20, s1)"
    "sunxi_can_interrupt (stuck_hw err_wrn_regs True) example_h ((), idle_dev) =
       Some (IRQ_HANDLED, s1)"
    by blast
  have one: "map_option (fst \<circ> snd)
               (irq_loop (stuck_hw err_wrn_regs True) example_h 0 ((), idle_dev)) = Some 20"
    "map_option fst (sunxi_can_interrupt (stuck_hw err_wrn_regs True) example_h ((), idle_dev))
       = Some IRQ_HANDLED"
    by (simp_all only: full option.map prod.sel comp_apply)
  have two: "map_option fst (sunxi_can_interrupt (rx_device example_h) example_h
      (\<lparr>pending = 2, failing = 1, allocs = 0, irq = 0x01\<rparr>, idle_dev)) = Some IRQ_HANDLED"
    using irq_dispatch_bound [OF a(5) rx_device_drains,
        of "(\<lparr>pending = 2, failing = 1, allocs = 0, irq = 0x01\<rparr>, idle_dev)", THEN conjunct2]
    by auto
  have three: "map_option fst
      (sunxi_can_interrupt (stuck_hw idle_regs True) example_h ((), idle_dev)) = Some IRQ_NONE"
    using irq_dispatch_bound [OF a(4) d(2), of "((), idle_dev)", THEN conjunct2]
    by (auto simp: idle_regs_def)
  show ?thesis
    using a d rx_device_drains one two three by (intro conjI) assumption+
qed

text \<open>
  The claim as first stated fails in three runs in which the interrupt register never
  reads zero and the controller is present. With the error-warning bit always set and
  no memory for the diagnostic frame, the loop is left after one iteration, not 20. With
  the receive interrupt always set, the status register always showing the receive
  buffer ready and every allocation succeeding, the receive loop of the first iteration
  never ends and the handler does not return. With the interrupt register reading
  \<open>0x100\<close>, whose low byte is zero, no iteration runs and the handler returns \<open>IRQ_NONE\<close>.
\<close>

theorem irq_dispatch_bound_counterexample:
  "(ucast (fst (hw_readl (stuck_hw err_wrn_regs False) CAN_INT_ADDR ())) :: u8) \<noteq> 0 \<and>
   fst (hw_readl (stuck_hw err_wrn_regs False) CAN_MSEL_ADDR ()) AND 0xFF \<noteq> 0xFF \<and>
   map_option (fst \<circ> snd) (irq_loop (stuck_hw err_wrn_regs False) example_h 0 ((), idle_dev))
     = Some 1 \<and>
   SUNXI_CAN_MAX_IRQ = 20 \<and>
   (ucast (fst (hw_readl (stuck_hw rx_full_regs True) CAN_INT_ADDR ())) :: u8) \<noteq> 0 \<and>
   fst (hw_readl (stuck_hw rx_full_regs True) CAN_MSEL_ADDR ()) AND 0xFF \<noteq> 0xFF \<and>
   fst (k_alloc_can_skb (stuck_hw rx_full_regs True) ()) \<and>
   fst (k_alloc_can_err_skb (stuck_hw rx_full_regs True) ()) \<and>
   irq_loop (stuck_hw rx_full_regs True) example_h 0 ((), idle_dev) = None \<and>
   sunxi_can_interrupt (stuck_hw rx_full_regs True) example_h ((), idle_dev) = None \<and>
   fst (hw_readl (stuck_hw high_irq_regs True) CAN_INT_ADDR ()) = 0x100 \<and>
   fst (hw_readl (stuck_hw high_irq_regs True) CAN_MSEL_ADDR ()) AND 0xFF \<noteq> 0xFF \<and>
   irq_loop (stuck_hw high_irq_regs True) example_h 0 ((), idle_dev) =
     Some (None, 0, ((), idle_dev\<lparr>io_log := [Readl CAN_INT_ADDR 0x100]\<rparr>)) \<and>
   sunxi_can_interrupt (stuck_hw high_irq_regs True) example_h ((), idle_dev) =
     Some (IRQ_NONE, ((), idle_dev\<lparr>io_log := [Readl CAN_INT_ADDR 0x100]\<rparr>))"
  by (simp add: irq_loop_err_alloc_fails interrupt_rx_full_hangs interrupt_high_irq
        err_wrn_regs_def rx_full_regs_def high_irq_regs_def SUNXI_CAN_MAX_IRQ_def)

text \<open>
  Claim C4. When the allocation of a diagnostic frame fails, \<^verbatim>\<open>sunxi_can_err\<close> returns
  \<open>-ENOMEM\<close> and the dispatch loop is left at once: with the error-warning bit set and no
  memory, the handler reads the interrupt, status and mode-select registers once, writes
  nothing, and leaves the device as it was. When the allocation of a receive frame fails,
  \<^verbatim>\<open>sunxi_can_rx\<close> returns nothing and the drain loop calls it again while the status
  register shows the buffer full: with one frame in the buffer and the first \<open>n\<close>
  allocations failing, the same invocation allocates \<open>n + 1\<close> times, delivers the frame,
  goes on to acknowledge the interrupt and returns \<open>IRQ_HANDLED\<close>.
\<close>

theorem rx_alloc_failure_retried:
  "irq_loop (stuck_hw err_wrn_regs False) example_h 0 ((), idle_dev) =
     Some (None, 1,
       ((), idle_dev\<lparr>io_log := [Readl CAN_INT_ADDR 4, Readl CAN_STA_ADDR 0,
                                   Readl CAN_MSEL_ADDR 0]\<rparr>)) \<and>
   (\<exists>s'. sunxi_can_interrupt (rx_device example_h) example_h
           (\<lparr>pending = 1, failing = n, allocs = 0, irq = 0x01\<rparr>, idle_dev) =
           Some (IRQ_HANDLED, s') \<and>
         allocs (fst s') = n + 1 \<and> netif_rx_queue (snd s') = [zero_frame] \<and>
         pending (fst s') = 0 \<and> irq (fst s') = 0)"
  using irq_loop_err_alloc_fails interrupt_rx_retries [of n] by (intro conjI)

end
